theory Spec2Isabelle
  imports Complex_Main
begin

section \<open>Values: tensors, distributions, hyperparameters\<close>

text \<open>
  The program (\<^verbatim>\<open>hyperparameter.py\<close>) defines two classes, \<^verbatim>\<open>BPF\<close> and \<^verbatim>\<open>MMPF\<close>,
  each with a generative model, a variational guide and a training loop \<^verbatim>\<open>fit\<close>.
  The classes are written against the probabilistic-programming primitives
  \<^verbatim>\<open>pyro.sample\<close>, \<^verbatim>\<open>pyro.param\<close> and \<^verbatim>\<open>pyro.plate\<close>. The embedding keeps what
  the source's own control and data flow depend on:
  \<^item> a tensor has a rank (0, 1 or 2), because the source subscripts tensors;
  \<^item> a sample statement appends a site (name, distribution, value) to the trace of the
    current run and returns the site's value; in a run that the library traces, as
    \<^verbatim>\<open>svi.step\<close> does with the guide and with the model, a second site of a name that
    the trace already holds raises \<^verbatim>\<open>RuntimeError\<close>;
  \<^item> a parameter statement is create-or-fetch on the global parameter store; the names
    of the parameters all start with \<^verbatim>\<open>q_\<close> and the names of the sites never do, so
    parameters are left out of the trace;
  \<^item> \<^verbatim>\<open>pyro.plate(name, n)\<close> declares a site of its own under \<^verbatim>\<open>name\<close> and raises
    \<^verbatim>\<open>ZeroDivisionError\<close> when \<^verbatim>\<open>n\<close> is 0; a sequential plate
    (\<^verbatim>\<open>for x in pyro.plate(name, n)\<close>) then runs its body for \<^verbatim>\<open>0, ..., n - 1\<close>; a
    vectorised plate (\<^verbatim>\<open>with pyro.plate(name, n)\<close>) runs its body once, and widens the
    sample statements inside it by a dimension of size n;
  \<^item> \<^verbatim>\<open>svi.step\<close> runs the guide and the model inside a generator of the library, so
    a \<^verbatim>\<open>StopIteration\<close> that leaves either of them leaves the step as
    \<^verbatim>\<open>RuntimeError\<close>;
  \<^item> every exception of the Python text (an unbound local, a subscript on \<^verbatim>\<open>None\<close>, a
    call with too many positional arguments, \<^verbatim>\<open>next\<close> on an exhausted iterator, a
    subscript with too many indices) is an error value.
  Numbers are real numbers; the validation that the library itself performs on
  distribution arguments and on finished traces is not part of the source and is not
  modelled.
\<close>

datatype pyerror =
  ValueError | TypeError | UnboundLocalError | StopIteration | IndexError | RuntimeError |
  ZeroDivisionError

datatype tensor = Scalar real | Vector "real list" | Matrix "real list list"

text \<open>\<open>Subsample n\<close> is the distribution of the site that a plate of size \<open>n\<close> declares.\<close>

datatype dist =
  Gamma tensor tensor | Dirichlet tensor | Categorical tensor | Poisson tensor | Subsample nat

datatype site =
  Site (site_name: string) (site_fn: dist) (site_value: tensor) (is_observed: bool)

record hyperparams =
  a_u :: real
  b_u :: real
  a_i :: real
  b_i :: real
  a_c :: real
  b_c :: real
  c_u :: real
  c_i :: real
  context_conc :: real
  num_users :: nat
  num_items :: nat
  num_nonmissing :: nat
  num_latents :: nat
  num_contexts :: nat
  num_context_latents :: nat

text \<open>A rating is the triple \<^verbatim>\<open>(user, item, rating)\<close> of the ratings sequence.\<close>

type_synonym rating = "nat \<times> nat \<times> real"

text \<open>The two classes: their only attribute is \<^verbatim>\<open>self.hyperparams\<close>, which may be \<^verbatim>\<open>None\<close>.\<close>

record BPF =
  bpf_hyperparams :: "hyperparams option"

record MMPF =
  mmpf_hyperparams :: "hyperparams option"

text \<open>
  The positional arguments of one call of \<^verbatim>\<open>svi.step\<close>, which are handed on unchanged to
  the guide and to the model: \<^verbatim>\<open>svi.step(ratings)\<close> or
  \<^verbatim>\<open>svi.step(ratings, hyperparams)\<close>.
\<close>

datatype call_args = Args1 "rating list" | Args2 "rating list" "hyperparams option"

section \<open>The state of a run\<close>

text \<open>
  \<open>store\<close> is the global parameter store, \<open>trace\<close> the sites of the current run in program
  order, \<open>itr\<close> what is left of the iterator \<^verbatim>\<open>ratings_itr\<close>, and \<open>consumed\<close> the entries
  that \<^verbatim>\<open>next(ratings_itr)\<close> has handed out so far, in order. \<open>names\<close> lists the names of
  the sites of the trace.
\<close>

record world =
  store :: "string \<Rightarrow> tensor option"
  trace :: "site list"
  itr :: "rating list"
  consumed :: "rating list"

type_synonym 'a pyro = "world \<Rightarrow> (pyerror + 'a) \<times> world"

definition names :: "world \<Rightarrow> string list" where
  "names w = map site_name (trace w)"

definition ret :: "'a \<Rightarrow> 'a pyro" where
  "ret x w = (Inr x, w)"

definition raise :: "pyerror \<Rightarrow> 'a pyro" where
  "raise e w = (Inl e, w)"

definition pbind :: "'a pyro \<Rightarrow> ('a \<Rightarrow> 'b pyro) \<Rightarrow> 'b pyro" where
  "pbind m f w = (case m w of (Inl e, w') \<Rightarrow> (Inl e, w') | (Inr x, w') \<Rightarrow> f x w')"

definition ebind :: "pyerror + 'a \<Rightarrow> ('a \<Rightarrow> pyerror + 'b) \<Rightarrow> pyerror + 'b" where
  "ebind r f = (case r of Inl e \<Rightarrow> Inl e | Inr x \<Rightarrow> f x)"

definition lift :: "pyerror + 'a \<Rightarrow> 'a pyro" where
  "lift r w = (r, w)"

text \<open>A \<^verbatim>\<open>for\<close> loop over a list of indices; \<open>acc\<close> holds the variables the body assigns.\<close>

fun for_each :: "'i list \<Rightarrow> ('i \<Rightarrow> 'a \<Rightarrow> 'a pyro) \<Rightarrow> 'a \<Rightarrow> 'a pyro" where
  "for_each [] body acc w = (Inr acc, w)"
| "for_each (i # rest) body acc w =
     (case body i acc w of
        (Inl e, w') \<Rightarrow> (Inl e, w')
      | (Inr acc', w') \<Rightarrow> for_each rest body acc' w')"

section \<open>Python and tensor primitives\<close>

text \<open>Reading a local variable that no statement has assigned yet.\<close>

definition read_local :: "'a option \<Rightarrow> pyerror + 'a" where
  "read_local v = (case v of None \<Rightarrow> Inl UnboundLocalError | Some x \<Rightarrow> Inr x)"

text \<open>Subscripting \<^verbatim>\<open>hyperparams[...]\<close>: a \<^verbatim>\<open>TypeError\<close> when the object is \<^verbatim>\<open>None\<close>.\<close>

definition subscriptable :: "hyperparams option \<Rightarrow> pyerror + hyperparams" where
  "subscriptable h = (case h of None \<Rightarrow> Inl TypeError | Some hp \<Rightarrow> Inr hp)"

text \<open>\<^verbatim>\<open>ratings_itr = iter(ratings)\<close> and \<^verbatim>\<open>next(ratings_itr)\<close>.\<close>

definition py_iter :: "rating list \<Rightarrow> unit pyro" where
  "py_iter ratings w = (Inr (), w\<lparr>itr := ratings\<rparr>)"

definition py_next :: "rating pyro" where
  "py_next w =
     (case itr w of
        [] \<Rightarrow> (Inl StopIteration, w)
      | r # rest \<Rightarrow> (Inr r, w\<lparr>itr := rest, consumed := consumed w @ [r]\<rparr>))"

text \<open>Decimal text of a number, as \<^verbatim>\<open>'{}'.format(n)\<close> gives it.\<close>

definition digit :: "nat \<Rightarrow> char" where
  "digit d = ''0123456789'' ! d"

function str :: "nat \<Rightarrow> string" where
  "str n = (if n < 10 then [digit n] else str (n div 10) @ [digit (n mod 10)])"
  by pat_completeness auto
termination
  by (relation "measure id") auto

declare str.simps [simp del]

definition fmt1 :: "string \<Rightarrow> nat \<Rightarrow> string" where
  "fmt1 prefix a = prefix @ str a"

definition fmt2 :: "string \<Rightarrow> nat \<Rightarrow> nat \<Rightarrow> string" where
  "fmt2 prefix a b = prefix @ str a @ '','' @ str b"

text \<open>\<^verbatim>\<open>torch.ones(n)\<close> and the product of a Python float with a tensor.\<close>

definition ones :: "nat \<Rightarrow> tensor" where
  "ones n = Vector (replicate n 1)"

fun scale :: "real \<Rightarrow> tensor \<Rightarrow> tensor" where
  "scale k (Scalar x) = Scalar (k * x)"
| "scale k (Vector xs) = Vector (map (\<lambda>x. k * x) xs)"
| "scale k (Matrix rows) = Matrix (map (map (\<lambda>x. k * x)) rows)"

text \<open>
  \<^verbatim>\<open>t[:, j]\<close>: the tensor needs two dimensions, and \<open>j\<close> must be within the second. The
  result is one-dimensional.
\<close>

fun select_col :: "tensor \<Rightarrow> nat \<Rightarrow> pyerror + real list" where
  "select_col (Matrix rows) j =
     (if list_all (\<lambda>r. j < length r) rows then Inr (map (\<lambda>r. r ! j) rows) else Inl IndexError)"
| "select_col (Vector xs) j = Inl IndexError"
| "select_col (Scalar x) j = Inl IndexError"

text \<open>A zero-dimensional integer tensor used as an index.\<close>

fun tensor_index :: "tensor \<Rightarrow> pyerror + nat" where
  "tensor_index (Scalar x) = Inr (nat \<lfloor>x\<rfloor>)"
| "tensor_index (Vector xs) = Inl IndexError"
| "tensor_index (Matrix rows) = Inl IndexError"

text \<open>\<^verbatim>\<open>a @ b\<close> on two one-dimensional tensors: their dot product.\<close>

definition dot :: "real list \<Rightarrow> real list \<Rightarrow> pyerror + real" where
  "dot xs ys =
     (if length xs = length ys then Inr (sum_list (map2 (\<lambda>x y. x * y) xs ys))
      else Inl RuntimeError)"

section \<open>Sampling, parameters, plates\<close>

datatype shape = Dim0 | Dim1 nat | Dim2 nat nat

fun shape_of :: "tensor \<Rightarrow> shape" where
  "shape_of (Scalar x) = Dim0"
| "shape_of (Vector xs) = Dim1 (length xs)"
| "shape_of (Matrix rows) = Dim2 (length rows) (case rows of [] \<Rightarrow> 0 | r # _ \<Rightarrow> length r)"

fun broadcast :: "shape \<Rightarrow> shape \<Rightarrow> shape" where
  "broadcast Dim0 s = s"
| "broadcast s Dim0 = s"
| "broadcast (Dim1 m) (Dim1 n) = Dim1 (max m n)"
| "broadcast (Dim1 m) (Dim2 k n) = Dim2 k (max m n)"
| "broadcast (Dim2 k n) (Dim1 m) = Dim2 k (max m n)"
| "broadcast (Dim2 k n) (Dim2 k' n') = Dim2 (max k k') (max n n')"

text \<open>The shape of one draw from a distribution.\<close>

fun sample_shape :: "dist \<Rightarrow> shape" where
  "sample_shape (Gamma a b) = broadcast (shape_of a) (shape_of b)"
| "sample_shape (Dirichlet c) = shape_of c"
| "sample_shape (Poisson l) = shape_of l"
| "sample_shape (Categorical p) =
     (case shape_of p of Dim0 \<Rightarrow> Dim0 | Dim1 n \<Rightarrow> Dim0 | Dim2 k n \<Rightarrow> Dim1 k)"
| "sample_shape (Subsample n) = Dim1 n"

text \<open>
  A vectorised plate of size \<open>n\<close> adds a dimension of size \<open>n\<close> on the left of the
  dimensions the enclosing plates have taken.
\<close>

fun widen :: "nat \<Rightarrow> shape \<Rightarrow> shape" where
  "widen n Dim0 = Dim1 n"
| "widen n (Dim1 m) = Dim2 n m"
| "widen n (Dim2 k m) = Dim2 k m"

fun fill :: "shape \<Rightarrow> (nat \<Rightarrow> real) \<Rightarrow> tensor" where
  "fill Dim0 f = Scalar (f 0)"
| "fill (Dim1 n) f = Vector (map f [0..<n])"
| "fill (Dim2 k n) f = Matrix (map (\<lambda>i. map (\<lambda>j. f (i * n + j)) [0..<n]) [0..<k])"

text \<open>
  What a sample statement returns is decided by the handlers around the run: a fresh
  draw of the distribution's shape (\<open>draw\<close>, from a source of numbers), or the value the
  guide's trace holds for the site of the same name (\<open>replay\<close>).
\<close>

type_synonym sampler = "string \<Rightarrow> shape \<Rightarrow> tensor"

definition draw :: "(string \<Rightarrow> nat \<Rightarrow> real) \<Rightarrow> sampler" where
  "draw rng nm sh = fill sh (rng nm)"

definition replay :: "site list \<Rightarrow> sampler \<Rightarrow> sampler" where
  "replay guide_trace smp nm sh =
     (case find (\<lambda>s. site_name s = nm) guide_trace of
        Some s \<Rightarrow> site_value s
      | None \<Rightarrow> smp nm sh)"

text \<open>
  The first argument of the statements below says whether the run is traced by the
  library (\<open>True\<close>, as inside \<^verbatim>\<open>svi.step\<close>) or is a plain call of the function
  (\<open>False\<close>). In a traced run a name that the trace already holds cannot be declared
  again. The state records the sites of a plain call as well, so that one can say what
  the call declared; a plain call checks no name.
\<close>

definition taken :: "bool \<Rightarrow> string \<Rightarrow> world \<Rightarrow> bool" where
  "taken tr nm w = (tr \<and> nm \<in> set (names w))"

definition pyro_sample :: "bool \<Rightarrow> sampler \<Rightarrow> string \<Rightarrow> dist \<Rightarrow> tensor pyro" where
  "pyro_sample tr smp nm d w =
     (if taken tr nm w then (Inl RuntimeError, w)
      else let v = smp nm (sample_shape d)
           in (Inr v, w\<lparr>trace := trace w @ [Site nm d v False]\<rparr>))"

text \<open>A sample statement inside vectorised plates, outermost plate first.\<close>

definition pyro_sample_plated ::
  "bool \<Rightarrow> sampler \<Rightarrow> nat list \<Rightarrow> string \<Rightarrow> dist \<Rightarrow> tensor pyro" where
  "pyro_sample_plated tr smp plates nm d w =
     (if taken tr nm w then (Inl RuntimeError, w)
      else let v = smp nm (foldl (\<lambda>sh n. widen n sh) Dim0 plates)
           in (Inr v, w\<lparr>trace := trace w @ [Site nm d v False]\<rparr>))"

text \<open>\<^verbatim>\<open>pyro.sample(name, d, obs=value)\<close>.\<close>

definition pyro_observe :: "bool \<Rightarrow> string \<Rightarrow> dist \<Rightarrow> tensor \<Rightarrow> tensor pyro" where
  "pyro_observe tr nm d obs w =
     (if taken tr nm w then (Inl RuntimeError, w)
      else (Inr obs, w\<lparr>trace := trace w @ [Site nm d obs True]\<rparr>))"

text \<open>
  \<^verbatim>\<open>pyro.param(name, init, constraint=positive)\<close>: the stored value when the name is
  in the store, else \<open>init\<close>, which is then stored.
\<close>

definition pyro_param :: "string \<Rightarrow> tensor \<Rightarrow> tensor pyro" where
  "pyro_param nm init w =
     (case store w nm of
        Some v \<Rightarrow> (Inr v, w)
      | None \<Rightarrow> (Inr init, w\<lparr>store := (store w)(nm \<mapsto> init)\<rparr>))"

text \<open>
  \<^verbatim>\<open>pyro.plate(name, n)\<close>: the plate declares the site of its indices under its own
  name, then refuses the size 0; it gives the indices \<^verbatim>\<open>0, ..., n - 1\<close>.
\<close>

definition pyro_plate :: "bool \<Rightarrow> string \<Rightarrow> nat \<Rightarrow> nat list pyro" where
  "pyro_plate tr nm n w =
     (if taken tr nm w then (Inl RuntimeError, w)
      else let w' = w\<lparr>trace := trace w @
                      [Site nm (Subsample n) (Vector (map real [0..<n])) False]\<rparr>
           in if n = 0 then (Inl ZeroDivisionError, w') else (Inr [0..<n], w'))"

text \<open>\<^verbatim>\<open>for j in pyro.plate(name, n): body\<close>.\<close>

definition plate_loop ::
  "bool \<Rightarrow> string \<Rightarrow> nat \<Rightarrow> (nat \<Rightarrow> 'a \<Rightarrow> 'a pyro) \<Rightarrow> 'a \<Rightarrow> 'a pyro" where
  "plate_loop tr nm n body acc =
     pbind (pyro_plate tr nm n) (\<lambda>indices. for_each indices body acc)"

section \<open>BPF\<close>

text \<open>
  \<^verbatim>\<open>BPF._model(self, ratings)\<close>, lines 20 to 43. The name \<^verbatim>\<open>hyperparams\<close> is assigned
  in the body (line 22), so it is a local variable of the function; line 21 reads it
  before any assignment. The plates of this model are vectorised.
\<close>

definition BPF_model :: "bool \<Rightarrow> sampler \<Rightarrow> BPF \<Rightarrow> rating list \<Rightarrow> unit pyro" where
  "BPF_model tr smp slf ratings =
     pbind (lift (read_local (None :: hyperparams option option))) (\<lambda>local_hp.
     pbind (lift (subscriptable (if local_hp = None then bpf_hyperparams slf else local_hp))) (\<lambda>hp.
     pbind (pyro_plate tr ''users_loop'' (num_users hp)) (\<lambda>_.
     pbind (pyro_sample_plated tr smp [num_users hp] ''user_mean''
              (Gamma (Scalar (a_u hp)) (Scalar (b_u hp)))) (\<lambda>user_mean.
     pbind (pyro_plate tr ''user_latents'' (num_latents hp)) (\<lambda>_.
     pbind (pyro_sample_plated tr smp [num_users hp, num_latents hp] ''user_latents''
              (Gamma (Scalar (c_u hp)) user_mean)) (\<lambda>user_latents.
     pbind (pyro_plate tr ''items_loop'' (num_items hp)) (\<lambda>_.
     pbind (pyro_sample_plated tr smp [num_items hp] ''item_mean''
              (Gamma (Scalar (a_i hp)) (Scalar (b_i hp)))) (\<lambda>item_mean.
     pbind (pyro_plate tr ''item_latents'' (num_latents hp)) (\<lambda>_.
     pbind (pyro_sample_plated tr smp [num_items hp, num_latents hp] ''item_latents''
              (Gamma (Scalar (c_u hp)) item_mean)) (\<lambda>item_latents.
     pbind (py_iter ratings) (\<lambda>_.
     pbind (pyro_plate tr ''ratings'' (num_nonmissing hp)) (\<lambda>_.
     pbind py_next (\<lambda>(user, item, rating).
     pbind (lift (ebind (select_col user_latents user) (\<lambda>a.
                  ebind (select_col item_latents item) (\<lambda>b. dot a b)))) (\<lambda>lam.
     pbind (pyro_observe tr ''obs_rating'' (Poisson (Scalar lam)) (Scalar rating)) (\<lambda>_.
     ret ())))))))))))))))"

text \<open>The signature \<^verbatim>\<open>_model(self, ratings)\<close> takes one positional argument.\<close>

definition BPF_model_call :: "BPF \<Rightarrow> bool \<Rightarrow> sampler \<Rightarrow> call_args \<Rightarrow> unit pyro" where
  "BPF_model_call slf tr smp args =
     (case args of
        Args1 ratings \<Rightarrow> BPF_model tr smp slf ratings
      | Args2 ratings hp \<Rightarrow> raise TypeError)"

text \<open>\<^verbatim>\<open>BPF._guide\<close>, lines 50 to 65: the body of the loop over users.\<close>

definition BPF_guide_user :: "bool \<Rightarrow> sampler \<Rightarrow> hyperparams \<Rightarrow> nat \<Rightarrow> unit pyro" where
  "BPF_guide_user tr smp hp u =
     pbind (pyro_param (fmt1 ''q_au_'' u) (Scalar (a_u hp))) (\<lambda>q_au.
     pbind (pyro_param (fmt1 ''q_bu_'' u) (Scalar (b_u hp))) (\<lambda>q_bu.
     pbind (pyro_sample tr smp ''user_mean'' (Gamma q_au q_bu)) (\<lambda>user_mean.
     plate_loop tr ''user_latents'' (num_latents hp) (\<lambda>l _.
       pbind (pyro_param (fmt2 ''q_lu1_'' u l) (Scalar (c_u hp))) (\<lambda>q_lu1.
       pbind (pyro_param (fmt2 ''q_lu2_'' u l) (Scalar 1)) (\<lambda>q_lu2.
       pbind (pyro_sample tr smp ''user_latents'' (Gamma q_lu1 q_lu2)) (\<lambda>user_latents.
       ret ())))) ())))"

text \<open>Lines 68 to 83: the body of the loop over items.\<close>

definition BPF_guide_item :: "bool \<Rightarrow> sampler \<Rightarrow> hyperparams \<Rightarrow> nat \<Rightarrow> unit pyro" where
  "BPF_guide_item tr smp hp i =
     pbind (pyro_param (fmt1 ''q_ai_'' i) (Scalar (a_i hp))) (\<lambda>q_ai.
     pbind (pyro_param (fmt1 ''q_bi_'' i) (Scalar (b_i hp))) (\<lambda>q_bi.
     pbind (pyro_sample tr smp ''item_mean'' (Gamma q_ai q_bi)) (\<lambda>item_mean.
     plate_loop tr ''item_latents'' (num_latents hp) (\<lambda>l _.
       pbind (pyro_param (fmt2 ''q_li1_'' i l) (Scalar (c_i hp))) (\<lambda>q_li1.
       pbind (pyro_param (fmt2 ''q_li2_'' i l) (Scalar 1)) (\<lambda>q_li2.
       pbind (pyro_sample tr smp ''item_latents'' (Gamma q_li1 q_li2)) (\<lambda>item_latents.
       ret ())))) ())))"

text \<open>
  \<^verbatim>\<open>BPF._guide(self, ratings, hyperparams=None)\<close>, lines 45 to 83. The guide never
  reads \<^verbatim>\<open>ratings\<close>.
\<close>

definition BPF_guide ::
  "bool \<Rightarrow> sampler \<Rightarrow> BPF \<Rightarrow> rating list \<Rightarrow> hyperparams option \<Rightarrow> unit pyro" where
  "BPF_guide tr smp slf ratings hyperparams_arg =
     pbind (lift (subscriptable
              (if hyperparams_arg = None then bpf_hyperparams slf else hyperparams_arg))) (\<lambda>hp.
     pbind (plate_loop tr ''users_loop'' (num_users hp)
              (\<lambda>u _. BPF_guide_user tr smp hp u) ()) (\<lambda>_.
     plate_loop tr ''items_loop'' (num_items hp) (\<lambda>i _. BPF_guide_item tr smp hp i) ()))"

definition BPF_guide_call :: "BPF \<Rightarrow> bool \<Rightarrow> sampler \<Rightarrow> call_args \<Rightarrow> unit pyro" where
  "BPF_guide_call slf tr smp args =
     (case args of
        Args1 ratings \<Rightarrow> BPF_guide tr smp slf ratings None
      | Args2 ratings hp \<Rightarrow> BPF_guide tr smp slf ratings hp)"

section \<open>MMPF\<close>

text \<open>
  The right-hand side of line 146, evaluated left to right. The four tensor variables
  are those the loops above last assigned; a loop that ran no iteration left its
  variable unbound.
\<close>

definition MMPF_rate ::
  "tensor option \<Rightarrow> tensor option \<Rightarrow> tensor option \<Rightarrow> tensor option \<Rightarrow>
   nat \<Rightarrow> nat \<Rightarrow> tensor \<Rightarrow> tensor \<Rightarrow> pyerror + real" where
  "MMPF_rate user_latents item_latents user_context_latents item_context_latents
       user item z_u z_i =
     ebind (read_local user_latents) (\<lambda>ul.
     ebind (select_col ul user) (\<lambda>a.
     ebind (read_local item_latents) (\<lambda>il.
     ebind (select_col il item) (\<lambda>b.
     ebind (dot a b) (\<lambda>ab.
     ebind (read_local user_context_latents) (\<lambda>ucl.
     ebind (tensor_index z_u) (\<lambda>zu.
     ebind (select_col ucl zu) (\<lambda>c.
     ebind (read_local item_context_latents) (\<lambda>icl.
     ebind (tensor_index z_i) (\<lambda>zi.
     ebind (select_col icl zi) (\<lambda>d.
     ebind (dot c d) (\<lambda>cd.
     Inr (ab + cd)))))))))))))"

text \<open>Lines 143 to 148: the body of the loop over ratings.\<close>

definition MMPF_model_rating ::
  "bool \<Rightarrow> sampler \<Rightarrow> tensor \<Rightarrow> tensor \<Rightarrow> tensor option \<Rightarrow> tensor option \<Rightarrow>
   tensor option \<Rightarrow> tensor option \<Rightarrow> unit pyro" where
  "MMPF_model_rating tr smp user_context_prob item_context_prob
       user_latents item_latents user_context_latents item_context_latents =
     pbind py_next (\<lambda>(user, item, rating).
     pbind (pyro_sample tr smp (fmt2 ''user_context_'' user item)
              (Categorical user_context_prob)) (\<lambda>z_u.
     pbind (pyro_sample tr smp (fmt2 ''item_context_'' user item)
              (Categorical item_context_prob)) (\<lambda>z_i.
     pbind (lift (MMPF_rate user_latents item_latents
                    user_context_latents item_context_latents user item z_u z_i)) (\<lambda>lam.
     pbind (pyro_observe tr (fmt2 ''obs_rating_'' user item) (Poisson (Scalar lam))
              (Scalar rating)) (\<lambda>_.
     ret ())))))"

text \<open>
  A doubly nested sequential plate whose innermost statement assigns one variable
  (lines 119 to 127): the variable holds the last draw, or what it held before. The
  outer plate is named \<open>outer\<close>; the inner plate of context \<open>c\<close> is named by \<open>prefix\<close> and
  \<open>c\<close>, and its sites by \<open>prefix\<close>, \<open>c\<close> and the index of the latent.
\<close>

definition context_latents_loop ::
  "bool \<Rightarrow> sampler \<Rightarrow> string \<Rightarrow> string \<Rightarrow> hyperparams \<Rightarrow> tensor option pyro" where
  "context_latents_loop tr smp outer prefix hp =
     plate_loop tr outer (num_contexts hp) (\<lambda>c.
       plate_loop tr (fmt1 prefix c) (num_context_latents hp) (\<lambda>v _.
         pbind (pyro_sample tr smp (fmt2 prefix c v)
                  (Gamma (Scalar (a_c hp)) (Scalar (b_c hp)))) (\<lambda>x.
         ret (Some x)))) None"

text \<open>Lines 129 to 133 and 135 to 139.\<close>

definition MMPF_model_users :: "bool \<Rightarrow> sampler \<Rightarrow> hyperparams \<Rightarrow> tensor option pyro" where
  "MMPF_model_users tr smp hp =
     plate_loop tr ''users_loop'' (num_users hp) (\<lambda>u user_latents.
       pbind (pyro_sample tr smp (fmt1 ''user_mean_'' u)
                (Gamma (Scalar (a_u hp)) (Scalar (b_u hp)))) (\<lambda>user_mean.
       plate_loop tr (fmt1 ''user_latents_loop_'' u) (num_latents hp) (\<lambda>k _.
         pbind (pyro_sample tr smp (fmt2 ''user_latents_'' u k)
                  (Gamma (Scalar (c_u hp)) user_mean)) (\<lambda>x.
         ret (Some x))) user_latents)) None"

definition MMPF_model_items :: "bool \<Rightarrow> sampler \<Rightarrow> hyperparams \<Rightarrow> tensor option pyro" where
  "MMPF_model_items tr smp hp =
     plate_loop tr ''items_loop'' (num_items hp) (\<lambda>i item_latents.
       pbind (pyro_sample tr smp (fmt1 ''item_mean_'' i)
                (Gamma (Scalar (a_i hp)) (Scalar (b_i hp)))) (\<lambda>item_mean.
       plate_loop tr (fmt1 ''item_latents_loop_'' i) (num_latents hp) (\<lambda>k _.
         pbind (pyro_sample tr smp (fmt2 ''item_latents_'' i k)
                  (Gamma (Scalar (c_i hp)) item_mean)) (\<lambda>x.
         ret (Some x))) item_latents)) None"

text \<open>\<^verbatim>\<open>MMPF._model(self, ratings)\<close>, lines 109 to 148.\<close>

definition MMPF_model :: "bool \<Rightarrow> sampler \<Rightarrow> MMPF \<Rightarrow> rating list \<Rightarrow> unit pyro" where
  "MMPF_model tr smp slf ratings =
     pbind (lift (subscriptable (mmpf_hyperparams slf))) (\<lambda>hp.
     pbind (pyro_sample tr smp ''user_context_prob''
              (Dirichlet (scale (context_conc hp) (ones (num_contexts hp))))) (\<lambda>user_context_prob.
     pbind (pyro_sample tr smp ''item_context_prob''
              (Dirichlet (scale (context_conc hp) (ones (num_contexts hp))))) (\<lambda>item_context_prob.
     pbind (context_latents_loop tr smp ''user_contexts'' ''user_context_latents_'' hp)
       (\<lambda>user_context_latents.
     pbind (context_latents_loop tr smp ''item_contexts'' ''item_context_latents_'' hp)
       (\<lambda>item_context_latents.
     pbind (MMPF_model_users tr smp hp) (\<lambda>user_latents.
     pbind (MMPF_model_items tr smp hp) (\<lambda>item_latents.
     pbind (py_iter ratings) (\<lambda>_.
     plate_loop tr ''ratings'' (num_nonmissing hp) (\<lambda>j _.
       MMPF_model_rating tr smp user_context_prob item_context_prob
         user_latents item_latents user_context_latents item_context_latents) ()))))))))"

definition MMPF_model_call :: "MMPF \<Rightarrow> bool \<Rightarrow> sampler \<Rightarrow> call_args \<Rightarrow> unit pyro" where
  "MMPF_model_call slf tr smp args =
     (case args of
        Args1 ratings \<Rightarrow> MMPF_model tr smp slf ratings
      | Args2 ratings hp \<Rightarrow> raise TypeError)"

text \<open>
  Lines 158 to 173 of the guide, for the names of the user and of the item side: the
  outer plate, the prefix of the inner plates, the prefixes of the two parameters and
  the prefix of the sites.
\<close>

definition MMPF_guide_contexts ::
  "bool \<Rightarrow> sampler \<Rightarrow> string \<Rightarrow> string \<Rightarrow> string \<Rightarrow> string \<Rightarrow> string \<Rightarrow> hyperparams \<Rightarrow>
   unit pyro" where
  "MMPF_guide_contexts tr smp outer inner q_a q_b site hp =
     plate_loop tr outer (num_contexts hp) (\<lambda>c.
       plate_loop tr (fmt1 inner c) (num_context_latents hp) (\<lambda>v _.
         pbind (pyro_param (fmt2 q_a c v) (Scalar (a_c hp))) (\<lambda>q_acv.
         pbind (pyro_param (fmt2 q_b c v) (Scalar (b_c hp))) (\<lambda>q_bcv.
         pbind (pyro_sample tr smp (fmt2 site c v) (Gamma q_acv q_bcv)) (\<lambda>x.
         ret ()))))) ()"

text \<open>Lines 176 to 191.\<close>

definition MMPF_guide_user :: "bool \<Rightarrow> sampler \<Rightarrow> hyperparams \<Rightarrow> nat \<Rightarrow> unit pyro" where
  "MMPF_guide_user tr smp hp u =
     pbind (pyro_param (fmt1 ''q_au_'' u) (Scalar (a_u hp))) (\<lambda>q_au.
     pbind (pyro_param (fmt1 ''q_bu_'' u) (Scalar (b_u hp))) (\<lambda>q_bu.
     pbind (pyro_sample tr smp (fmt1 ''user_mean_'' u) (Gamma q_au q_bu)) (\<lambda>user_mean.
     plate_loop tr (fmt1 ''user_latents_loop_'' u) (num_latents hp) (\<lambda>l _.
       pbind (pyro_param (fmt2 ''q_lu1_'' u l) (Scalar (c_u hp))) (\<lambda>q_lu1.
       pbind (pyro_param (fmt2 ''q_lu2_'' u l) (Scalar 1)) (\<lambda>q_lu2.
       pbind (pyro_sample tr smp (fmt2 ''user_latents_'' u l) (Gamma q_lu1 q_lu2)) (\<lambda>x.
       ret ())))) ())))"

text \<open>Lines 194 to 209.\<close>

definition MMPF_guide_item :: "bool \<Rightarrow> sampler \<Rightarrow> hyperparams \<Rightarrow> nat \<Rightarrow> unit pyro" where
  "MMPF_guide_item tr smp hp i =
     pbind (pyro_param (fmt1 ''q_ai_'' i) (Scalar (a_i hp))) (\<lambda>q_ai.
     pbind (pyro_param (fmt1 ''q_bi_'' i) (Scalar (b_i hp))) (\<lambda>q_bi.
     pbind (pyro_sample tr smp (fmt1 ''item_mean_'' i) (Gamma q_ai q_bi)) (\<lambda>item_mean.
     plate_loop tr (fmt1 ''item_latents_loop_'' i) (num_latents hp) (\<lambda>l _.
       pbind (pyro_param (fmt2 ''q_li1_'' i l) (Scalar (c_u hp))) (\<lambda>q_li1.
       pbind (pyro_param (fmt2 ''q_li2_'' i l) (Scalar 1)) (\<lambda>q_li2.
       pbind (pyro_sample tr smp (fmt2 ''item_latents_'' i l) (Gamma q_li1 q_li2)) (\<lambda>x.
       ret ())))) ())))"

text \<open>Lines 213 to 219: the body of the guide's loop over ratings.\<close>

definition MMPF_guide_rating :: "bool \<Rightarrow> sampler \<Rightarrow> hyperparams \<Rightarrow> unit pyro" where
  "MMPF_guide_rating tr smp hp =
     pbind py_next (\<lambda>(u, i, r).
     pbind (pyro_param (fmt2 ''q_zu_'' u i) (ones (num_contexts hp))) (\<lambda>q_zu.
     pbind (pyro_param (fmt2 ''q_zi_'' u i) (ones (num_contexts hp))) (\<lambda>q_zi.
     pbind (pyro_sample tr smp (fmt2 ''user_context_'' u i) (Categorical q_zu)) (\<lambda>z_u.
     pbind (pyro_sample tr smp (fmt2 ''item_context_'' u i) (Categorical q_zi)) (\<lambda>z_i.
     ret ())))))"

text \<open>
  Lines 151 to 209: everything the guide does before it opens the iterator over the
  ratings.
\<close>

definition MMPF_guide_latents :: "bool \<Rightarrow> sampler \<Rightarrow> hyperparams \<Rightarrow> unit pyro" where
  "MMPF_guide_latents tr smp hp =
     pbind (pyro_param ''q_user_context_conc'' (ones (num_context_latents hp))) (\<lambda>q_user_context_conc.
     pbind (pyro_param ''q_item_context_conc'' (ones (num_context_latents hp))) (\<lambda>q_item_context_conc.
     pbind (pyro_sample tr smp ''user_context_prob'' (Dirichlet q_user_context_conc)) (\<lambda>user_context_prob.
     pbind (pyro_sample tr smp ''item_context_prob'' (Dirichlet q_item_context_conc)) (\<lambda>item_context_prob.
     pbind (MMPF_guide_contexts tr smp ''user_contexts_loop'' ''user_context_latents_loop_''
              ''q_aucv_'' ''q_bucv_'' ''user_context_latents_'' hp) (\<lambda>_.
     pbind (MMPF_guide_contexts tr smp ''item_contexts_loop'' ''item_context_latents_loop_''
              ''q_aicv_'' ''q_bicv_'' ''item_context_latents_'' hp) (\<lambda>_.
     pbind (plate_loop tr ''users_loop'' (num_users hp)
              (\<lambda>u _. MMPF_guide_user tr smp hp u) ()) (\<lambda>_.
     plate_loop tr ''items_loop'' (num_items hp) (\<lambda>i _. MMPF_guide_item tr smp hp i) ())))))))"

text \<open>\<^verbatim>\<open>MMPF._guide(self, ratings, hyperparams=None)\<close>, lines 150 to 219.\<close>

definition MMPF_guide :: "bool \<Rightarrow> sampler \<Rightarrow> MMPF \<Rightarrow> rating list \<Rightarrow> unit pyro" where
  "MMPF_guide tr smp slf ratings =
     pbind (lift (subscriptable (mmpf_hyperparams slf))) (\<lambda>hp.
     pbind (MMPF_guide_latents tr smp hp) (\<lambda>_.
     pbind (py_iter ratings) (\<lambda>_.
     plate_loop tr ''ratings'' (num_nonmissing hp) (\<lambda>j _. MMPF_guide_rating tr smp hp) ())))"

definition MMPF_guide_call :: "MMPF \<Rightarrow> bool \<Rightarrow> sampler \<Rightarrow> call_args \<Rightarrow> unit pyro" where
  "MMPF_guide_call slf tr smp args =
     (case args of
        Args1 ratings \<Rightarrow> MMPF_guide tr smp slf ratings
      | Args2 ratings hp \<Rightarrow> MMPF_guide tr smp slf ratings)"

section \<open>Training\<close>

text \<open>
  What the program takes from the inference library: a source of numbers for the draws
  of each step, the loss the estimator computes from the model's and the guide's trace,
  and the optimizer's update of the parameter store.
\<close>

record substrate =
  rng :: "nat \<Rightarrow> string \<Rightarrow> nat \<Rightarrow> real"
  elbo_loss :: "site list \<Rightarrow> site list \<Rightarrow> real"
  optimizer :: "site list \<Rightarrow> site list \<Rightarrow> (string \<Rightarrow> tensor option) \<Rightarrow> (string \<Rightarrow> tensor option)"

text \<open>
  An exception on its way out of the library's generator: \<^verbatim>\<open>StopIteration\<close> is turned
  into \<^verbatim>\<open>RuntimeError\<close>, every other exception passes.
\<close>

definition leaving_generator :: "pyerror \<Rightarrow> pyerror" where
  "leaving_generator e = (if e = StopIteration then RuntimeError else e)"

text \<open>
  One call of \<^verbatim>\<open>svi.step(*args)\<close>: the guide runs on the arguments and is traced, the
  model runs on the same arguments, traced as well, with the guide's values replayed,
  and the loss of the two traces is returned after the optimizer has updated the store.
  An exception of the guide or of the model leaves the step through the generator.
\<close>

definition svi_step ::
  "substrate \<Rightarrow> nat \<Rightarrow> (bool \<Rightarrow> sampler \<Rightarrow> call_args \<Rightarrow> unit pyro) \<Rightarrow>
   (bool \<Rightarrow> sampler \<Rightarrow> call_args \<Rightarrow> unit pyro) \<Rightarrow> call_args \<Rightarrow> real pyro" where
  "svi_step sub s model guide args w =
     (case guide True (draw (rng sub s)) args (w\<lparr>trace := []\<rparr>) of
        (Inl e, w1) \<Rightarrow> (Inl (leaving_generator e), w1)
      | (Inr _, w1) \<Rightarrow>
          (case model True (replay (trace w1) (draw (rng sub s))) args (w1\<lparr>trace := []\<rparr>) of
             (Inl e, w2) \<Rightarrow> (Inl (leaving_generator e), w2)
           | (Inr _, w2) \<Rightarrow>
               (Inr (elbo_loss sub (trace w2) (trace w1)),
                w2\<lparr>store := optimizer sub (trace w2) (trace w1) (store w2)\<rparr>)))"

text \<open>
  The loop of \<^verbatim>\<open>fit\<close> (lines 96 to 101 and 224 to 229):
  \<^verbatim>\<open>for s in tqdm(range(num_steps)): loss = svi.step(...); losses.append(loss)\<close>.
  The function has no exception handler.
\<close>

fun training_loop :: "(nat \<Rightarrow> real pyro) \<Rightarrow> nat list \<Rightarrow> real list \<Rightarrow> real list pyro" where
  "training_loop step [] losses w = (Inr losses, w)"
| "training_loop step (s # rest) losses w =
     (case step s w of
        (Inl e, w') \<Rightarrow> (Inl e, w')
      | (Inr loss, w') \<Rightarrow> training_loop step rest (losses @ [loss]) w')"

text \<open>\<^verbatim>\<open>MMPF.fit(self, ratings, num_steps)\<close>, lines 221 to 229.\<close>

definition MMPF_fit :: "substrate \<Rightarrow> MMPF \<Rightarrow> rating list \<Rightarrow> nat \<Rightarrow> real list pyro" where
  "MMPF_fit sub slf ratings num_steps =
     training_loop
       (\<lambda>s. svi_step sub s (MMPF_model_call slf) (MMPF_guide_call slf) (Args1 ratings))
       [0..<num_steps] []"

text \<open>
  Lines 86 to 92 of \<^verbatim>\<open>BPF.fit(self, ratings, hyperparams, num_steps)\<close>: the object
  after them, and the value of the local \<^verbatim>\<open>hyperparams\<close> that training then uses.
\<close>

definition BPF_fit_prologue ::
  "BPF \<Rightarrow> hyperparams option \<Rightarrow> pyerror + (BPF \<times> hyperparams option)" where
  "BPF_fit_prologue slf hyperparams_arg =
     (if hyperparams_arg = None then
        (if bpf_hyperparams slf = None then Inl ValueError
         else Inr (slf\<lparr>bpf_hyperparams := hyperparams_arg\<rparr>, hyperparams_arg))
      else Inr (slf, bpf_hyperparams slf))"

text \<open>\<^verbatim>\<open>BPF.fit\<close>, lines 85 to 101; the result comes with the object as \<^verbatim>\<open>fit\<close> left it.\<close>

definition BPF_fit ::
  "substrate \<Rightarrow> BPF \<Rightarrow> rating list \<Rightarrow> hyperparams option \<Rightarrow> nat \<Rightarrow> world \<Rightarrow>
   ((pyerror + real list) \<times> world) \<times> BPF" where
  "BPF_fit sub slf ratings hyperparams_arg num_steps w =
     (case BPF_fit_prologue slf hyperparams_arg of
        Inl e \<Rightarrow> ((Inl e, w), slf)
      | Inr (slf', hp) \<Rightarrow>
          (training_loop
             (\<lambda>s. svi_step sub s (BPF_model_call slf') (BPF_guide_call slf') (Args2 ratings hp))
             [0..<num_steps] [] w,
           slf'))"

section \<open>Properties of runs\<close>

text \<open>A computation that returns from every state.\<close>

definition succeeds :: "'a pyro \<Rightarrow> bool" where
  "succeeds m = (\<forall>w. \<exists>x w'. m w = (Inr x, w'))"

text \<open>A computation that preserves a property of the state, whether it returns or raises.\<close>

definition preserved :: "(world \<Rightarrow> bool) \<Rightarrow> 'a pyro \<Rightarrow> bool" where
  "preserved P m = (\<forall>w. P w \<longrightarrow> P (snd (m w)))"

text \<open>A computation that leaves the iterator over the ratings alone.\<close>

definition itr_is :: "rating list \<Rightarrow> rating list \<Rightarrow> world \<Rightarrow> bool" where
  "itr_is rest taken_out w = (itr w = rest \<and> consumed w = taken_out)"

definition keeps_itr :: "'a pyro \<Rightarrow> bool" where
  "keeps_itr m = (\<forall>rest taken_out. preserved (itr_is rest taken_out) m)"

text \<open>
  A computation that only adds: a parameter of the store keeps its value, and the trace
  is extended at its end.
\<close>

definition extends :: "(string \<Rightarrow> tensor option) \<Rightarrow> site list \<Rightarrow> world \<Rightarrow> bool" where
  "extends st t w =
     ((\<forall>k v. st k = Some v \<longrightarrow> store w k = Some v) \<and> (\<exists>ys. trace w = t @ ys))"

definition grows :: "'a pyro \<Rightarrow> bool" where
  "grows m = (\<forall>st t. preserved (extends st t) m)"

text \<open>A trace without an observed site.\<close>

definition unobserved :: "world \<Rightarrow> bool" where
  "unobserved w = list_all (\<lambda>s. \<not> is_observed s) (trace w)"

text \<open>
  A computation that returns from every state and declares sites of the given names, in
  this order.
\<close>

definition logs :: "'a pyro \<Rightarrow> string list \<Rightarrow> bool" where
  "logs m g = (\<forall>w. \<exists>x w'. m w = (Inr x, w') \<and> names w' = names w @ g)"

text \<open>
  The traced run of a computation against its plain run: the plain run only extends the
  trace, and when the names of the trace it ends with are pairwise distinct, the traced
  run does the same as the plain one.
\<close>

definition sim :: "'a pyro \<Rightarrow> 'a pyro \<Rightarrow> bool" where
  "sim traced plain =
     (\<forall>w. (\<exists>ys. trace (snd (plain w)) = trace w @ ys) \<and>
          (distinct (names (snd (plain w))) \<longrightarrow> traced w = plain w))"

text \<open>
  The names of the two context sites that the rating loops declare for each triple, in
  the order of the triples, and the (user, item) pairs of the triples.
\<close>

definition rating_site_names :: "rating list \<Rightarrow> string list" where
  "rating_site_names rs =
     concat (map (\<lambda>(u, i, r). [fmt2 ''user_context_'' u i, fmt2 ''item_context_'' u i]) rs)"

definition rating_pairs :: "rating list \<Rightarrow> (nat \<times> nat) list" where
  "rating_pairs rs = map (\<lambda>(u, i, r). (u, i)) rs"

text \<open>
  The names that a doubly nested plate declares: the outer plate, then for each outer
  index the inner plate and its sites (\<open>context_names\<close>); in the loops over users and
  items the site of the mean comes before the inner plate (\<open>entity_names\<close>).
\<close>

definition context_names :: "string \<Rightarrow> string \<Rightarrow> string \<Rightarrow> nat \<Rightarrow> nat \<Rightarrow> string list" where
  "context_names outer inner site n m =
     outer # concat (map (\<lambda>c. fmt1 inner c # map (fmt2 site c) [0..<m]) [0..<n])"

definition entity_names ::
  "string \<Rightarrow> string \<Rightarrow> string \<Rightarrow> string \<Rightarrow> nat \<Rightarrow> nat \<Rightarrow> string list" where
  "entity_names outer mean inner site n m =
     outer # concat (map (\<lambda>u. fmt1 mean u # fmt1 inner u # map (fmt2 site u) [0..<m]) [0..<n])"

text \<open>
  The names that the guide (lines 155 to 209) and the model (lines 116 to 139) of
  \<^verbatim>\<open>MMPF\<close> declare before they open the iterator over the ratings.
\<close>

definition MMPF_guide_latent_names :: "hyperparams \<Rightarrow> string list" where
  "MMPF_guide_latent_names hp =
     ''user_context_prob'' # ''item_context_prob'' #
     context_names ''user_contexts_loop'' ''user_context_latents_loop_'' ''user_context_latents_''
       (num_contexts hp) (num_context_latents hp) @
     context_names ''item_contexts_loop'' ''item_context_latents_loop_'' ''item_context_latents_''
       (num_contexts hp) (num_context_latents hp) @
     entity_names ''users_loop'' ''user_mean_'' ''user_latents_loop_'' ''user_latents_''
       (num_users hp) (num_latents hp) @
     entity_names ''items_loop'' ''item_mean_'' ''item_latents_loop_'' ''item_latents_''
       (num_items hp) (num_latents hp)"

definition MMPF_model_latent_names :: "hyperparams \<Rightarrow> string list" where
  "MMPF_model_latent_names hp =
     ''user_context_prob'' # ''item_context_prob'' #
     context_names ''user_contexts'' ''user_context_latents_'' ''user_context_latents_''
       (num_contexts hp) (num_context_latents hp) @
     context_names ''item_contexts'' ''item_context_latents_'' ''item_context_latents_''
       (num_contexts hp) (num_context_latents hp) @
     entity_names ''users_loop'' ''user_mean_'' ''user_latents_loop_'' ''user_latents_''
       (num_users hp) (num_latents hp) @
     entity_names ''items_loop'' ''item_mean_'' ''item_latents_loop_'' ''item_latents_''
       (num_items hp) (num_latents hp)"

text \<open>
  Decimal digits, the number a decimal text stands for, texts without a digit, and the
  part of a name before its first digit.
\<close>

definition is_digit :: "char \<Rightarrow> bool" where
  "is_digit c = (c \<in> set ''0123456789'')"

definition digit_value :: "char \<Rightarrow> nat" where
  "digit_value c = length (takeWhile (\<lambda>d. d \<noteq> c) ''0123456789'')"

definition decimal :: "string \<Rightarrow> nat" where
  "decimal s = foldl (\<lambda>a c. 10 * a + digit_value c) 0 s"

definition digit_free :: "string \<Rightarrow> bool" where
  "digit_free p = list_all (\<lambda>c. \<not> is_digit c) p"

definition skeleton :: "string \<Rightarrow> string" where
  "skeleton nm = takeWhile (\<lambda>c. \<not> is_digit c) nm"

text \<open>Names whose parts before the first digit all lie in a given set.\<close>

definition family :: "string list \<Rightarrow> string set \<Rightarrow> bool" where
  "family xs A = list_all (\<lambda>x. skeleton x \<in> A) xs"

text \<open>
  A sampler that gives a tensor of rank 0 when a draw of rank 0 is asked for at the site
  of a user's mean or of a user's latent, and a variable that is unbound or holds a
  tensor of rank 0.
\<close>

definition scalar_latents :: "sampler \<Rightarrow> bool" where
  "scalar_latents smp =
     ((\<forall>u. \<exists>x. smp (fmt1 ''user_mean_'' u) Dim0 = Scalar x) \<and>
      (\<forall>u k. \<exists>x. smp (fmt2 ''user_latents_'' u k) Dim0 = Scalar x))"

definition unbound_or_scalar :: "tensor option \<Rightarrow> bool" where
  "unbound_or_scalar v = (case v of None \<Rightarrow> True | Some t \<Rightarrow> shape_of t = Dim0)"

text \<open>
  The sites of the means and latents of the users, the parameters that the guides
  create from scalar hyperparameters, and a state in which all of these hold tensors of
  rank 0.
\<close>

definition latent_site :: "string \<Rightarrow> bool" where
  "latent_site nm = (skeleton nm = ''user_mean_'' \<or> skeleton nm = ''user_latents_'')"

definition scalar_param :: "string \<Rightarrow> bool" where
  "scalar_param k = (take 3 k = ''q_a'' \<or> take 3 k = ''q_b'' \<or> take 3 k = ''q_l'')"

definition scalar_state :: "world \<Rightarrow> bool" where
  "scalar_state w =
     ((\<forall>k t. store w k = Some t \<and> scalar_param k \<longrightarrow> shape_of t = Dim0) \<and>
      (\<forall>s. s \<in> set (trace w) \<and> latent_site (site_name s) \<longrightarrow> shape_of (site_value s) = Dim0))"


text \<open>
  A computation after which the store holds a parameter of the given name, whatever the
  state it starts from; a store without a parameter of the given name; and a store in
  which every parameter whose name starts with \<^verbatim>\<open>q_li1_\<close> holds the given scalar.
\<close>

definition creates :: "string \<Rightarrow> 'a pyro \<Rightarrow> bool" where
  "creates k m = (\<forall>w. store (snd (m w)) k \<noteq> None)"

definition lacks :: "string \<Rightarrow> world \<Rightarrow> bool" where
  "lacks k w = (store w k = None)"

definition item_shapes :: "real \<Rightarrow> world \<Rightarrow> bool" where
  "item_shapes c w = (\<forall>k t. store w k = Some t \<and> take 6 k = ''q_li1_'' \<longrightarrow> t = Scalar c)"


section \<open>Example inputs\<close>

text \<open>
  A small instance with pairwise distinct (user, item) pairs and with
  \<^verbatim>\<open>c_u\<close> different from \<^verbatim>\<open>c_i\<close>, an empty parameter store, and a library whose loss
  is constant.
\<close>

definition example_hyperparams :: hyperparams where
  "example_hyperparams =
     \<lparr>a_u = 1, b_u = 1, a_i = 1, b_i = 1, a_c = 1, b_c = 1, c_u = 2, c_i = 3,
      context_conc = 5, num_users = 1, num_items = 2, num_nonmissing = 2, num_latents = 1,
      num_contexts = 1, num_context_latents = 2\<rparr>"

definition example_ratings :: "rating list" where
  "example_ratings = [(0, 0, 1), (0, 1, 2)]"

definition fresh_world :: world where
  "fresh_world = \<lparr>store = Map.empty, trace = [], itr = [], consumed = []\<rparr>"

definition example_substrate :: substrate where
  "example_substrate =
     \<lparr>rng = (\<lambda>s nm k. 1), elbo_loss = (\<lambda>m g. 0), optimizer = (\<lambda>m g st. st)\<rparr>"

definition example_bpf :: BPF where
  "example_bpf = \<lparr>bpf_hyperparams = Some example_hyperparams\<rparr>"

definition example_mmpf :: MMPF where
  "example_mmpf = \<lparr>mmpf_hyperparams = Some example_hyperparams\<rparr>"

definition example_sampler :: sampler where
  "example_sampler = draw (\<lambda>nm k. 1)"

section \<open>Sequencing and loops preserve the properties\<close>

lemma pbind_Inr: "m w = (Inr v, w1) \<Longrightarrow> pbind m f w = f v w1"
  by (simp add: pbind_def)

lemma pbind_Inl: "m w = (Inl e, w1) \<Longrightarrow> pbind m f w = (Inl e, w1)"
  by (simp add: pbind_def)

lemma pbind_lift_Inr: "pbind (lift (Inr x)) f w = f x w"
  by (simp add: pbind_def lift_def)

lemma pbind_pyro_param:
  "pbind (pyro_param nm init) f w =
     (case store w nm of
        Some v \<Rightarrow> f v w
      | None \<Rightarrow> f init (w\<lparr>store := (store w)(nm \<mapsto> init)\<rparr>))"
  by (simp add: pbind_def pyro_param_def split: option.splits)

lemma pbind_pyro_sample:
  "\<not> taken tr nm w \<Longrightarrow>
   pbind (pyro_sample tr smp nm d) f w =
     f (smp nm (sample_shape d))
       (w\<lparr>trace := trace w @ [Site nm d (smp nm (sample_shape d)) False]\<rparr>)"
  by (simp add: pbind_def pyro_sample_def Let_def)

lemma not_taken_plain [simp]: "\<not> taken False nm w"
  by (simp add: taken_def)

lemma taken_fresh [simp]: "trace w = [] \<Longrightarrow> \<not> taken tr nm w"
  by (simp add: taken_def names_def)

lemma preserved_step: "preserved P m \<Longrightarrow> P w \<Longrightarrow> m w = (r, w') \<Longrightarrow> P w'"
  unfolding preserved_def by (metis snd_conv)

lemma preserved_ret: "preserved P (ret x)"
  by (simp add: preserved_def ret_def)

lemma preserved_raise: "preserved P (raise e)"
  by (simp add: preserved_def raise_def)

lemma preserved_lift: "preserved P (lift r)"
  by (simp add: preserved_def lift_def)

lemma preserved_pbind:
  assumes "preserved P m" and "\<And>x. preserved P (f x)"
  shows "preserved P (pbind m f)"
proof -
  have "P (snd (pbind m f w))" if w: "P w" for w
  proof (cases "m w")
    case (Pair r w1)
    from preserved_step [OF assms(1) w Pair] have w1: "P w1" .
    show ?thesis
    proof (cases r)
      case (Inl e)
      with Pair w1 show ?thesis by (simp add: pbind_def)
    next
      case (Inr x)
      with Pair w1 assms(2) [of x] show ?thesis by (simp add: pbind_def preserved_def)
    qed
  qed
  then show ?thesis by (simp add: preserved_def)
qed

lemma preserved_for_each:
  assumes "\<And>i acc. preserved P (body i acc)"
  shows "preserved P (for_each js body acc)"
proof -
  have "P (snd (for_each js body acc w))" if "P w" for w
    using that
  proof (induction js arbitrary: acc w)
    case Nil
    then show ?case by simp
  next
    case (Cons j js)
    show ?case
    proof (cases "body j acc w")
      case (Pair r w1)
      from preserved_step [OF assms Cons.prems Pair] have w1: "P w1" .
      show ?thesis
      proof (cases r)
        case (Inl e)
        with Pair w1 show ?thesis by simp
      next
        case (Inr a)
        with Pair Cons.IH [OF w1, of a] show ?thesis by simp
      qed
    qed
  qed
  then show ?thesis by (simp add: preserved_def)
qed

lemma preserved_case_rating:
  "(\<And>u i r. preserved P (f u i r)) \<Longrightarrow> preserved P (case x of (u, i, r) \<Rightarrow> f u i r)"
  by (simp split: prod.splits)

lemma preserved_case_args:
  "(\<And>rs. preserved P (f rs)) \<Longrightarrow> (\<And>rs h. preserved P (g rs h)) \<Longrightarrow>
   preserved P (case x of Args1 rs \<Rightarrow> f rs | Args2 rs h \<Rightarrow> g rs h)"
  by (simp split: call_args.splits)

lemmas preserved_intros = preserved_ret preserved_raise preserved_lift preserved_pbind
  preserved_for_each preserved_case_rating preserved_case_args

text \<open>The iterator.\<close>

lemma itr_is_pyro_param: "preserved (itr_is a b) (pyro_param nm init)"
  by (simp add: preserved_def itr_is_def pyro_param_def split: option.splits)

lemma itr_is_pyro_sample: "preserved (itr_is a b) (pyro_sample tr smp nm d)"
  by (simp add: preserved_def itr_is_def pyro_sample_def Let_def)

lemma itr_is_pyro_sample_plated: "preserved (itr_is a b) (pyro_sample_plated tr smp ps nm d)"
  by (simp add: preserved_def itr_is_def pyro_sample_plated_def Let_def)

lemma itr_is_pyro_observe: "preserved (itr_is a b) (pyro_observe tr nm d v)"
  by (simp add: preserved_def itr_is_def pyro_observe_def)

lemma itr_is_pyro_plate: "preserved (itr_is a b) (pyro_plate tr nm n)"
  by (simp add: preserved_def itr_is_def pyro_plate_def Let_def)

lemmas itr_intros = preserved_intros itr_is_pyro_param itr_is_pyro_sample
  itr_is_pyro_sample_plated itr_is_pyro_observe itr_is_pyro_plate

lemma keeps_itr_step:
  assumes "keeps_itr m" and "m w = (r, w')"
  shows "itr w' = itr w \<and> consumed w' = consumed w"
proof -
  from assms(1) have "preserved (itr_is (itr w) (consumed w)) m"
    unfolding keeps_itr_def by blast
  from preserved_step [OF this _ assms(2)] show ?thesis by (simp add: itr_is_def)
qed

text \<open>The store and the trace.\<close>

lemma extends_pyro_param: "preserved (extends st t) (pyro_param nm init)"
  by (auto simp add: preserved_def extends_def pyro_param_def split: option.splits)

lemma extends_pyro_sample: "preserved (extends st t) (pyro_sample tr smp nm d)"
  by (auto simp add: preserved_def extends_def pyro_sample_def Let_def)

lemma extends_pyro_sample_plated:
  "preserved (extends st t) (pyro_sample_plated tr smp ps nm d)"
  by (auto simp add: preserved_def extends_def pyro_sample_plated_def Let_def)

lemma extends_pyro_observe: "preserved (extends st t) (pyro_observe tr nm d v)"
  by (auto simp add: preserved_def extends_def pyro_observe_def)

lemma extends_pyro_plate: "preserved (extends st t) (pyro_plate tr nm n)"
  by (auto simp add: preserved_def extends_def pyro_plate_def Let_def)

lemma extends_py_iter: "preserved (extends st t) (py_iter rs)"
  by (simp add: preserved_def extends_def py_iter_def)

lemma extends_py_next: "preserved (extends st t) py_next"
  by (simp add: preserved_def extends_def py_next_def split: list.splits)

lemmas grows_intros = preserved_intros extends_pyro_param extends_pyro_sample
  extends_pyro_sample_plated extends_pyro_observe extends_pyro_plate extends_py_iter
  extends_py_next

lemma grows_step:
  assumes "grows m" and "m w = (r, w')"
  shows "(\<forall>k v. store w k = Some v \<longrightarrow> store w' k = Some v) \<and> (\<exists>ys. trace w' = trace w @ ys)"
proof -
  from assms(1) have "preserved (extends (store w) (trace w)) m"
    unfolding grows_def by blast
  moreover have "extends (store w) (trace w) w" by (simp add: extends_def)
  ultimately have "extends (store w) (trace w) w'" using assms(2) by (rule preserved_step)
  then show ?thesis by (simp add: extends_def)
qed

lemma grows_pbind: "grows m \<Longrightarrow> (\<And>x. grows (f x)) \<Longrightarrow> grows (pbind m f)"
  unfolding grows_def by (intro allI preserved_pbind) blast+

text \<open>Traces without an observed site.\<close>

lemma unobserved_pyro_param: "preserved unobserved (pyro_param nm init)"
  by (simp add: preserved_def unobserved_def pyro_param_def split: option.splits)

lemma unobserved_pyro_sample: "preserved unobserved (pyro_sample tr smp nm d)"
  by (simp add: preserved_def unobserved_def pyro_sample_def Let_def)

lemma unobserved_pyro_plate: "preserved unobserved (pyro_plate tr nm n)"
  by (simp add: preserved_def unobserved_def pyro_plate_def Let_def)

lemma unobserved_py_iter: "preserved unobserved (py_iter rs)"
  by (simp add: preserved_def unobserved_def py_iter_def)

lemma unobserved_py_next: "preserved unobserved py_next"
  by (simp add: preserved_def unobserved_def py_next_def split: list.splits)

lemmas unobserved_intros = preserved_intros unobserved_pyro_param unobserved_pyro_sample
  unobserved_pyro_plate unobserved_py_iter unobserved_py_next

text \<open>Computations that return.\<close>

lemma succeeds_ret: "succeeds (ret x)"
  by (simp add: succeeds_def ret_def)

lemma succeeds_pbind:
  assumes "succeeds m" and "\<And>x. succeeds (f x)"
  shows "succeeds (pbind m f)"
proof -
  have "\<exists>y w''. pbind m f w = (Inr y, w'')" for w
  proof -
    from assms(1) obtain x w' where m: "m w = (Inr x, w')"
      unfolding succeeds_def by blast
    from assms(2) obtain y w'' where "f x w' = (Inr y, w'')"
      unfolding succeeds_def by blast
    with m show ?thesis by (simp add: pbind_def)
  qed
  then show ?thesis by (simp add: succeeds_def)
qed

lemma succeeds_for_each:
  assumes "\<And>i acc. succeeds (body i acc)"
  shows "succeeds (for_each js body acc)"
proof -
  have "\<exists>x w'. for_each js body acc w = (Inr x, w')" for w
  proof (induction js arbitrary: acc w)
    case Nil
    show ?case by simp
  next
    case (Cons j js)
    from assms obtain a w1 where "body j acc w = (Inr a, w1)"
      unfolding succeeds_def by blast
    with Cons.IH [of a w1] show ?case by simp
  qed
  then show ?thesis by (simp add: succeeds_def)
qed

lemma succeeds_pyro_param: "succeeds (pyro_param nm init)"
  by (simp add: succeeds_def pyro_param_def split: option.splits)

lemma succeeds_pyro_sample: "succeeds (pyro_sample False smp nm d)"
  by (simp add: succeeds_def pyro_sample_def Let_def)

lemma succeeds_pyro_plate: "0 < n \<Longrightarrow> succeeds (pyro_plate False nm n)"
  by (simp add: succeeds_def pyro_plate_def Let_def)

lemmas succeeds_intros = succeeds_ret succeeds_pbind succeeds_for_each succeeds_pyro_param
  succeeds_pyro_sample succeeds_pyro_plate

text \<open>The names a plain run declares.\<close>

lemma logs_succeeds: "logs m g \<Longrightarrow> succeeds m"
  unfolding logs_def succeeds_def by blast

lemma logs_ret: "logs (ret x) []"
  by (simp add: logs_def ret_def)

lemma logs_pbind:
  assumes "logs m g" and "\<And>x. logs (f x) h"
  shows "logs (pbind m f) (g @ h)"
proof -
  have "\<exists>y w''. pbind m f w = (Inr y, w'') \<and> names w'' = names w @ g @ h" for w
  proof -
    from assms(1) obtain x w' where m: "m w = (Inr x, w')" "names w' = names w @ g"
      unfolding logs_def by blast
    from assms(2) obtain y w'' where "f x w' = (Inr y, w'')" "names w'' = names w' @ h"
      unfolding logs_def by blast
    with m show ?thesis by (simp add: pbind_def)
  qed
  then show ?thesis by (simp add: logs_def)
qed

lemma logs_pyro_param: "logs (pyro_param k init) []"
  by (simp add: logs_def pyro_param_def names_def split: option.splits)

lemma logs_pyro_sample: "logs (pyro_sample False smp nm d) [nm]"
  by (simp add: logs_def pyro_sample_def names_def Let_def)

lemma logs_param_bind:
  assumes "\<And>x. logs (f x) g"
  shows "logs (pbind (pyro_param k init) f) g"
  using logs_pbind [OF logs_pyro_param assms] by simp

lemma logs_sample_bind:
  assumes "\<And>x. logs (f x) g"
  shows "logs (pbind (pyro_sample False smp nm d) f) (nm # g)"
  using logs_pbind [OF logs_pyro_sample assms] by simp

lemma logs_for_each:
  assumes "\<And>j acc. logs (body j acc) (g j)"
  shows "logs (for_each js body acc) (concat (map g js))"
proof -
  have "\<exists>x w'. for_each js body acc w = (Inr x, w') \<and>
          names w' = names w @ concat (map g js)" for w
  proof (induction js arbitrary: acc w)
    case Nil
    show ?case by simp
  next
    case (Cons j js)
    from assms [of j acc] obtain a w1 where b: "body j acc w = (Inr a, w1)"
      "names w1 = names w @ g j"
      unfolding logs_def by blast
    from Cons.IH [of a w1] obtain x w' where "for_each js body a w1 = (Inr x, w')"
      "names w' = names w1 @ concat (map g js)"
      by blast
    with b show ?case by simp
  qed
  then show ?thesis by (simp add: logs_def)
qed

lemma logs_plate_loop:
  assumes "0 < n" and "\<And>j acc. logs (body j acc) (g j)"
  shows "logs (plate_loop False nm n body acc) (nm # concat (map g [0..<n]))"
proof -
  have "\<exists>x w'. plate_loop False nm n body acc w = (Inr x, w') \<and>
          names w' = names w @ nm # concat (map g [0..<n])" for w
  proof -
    let ?w1 = "w\<lparr>trace := trace w @ [Site nm (Subsample n) (Vector (map real [0..<n])) False]\<rparr>"
    from assms(1) have p: "plate_loop False nm n body acc w = for_each [0..<n] body acc ?w1"
      by (simp add: plate_loop_def pbind_def pyro_plate_def Let_def)
    from logs_for_each [of body g "[0..<n]" acc, OF assms(2)]
    obtain x w' where "for_each [0..<n] body acc ?w1 = (Inr x, w')"
      "names w' = names ?w1 @ concat (map g [0..<n])"
      unfolding logs_def by blast
    with p show ?thesis by (simp add: names_def)
  qed
  then show ?thesis by (simp add: logs_def)
qed

lemmas logs_intros = logs_ret logs_param_bind logs_sample_bind logs_plate_loop logs_pbind

lemma logs_run:
  assumes "logs m g" and "keeps_itr m" and "preserved unobserved m"
  shows "\<exists>x w1. m w = (Inr x, w1) \<and> names w1 = names w @ g \<and> consumed w1 = consumed w \<and>
           itr w1 = itr w \<and> (unobserved w \<longrightarrow> unobserved w1) \<and> pbind m f w = f x w1"
proof -
  from assms(1) obtain x w1 where r: "m w = (Inr x, w1)" "names w1 = names w @ g"
    unfolding logs_def by blast
  from preserved_step [OF assms(3) _ r(1)] have "unobserved w \<longrightarrow> unobserved w1" by blast
  with keeps_itr_step [OF assms(2) r(1)] r show ?thesis by (simp add: pbind_def)
qed

text \<open>The traced run against the plain run.\<close>

lemma sim_step:
  assumes "sim traced plain" and "plain w = (r, w')" and "distinct (names w')"
  shows "traced w = (r, w')"
  using assms unfolding sim_def by (metis snd_conv)

lemma sim_ret: "sim (ret x) (ret x)"
  by (simp add: sim_def ret_def)

lemma sim_raise: "sim (raise e) (raise e)"
  by (simp add: sim_def raise_def)

lemma sim_lift: "sim (lift r) (lift r)"
  by (simp add: sim_def lift_def)

lemma sim_pyro_param: "sim (pyro_param k init) (pyro_param k init)"
  by (simp add: sim_def pyro_param_def split: option.splits)

lemma sim_py_iter: "sim (py_iter rs) (py_iter rs)"
  by (simp add: sim_def py_iter_def)

lemma sim_py_next: "sim py_next py_next"
  by (simp add: sim_def py_next_def split: list.splits)

lemma sim_pyro_sample: "sim (pyro_sample True smp nm d) (pyro_sample False smp nm d)"
  by (simp add: sim_def pyro_sample_def taken_def names_def Let_def)

lemma sim_pyro_sample_plated:
  "sim (pyro_sample_plated True smp ps nm d) (pyro_sample_plated False smp ps nm d)"
  by (simp add: sim_def pyro_sample_plated_def taken_def names_def Let_def)

lemma sim_pyro_observe: "sim (pyro_observe True nm d v) (pyro_observe False nm d v)"
  by (simp add: sim_def pyro_observe_def taken_def names_def)

lemma sim_pyro_plate: "sim (pyro_plate True nm n) (pyro_plate False nm n)"
  by (simp add: sim_def pyro_plate_def taken_def names_def Let_def)

lemma sim_pbind:
  assumes "sim m m'" and "\<And>x. sim (f x) (f' x)"
  shows "sim (pbind m f) (pbind m' f')"
proof -
  have "(\<exists>ys. trace (snd (pbind m' f' w)) = trace w @ ys) \<and>
        (distinct (names (snd (pbind m' f' w))) \<longrightarrow> pbind m f w = pbind m' f' w)" for w
  proof (cases "m' w")
    case (Pair r w1)
    from assms(1) Pair obtain ys1 where t1: "trace w1 = trace w @ ys1"
      unfolding sim_def by (metis snd_conv)
    have e1: "m w = (r, w1)" if "distinct (names w1)"
      using sim_step [OF assms(1) Pair that] .
    show ?thesis
    proof (cases r)
      case (Inl e)
      with Pair t1 e1 show ?thesis by (auto simp add: pbind_def)
    next
      case (Inr x)
      obtain r2 w2 where f: "f' x w1 = (r2, w2)" by (cases "f' x w1")
      from assms(2) [of x] f obtain ys2 where t2: "trace w2 = trace w1 @ ys2"
        unfolding sim_def by (metis snd_conv)
      have e2: "f x w1 = (r2, w2)" if "distinct (names w2)"
        using sim_step [OF assms(2) f that] .
      have p: "pbind m' f' w = (r2, w2)" using Pair Inr f by (simp add: pbind_def)
      have d: "distinct (names w1)" if "distinct (names w2)"
        using that t2 by (simp add: names_def)
      have "pbind m f w = (r2, w2)" if "distinct (names w2)"
        using e1 [OF d [OF that]] e2 [OF that] Inr by (simp add: pbind_def)
      with p t1 t2 show ?thesis by auto
    qed
  qed
  then show ?thesis by (simp add: sim_def)
qed

lemma sim_for_each:
  assumes "\<And>j acc. sim (body j acc) (body' j acc)"
  shows "sim (for_each js body acc) (for_each js body' acc)"
proof -
  have "(\<exists>ys. trace (snd (for_each js body' acc w)) = trace w @ ys) \<and>
        (distinct (names (snd (for_each js body' acc w))) \<longrightarrow>
           for_each js body acc w = for_each js body' acc w)" for w
  proof (induction js arbitrary: acc w)
    case Nil
    show ?case by simp
  next
    case (Cons j js)
    show ?case
    proof (cases "body' j acc w")
      case (Pair r w1)
      from assms [of j acc] Pair obtain ys1 where t1: "trace w1 = trace w @ ys1"
        unfolding sim_def by (metis snd_conv)
      have e1: "body j acc w = (r, w1)" if "distinct (names w1)"
        using sim_step [OF assms Pair that] .
      show ?thesis
      proof (cases r)
        case (Inl e)
        with Pair t1 e1 show ?thesis by auto
      next
        case (Inr a)
        obtain r2 w2 where f: "for_each js body' a w1 = (r2, w2)"
          by (cases "for_each js body' a w1")
        from Cons.IH [of a w1] f obtain ys2 where t2: "trace w2 = trace w1 @ ys2"
          and e2: "distinct (names w2) \<longrightarrow> for_each js body a w1 = (r2, w2)"
          by auto
        have p: "for_each (j # js) body' acc w = (r2, w2)" using Pair Inr f by simp
        have d: "distinct (names w1)" if "distinct (names w2)"
          using that t2 by (simp add: names_def)
        have "for_each (j # js) body acc w = (r2, w2)" if "distinct (names w2)"
          using e1 [OF d [OF that]] e2 that Inr by simp
        with p t1 t2 show ?thesis by auto
      qed
    qed
  qed
  then show ?thesis by (simp add: sim_def)
qed

lemma sim_case_rating:
  "(\<And>u i r. sim (f u i r) (f' u i r)) \<Longrightarrow>
   sim (case x of (u, i, r) \<Rightarrow> f u i r) (case x of (u, i, r) \<Rightarrow> f' u i r)"
  by (simp split: prod.splits)

lemmas sim_intros = sim_ret sim_raise sim_lift sim_pyro_param sim_py_iter sim_py_next
  sim_pyro_sample sim_pyro_sample_plated sim_pyro_observe sim_pyro_plate sim_pbind
  sim_for_each sim_case_rating

lemma MMPF_guide_sim: "sim (MMPF_guide True smp slf ratings) (MMPF_guide False smp slf ratings)"
  unfolding MMPF_guide_def MMPF_guide_latents_def MMPF_guide_contexts_def MMPF_guide_user_def
    MMPF_guide_item_def MMPF_guide_rating_def plate_loop_def
  by (intro sim_intros)

lemma MMPF_guide_latents_sim:
  "sim (MMPF_guide_latents True smp hp) (MMPF_guide_latents False smp hp)"
  unfolding MMPF_guide_latents_def MMPF_guide_contexts_def MMPF_guide_user_def
    MMPF_guide_item_def plate_loop_def
  by (intro sim_intros)

lemma MMPF_model_sim: "sim (MMPF_model True smp slf ratings) (MMPF_model False smp slf ratings)"
  unfolding MMPF_model_def context_latents_loop_def MMPF_model_users_def MMPF_model_items_def
    MMPF_model_rating_def plate_loop_def
  by (intro sim_intros)

section \<open>Names: decimal texts and the names built from them\<close>

lemma below_ten:
  "d < 10 \<Longrightarrow> d = 0 \<or> d = 1 \<or> d = 2 \<or> d = 3 \<or> d = 4 \<or> d = 5 \<or> d = 6 \<or> d = 7 \<or> d = 8 \<or>
     d = (9::nat)"
  by arith

lemma digit_is_digit: "d < 10 \<Longrightarrow> is_digit (digit d)"
  by (drule below_ten) (auto simp add: digit_def is_digit_def)

lemma digit_value_digit: "d < 10 \<Longrightarrow> digit_value (digit d) = d"
  by (drule below_ten) (auto simp add: digit_def digit_value_def)

lemma str_digits: "list_all is_digit (str n)"
proof (induction n rule: str.induct)
  case (1 n)
  show ?case
  proof (cases "n < 10")
    case True
    then show ?thesis by (subst str.simps) (simp add: digit_is_digit)
  next
    case False
    with 1 have "list_all is_digit (str (n div 10))" by simp
    with False show ?thesis by (subst str.simps) (simp add: digit_is_digit)
  qed
qed

lemma str_nonempty: "str n \<noteq> []"
  by (subst str.simps) simp

lemma decimal_snoc: "decimal (s @ [c]) = 10 * decimal s + digit_value c"
  by (simp add: decimal_def)

lemma decimal_str: "decimal (str n) = n"
proof (induction n rule: str.induct)
  case (1 n)
  show ?case
  proof (cases "n < 10")
    case True
    then show ?thesis by (subst str.simps) (simp add: decimal_def digit_value_digit)
  next
    case False
    with 1 have "decimal (str (n div 10)) = n div 10" by simp
    with False show ?thesis
      by (subst str.simps) (simp add: decimal_snoc digit_value_digit)
  qed
qed

lemma str_inj: "str a = str b \<Longrightarrow> a = b"
  by (metis decimal_str)

lemma str_head: "\<exists>c cs. str n = c # cs \<and> is_digit c"
proof -
  from str_nonempty [of n] obtain c cs where s: "str n = c # cs" by (cases "str n") auto
  with str_digits [of n] have "is_digit c" by simp
  with s show ?thesis by blast
qed

lemma skeleton_append_str: "digit_free p \<Longrightarrow> skeleton (p @ str a @ rest) = p"
proof -
  assume p: "digit_free p"
  from str_head [of a] obtain c cs where s: "str a = c # cs" "is_digit c" by blast
  from p have "takeWhile (\<lambda>c. \<not> is_digit c) (p @ str a @ rest) =
      p @ takeWhile (\<lambda>c. \<not> is_digit c) (str a @ rest)"
    by (intro takeWhile_append2) (simp add: digit_free_def list_all_iff)
  with s show ?thesis by (simp add: skeleton_def)
qed

lemma skeleton_fmt1: "digit_free p \<Longrightarrow> skeleton (fmt1 p a) = p"
  using skeleton_append_str [of p a "[]"] by (simp add: fmt1_def)

lemma skeleton_fmt2: "digit_free p \<Longrightarrow> skeleton (fmt2 p a b) = p"
  using skeleton_append_str [of p a "'','' @ str b"] by (simp add: fmt2_def)

lemma skeleton_literal: "digit_free p \<Longrightarrow> skeleton p = p"
  by (simp add: skeleton_def digit_free_def list_all_iff)

lemma digits_then_comma:
  "takeWhile is_digit (str a @ CHR '','' # rest) = str a"
proof -
  have "takeWhile is_digit (str a @ CHR '','' # rest) =
      str a @ takeWhile is_digit (CHR '','' # rest)"
    using str_digits [of a] by (intro takeWhile_append2) (simp add: list_all_iff)
  then show ?thesis by (simp add: is_digit_def)
qed

lemma str_comma_inj:
  assumes "str a @ CHR '','' # str b = str c @ CHR '','' # str d"
  shows "a = c \<and> b = d"
proof -
  from assms have "takeWhile is_digit (str a @ CHR '','' # str b) =
      takeWhile is_digit (str c @ CHR '','' # str d)"
    by simp
  then have e: "str a = str c" by (simp add: digits_then_comma)
  with assms have "str b = str d" by simp
  with e show ?thesis by (simp add: str_inj)
qed

lemma str_no_comma: "str a \<noteq> str b @ CHR '','' # rest"
proof
  assume "str a = str b @ CHR '','' # rest"
  then have "CHR '','' \<in> set (str a)" by simp
  with str_digits [of a] have "is_digit CHR '',''" by (simp add: list_all_iff)
  then show False by (simp add: is_digit_def)
qed

lemma fmt1_eq:
  assumes "digit_free p" and "digit_free q"
  shows "(fmt1 p a = fmt1 q b) = (p = q \<and> a = b)"
proof
  assume e: "fmt1 p a = fmt1 q b"
  then have "skeleton (fmt1 p a) = skeleton (fmt1 q b)" by simp
  with assms have pq: "p = q" by (simp add: skeleton_fmt1)
  with e have "str a = str b" by (simp add: fmt1_def)
  with pq show "p = q \<and> a = b" by (simp add: str_inj)
qed simp

lemma fmt2_eq:
  assumes "digit_free p" and "digit_free q"
  shows "(fmt2 p a b = fmt2 q c d) = (p = q \<and> a = c \<and> b = d)"
proof
  assume e: "fmt2 p a b = fmt2 q c d"
  then have "skeleton (fmt2 p a b) = skeleton (fmt2 q c d)" by simp
  with assms have pq: "p = q" by (simp add: skeleton_fmt2)
  with e have "str a @ CHR '','' # str b = str c @ CHR '','' # str d" by (simp add: fmt2_def)
  from str_comma_inj [OF this] pq show "p = q \<and> a = c \<and> b = d" by simp
qed simp

lemma fmt1_fmt2:
  assumes "digit_free p" and "digit_free q"
  shows "fmt1 p a \<noteq> fmt2 q b c"
proof
  assume e: "fmt1 p a = fmt2 q b c"
  then have "skeleton (fmt1 p a) = skeleton (fmt2 q b c)" by simp
  with assms have "p = q" by (simp add: skeleton_fmt1 skeleton_fmt2)
  with e have "str a = str b @ CHR '','' # str c" by (simp add: fmt1_def fmt2_def)
  with str_no_comma show False by blast
qed

lemma fmt2_fmt1:
  assumes "digit_free p" and "digit_free q"
  shows "fmt2 q b c \<noteq> fmt1 p a"
  using fmt1_fmt2 [OF assms, of a b c] by metis

lemma literal_fmt1:
  assumes "digit_free p" and "digit_free q"
  shows "p \<noteq> fmt1 q a"
proof
  assume e: "p = fmt1 q a"
  then have "skeleton p = skeleton (fmt1 q a)" by simp
  with assms have "p = q" by (simp add: skeleton_fmt1 skeleton_literal)
  with e have "str a = []" by (simp add: fmt1_def)
  with str_nonempty show False by blast
qed

lemma literal_fmt2:
  assumes "digit_free p" and "digit_free q"
  shows "p \<noteq> fmt2 q a b"
proof
  assume e: "p = fmt2 q a b"
  then have "skeleton p = skeleton (fmt2 q a b)" by simp
  with assms have "p = q" by (simp add: skeleton_fmt2 skeleton_literal)
  with e have "str a = []" by (simp add: fmt2_def)
  with str_nonempty show False by blast
qed

lemma distinct_concat_upt:
  assumes "\<And>i. i < n \<Longrightarrow> distinct (f i)"
    and "\<And>i j x. i < n \<Longrightarrow> j < n \<Longrightarrow> x \<in> set (f i) \<Longrightarrow> x \<in> set (f j) \<Longrightarrow> i = j"
  shows "distinct (concat (map f [0..<n]))"
  using assms
proof (induction n)
  case 0
  show ?case by simp
next
  case (Suc n)
  from Suc.prems have d: "distinct (concat (map f [0..<n]))"
    by (intro Suc.IH) (auto simp add: less_Suc_eq)
  have "x \<notin> set (f n)" if "x \<in> set (concat (map f [0..<n]))" for x
  proof
    assume xn: "x \<in> set (f n)"
    from that obtain i where i: "i < n" "x \<in> set (f i)" by auto
    from Suc.prems(2) [of i n x] i xn show False by simp
  qed
  with d Suc.prems(1) [of n] show ?case by auto
qed

lemma distinct_context_names:
  assumes "digit_free outer" and "digit_free inner" and "digit_free site"
  shows "distinct (context_names outer inner site n m)"
proof -
  let ?f = "\<lambda>c. fmt1 inner c # map (fmt2 site c) [0..<m]"
  have "distinct (concat (map ?f [0..<n]))"
  proof (rule distinct_concat_upt)
    fix c
    show "distinct (?f c)"
      using assms by (auto simp add: distinct_map inj_on_def fmt2_eq fmt1_fmt2)
  next
    fix i j x
    assume "x \<in> set (?f i)" and "x \<in> set (?f j)"
    with assms show "i = j"
      using fmt1_fmt2 [of inner site] fmt2_fmt1 [of inner site]
      by (auto simp add: fmt1_eq fmt2_eq)
  qed
  moreover have "outer \<notin> set (concat (map ?f [0..<n]))"
    using assms literal_fmt1 [of outer inner] literal_fmt2 [of outer site] by auto
  ultimately show ?thesis by (simp add: context_names_def)
qed

lemma distinct_entity_names:
  assumes "digit_free outer" and "digit_free mean" and "digit_free inner" and "digit_free site"
    and "mean \<noteq> inner"
  shows "distinct (entity_names outer mean inner site n m)"
proof -
  let ?f = "\<lambda>u. fmt1 mean u # fmt1 inner u # map (fmt2 site u) [0..<m]"
  have "distinct (concat (map ?f [0..<n]))"
  proof (rule distinct_concat_upt)
    fix u
    show "distinct (?f u)"
      using assms by (auto simp add: distinct_map inj_on_def fmt1_eq fmt2_eq fmt1_fmt2)
  next
    fix i j x
    assume "x \<in> set (?f i)" and "x \<in> set (?f j)"
    with assms show "i = j"
      using fmt1_fmt2 [of inner site] fmt1_fmt2 [of mean site]
        fmt2_fmt1 [of inner site] fmt2_fmt1 [of mean site]
      by (auto simp add: fmt1_eq fmt2_eq)
  qed
  moreover have "outer \<notin> set (concat (map ?f [0..<n]))"
    using assms literal_fmt1 [of outer inner] literal_fmt1 [of outer mean]
      literal_fmt2 [of outer site]
    by auto
  ultimately show ?thesis by (simp add: entity_names_def)
qed

lemma context_names_skeleton:
  assumes "digit_free outer" and "digit_free inner" and "digit_free site"
    and "x \<in> set (context_names outer inner site n m)"
  shows "skeleton x = outer \<or> skeleton x = inner \<or> skeleton x = site"
  using assms
  by (auto simp add: context_names_def skeleton_fmt1 skeleton_fmt2 skeleton_literal)

lemma entity_names_skeleton:
  assumes "digit_free outer" and "digit_free mean" and "digit_free inner" and "digit_free site"
    and "x \<in> set (entity_names outer mean inner site n m)"
  shows "skeleton x = outer \<or> skeleton x = mean \<or> skeleton x = inner \<or> skeleton x = site"
  using assms
  by (auto simp add: entity_names_def skeleton_fmt1 skeleton_fmt2 skeleton_literal)

lemma rating_site_names_skeleton:
  assumes "x \<in> set (rating_site_names rs)"
  shows "skeleton x = ''user_context_'' \<or> skeleton x = ''item_context_''"
proof -
  have "digit_free ''user_context_''" "digit_free ''item_context_''"
    by (simp_all add: digit_free_def is_digit_def)
  with assms show ?thesis
    by (auto simp add: rating_site_names_def skeleton_fmt2)
qed

lemma distinct_rating_site_names:
  "distinct (rating_pairs rs) \<Longrightarrow> distinct (rating_site_names rs)"
proof (induction rs)
  case Nil
  show ?case by (simp add: rating_site_names_def)
next
  case (Cons x rs)
  obtain u i r where x: "x = (u, i, r)" by (cases x)
  have df: "digit_free ''user_context_''" "digit_free ''item_context_''"
    by (simp_all add: digit_free_def is_digit_def)
  from Cons have d: "distinct (rating_site_names rs)" by (simp add: rating_pairs_def)
  from Cons.prems x have "(u, i) \<notin> set (rating_pairs rs)" by (simp add: rating_pairs_def)
  then have new: "(u, i, b) \<notin> set rs" for b by (force simp add: rating_pairs_def)
  have "fmt2 ''user_context_'' u i \<notin> set (rating_site_names rs)"
    "fmt2 ''item_context_'' u i \<notin> set (rating_site_names rs)"
    using new df by (auto simp add: rating_site_names_def fmt2_eq)
  moreover have "fmt2 ''user_context_'' u i \<noteq> fmt2 ''item_context_'' u i"
    using df by (simp add: fmt2_eq)
  ultimately show ?case using d x by (simp add: rating_site_names_def)
qed

lemma family_literal: "digit_free p \<Longrightarrow> family [p] {p}"
  by (simp add: family_def skeleton_literal)

lemma family_context_names:
  assumes "digit_free outer" and "digit_free inner" and "digit_free site"
  shows "family (context_names outer inner site n m) {outer, inner, site}"
  using context_names_skeleton [OF assms] by (auto simp add: family_def list_all_iff)

lemma family_entity_names:
  assumes "digit_free outer" and "digit_free mean" and "digit_free inner" and "digit_free site"
  shows "family (entity_names outer mean inner site n m) {outer, mean, inner, site}"
  using entity_names_skeleton [OF assms] by (auto simp add: family_def list_all_iff)

lemma family_rating_site_names:
  "family (rating_site_names rs) {''user_context_'', ''item_context_''}"
  using rating_site_names_skeleton by (auto simp add: family_def list_all_iff)

lemma join_families:
  assumes "distinct xs" and "family xs A" and "distinct ys" and "family ys B"
    and "A \<inter> B = {}"
  shows "distinct (xs @ ys) \<and> family (xs @ ys) (A \<union> B)"
proof -
  have "x \<notin> set ys" if "x \<in> set xs" for x
  proof
    assume "x \<in> set ys"
    with that assms(2,4) have "skeleton x \<in> A \<inter> B" by (simp add: family_def list_all_iff)
    with assms(5) show False by simp
  qed
  then have "set xs \<inter> set ys = {}" by auto
  with assms show ?thesis by (auto simp add: family_def list_all_iff)
qed

lemma distinct_entity_part:
  "distinct (rating_pairs rs) \<Longrightarrow>
   distinct ((entity_names ''users_loop'' ''user_mean_'' ''user_latents_loop_'' ''user_latents_'' n1 m1 @
              entity_names ''items_loop'' ''item_mean_'' ''item_latents_loop_'' ''item_latents_'' n2 m2) @
             [''ratings''] @ rating_site_names rs) \<and>
   family ((entity_names ''users_loop'' ''user_mean_'' ''user_latents_loop_'' ''user_latents_'' n1 m1 @
             entity_names ''items_loop'' ''item_mean_'' ''item_latents_loop_'' ''item_latents_'' n2 m2) @
            [''ratings''] @ rating_site_names rs)
     (({''users_loop'', ''user_mean_'', ''user_latents_loop_'', ''user_latents_''} \<union>
       {''items_loop'', ''item_mean_'', ''item_latents_loop_'', ''item_latents_''}) \<union>
      ({''ratings''} \<union> {''user_context_'', ''item_context_''}))"
proof -
  assume d: "distinct (rating_pairs rs)"
  have r: "distinct ([''ratings''] @ rating_site_names rs) \<and>
      family ([''ratings''] @ rating_site_names rs)
        ({''ratings''} \<union> {''user_context_'', ''item_context_''})"
    by (rule join_families)
      (simp_all add: distinct_rating_site_names [OF d] family_rating_site_names
        family_literal digit_free_def is_digit_def)
  have e: "distinct
        (entity_names ''users_loop'' ''user_mean_'' ''user_latents_loop_'' ''user_latents_'' n1 m1 @
         entity_names ''items_loop'' ''item_mean_'' ''item_latents_loop_'' ''item_latents_'' n2 m2) \<and>
      family
        (entity_names ''users_loop'' ''user_mean_'' ''user_latents_loop_'' ''user_latents_'' n1 m1 @
         entity_names ''items_loop'' ''item_mean_'' ''item_latents_loop_'' ''item_latents_'' n2 m2)
        ({''users_loop'', ''user_mean_'', ''user_latents_loop_'', ''user_latents_''} \<union>
         {''items_loop'', ''item_mean_'', ''item_latents_loop_'', ''item_latents_''})"
    by (rule join_families)
      (simp_all add: distinct_entity_names family_entity_names digit_free_def is_digit_def)
  show ?thesis
    by (rule join_families [OF conjunct1 [OF e] conjunct2 [OF e] conjunct1 [OF r]
          conjunct2 [OF r]]) simp
qed

lemma distinct_with_contexts:
  assumes "digit_free o1" and "digit_free i1" and "digit_free s1"
    and "digit_free o2" and "digit_free i2" and "digit_free s2"
    and "distinct rest" and "family rest B"
    and "{o1, i1, s1} \<inter> {o2, i2, s2} = {}"
    and "({o1, i1, s1} \<union> {o2, i2, s2}) \<inter> B = {}"
    and "{''user_context_prob'', ''item_context_prob''} \<inter> ({o1, i1, s1} \<union> {o2, i2, s2} \<union> B) = {}"
  shows "distinct (''user_context_prob'' # ''item_context_prob'' #
           context_names o1 i1 s1 n m @ context_names o2 i2 s2 n m @ rest)"
proof -
  have c: "distinct (context_names o1 i1 s1 n m @ context_names o2 i2 s2 n m) \<and>
      family (context_names o1 i1 s1 n m @ context_names o2 i2 s2 n m)
        ({o1, i1, s1} \<union> {o2, i2, s2})"
    using assms(1-6,9)
    by (intro join_families distinct_context_names family_context_names)
  have a: "distinct ((context_names o1 i1 s1 n m @ context_names o2 i2 s2 n m) @ rest) \<and>
      family ((context_names o1 i1 s1 n m @ context_names o2 i2 s2 n m) @ rest)
        (({o1, i1, s1} \<union> {o2, i2, s2}) \<union> B)"
    by (rule join_families [OF conjunct1 [OF c] conjunct2 [OF c] assms(7,8,10)])
  have p: "distinct [''user_context_prob'', ''item_context_prob''] \<and>
      family [''user_context_prob'', ''item_context_prob'']
        {''user_context_prob'', ''item_context_prob''}"
    by (simp add: family_def skeleton_literal digit_free_def is_digit_def)
  have "distinct ([''user_context_prob'', ''item_context_prob''] @
      (context_names o1 i1 s1 n m @ context_names o2 i2 s2 n m) @ rest) \<and>
      family ([''user_context_prob'', ''item_context_prob''] @
      (context_names o1 i1 s1 n m @ context_names o2 i2 s2 n m) @ rest)
        ({''user_context_prob'', ''item_context_prob''} \<union>
         (({o1, i1, s1} \<union> {o2, i2, s2}) \<union> B))"
    using assms(11)
    by (intro join_families conjunct1 [OF p] conjunct2 [OF p] conjunct1 [OF a]
        conjunct2 [OF a]) (simp add: Un_assoc)
  then show ?thesis by simp
qed

lemma distinct_guide_names:
  assumes "distinct (rating_pairs rs)"
  shows "distinct (MMPF_guide_latent_names hp @ ''ratings'' # rating_site_names rs)"
proof -
  note e = distinct_entity_part [OF assms, of "num_users hp" "num_latents hp" "num_items hp"
      "num_latents hp"]
  have "distinct (''user_context_prob'' # ''item_context_prob'' #
      context_names ''user_contexts_loop'' ''user_context_latents_loop_'' ''user_context_latents_''
        (num_contexts hp) (num_context_latents hp) @
      context_names ''item_contexts_loop'' ''item_context_latents_loop_'' ''item_context_latents_''
        (num_contexts hp) (num_context_latents hp) @
      (entity_names ''users_loop'' ''user_mean_'' ''user_latents_loop_'' ''user_latents_''
         (num_users hp) (num_latents hp) @
       entity_names ''items_loop'' ''item_mean_'' ''item_latents_loop_'' ''item_latents_''
         (num_items hp) (num_latents hp)) @
      [''ratings''] @ rating_site_names rs)"
    by (rule distinct_with_contexts [OF _ _ _ _ _ _ conjunct1 [OF e] conjunct2 [OF e]])
      (simp_all add: digit_free_def is_digit_def)
  then show ?thesis by (simp add: MMPF_guide_latent_names_def)
qed

lemma distinct_model_names:
  assumes "distinct (rating_pairs rs)"
  shows "distinct (MMPF_model_latent_names hp @ ''ratings'' # rating_site_names rs)"
proof -
  note e = distinct_entity_part [OF assms, of "num_users hp" "num_latents hp" "num_items hp"
      "num_latents hp"]
  have "distinct (''user_context_prob'' # ''item_context_prob'' #
      context_names ''user_contexts'' ''user_context_latents_'' ''user_context_latents_''
        (num_contexts hp) (num_context_latents hp) @
      context_names ''item_contexts'' ''item_context_latents_'' ''item_context_latents_''
        (num_contexts hp) (num_context_latents hp) @
      (entity_names ''users_loop'' ''user_mean_'' ''user_latents_loop_'' ''user_latents_''
         (num_users hp) (num_latents hp) @
       entity_names ''items_loop'' ''item_mean_'' ''item_latents_loop_'' ''item_latents_''
         (num_items hp) (num_latents hp)) @
      [''ratings''] @ rating_site_names rs)"
    by (rule distinct_with_contexts [OF _ _ _ _ _ _ conjunct1 [OF e] conjunct2 [OF e]])
      (simp_all add: digit_free_def is_digit_def)
  then show ?thesis by (simp add: MMPF_model_latent_names_def)
qed

lemma distinct_guide_latent_names: "distinct (MMPF_guide_latent_names hp)"
  using distinct_guide_names [of "[]" hp] by (simp add: rating_pairs_def)

section \<open>The guide of MMPF\<close>

lemma plate_loop_plain:
  "0 < n \<Longrightarrow>
   plate_loop False nm n body acc w =
     for_each [0..<n] body acc
       (w\<lparr>trace := trace w @ [Site nm (Subsample n) (Vector (map real [0..<n])) False]\<rparr>)"
  by (simp add: plate_loop_def pbind_def pyro_plate_def Let_def)

lemma plate_loop_zero:
  "plate_loop False nm 0 body acc w =
     (Inl ZeroDivisionError,
      w\<lparr>trace := trace w @ [Site nm (Subsample 0) (Vector []) False]\<rparr>)"
  by (simp add: plate_loop_def pbind_def pyro_plate_def Let_def)

lemma MMPF_guide_contexts_logs:
  assumes "0 < num_contexts hp" and "0 < num_context_latents hp"
  shows "logs (MMPF_guide_contexts False smp outer inner q_a q_b site hp)
           (context_names outer inner site (num_contexts hp) (num_context_latents hp))"
proof -
  have "logs (MMPF_guide_contexts False smp outer inner q_a q_b site hp)
      (outer # concat (map (\<lambda>c. fmt1 inner c #
         concat (map (\<lambda>v. [fmt2 site c v]) [0..<num_context_latents hp]))
       [0..<num_contexts hp]))"
    unfolding MMPF_guide_contexts_def
    by (intro logs_intros assms)
  then show ?thesis by (simp add: context_names_def)
qed

lemma MMPF_guide_users_logs:
  assumes "0 < num_users hp" and "0 < num_latents hp"
  shows "logs (plate_loop False ''users_loop'' (num_users hp)
                 (\<lambda>u _. MMPF_guide_user False smp hp u) ())
           (entity_names ''users_loop'' ''user_mean_'' ''user_latents_loop_'' ''user_latents_''
              (num_users hp) (num_latents hp))"
proof -
  have "logs (plate_loop False ''users_loop'' (num_users hp)
                 (\<lambda>u _. MMPF_guide_user False smp hp u) ())
      (''users_loop'' # concat (map (\<lambda>u. fmt1 ''user_mean_'' u # fmt1 ''user_latents_loop_'' u #
         concat (map (\<lambda>l. [fmt2 ''user_latents_'' u l]) [0..<num_latents hp]))
       [0..<num_users hp]))"
    unfolding MMPF_guide_user_def
    by (intro logs_intros assms)
  then show ?thesis by (simp add: entity_names_def)
qed

lemma MMPF_guide_items_logs:
  assumes "0 < num_items hp" and "0 < num_latents hp"
  shows "logs (plate_loop False ''items_loop'' (num_items hp)
                 (\<lambda>i _. MMPF_guide_item False smp hp i) ())
           (entity_names ''items_loop'' ''item_mean_'' ''item_latents_loop_'' ''item_latents_''
              (num_items hp) (num_latents hp))"
proof -
  have "logs (plate_loop False ''items_loop'' (num_items hp)
                 (\<lambda>i _. MMPF_guide_item False smp hp i) ())
      (''items_loop'' # concat (map (\<lambda>i. fmt1 ''item_mean_'' i # fmt1 ''item_latents_loop_'' i #
         concat (map (\<lambda>l. [fmt2 ''item_latents_'' i l]) [0..<num_latents hp]))
       [0..<num_items hp]))"
    unfolding MMPF_guide_item_def
    by (intro logs_intros assms)
  then show ?thesis by (simp add: entity_names_def)
qed

text \<open>
  When the sizes of its plates are all positive, the plain run of lines 151 to 209
  returns and declares the names of \<open>MMPF_guide_latent_names\<close>.
\<close>

lemma MMPF_guide_latents_logs:
  assumes "0 < num_contexts hp" and "0 < num_context_latents hp" and "0 < num_users hp"
    and "0 < num_items hp" and "0 < num_latents hp"
  shows "logs (MMPF_guide_latents False smp hp) (MMPF_guide_latent_names hp)"
  unfolding MMPF_guide_latents_def MMPF_guide_latent_names_def
  by (intro logs_param_bind logs_sample_bind logs_pbind MMPF_guide_contexts_logs
      MMPF_guide_users_logs MMPF_guide_items_logs assms)

lemma MMPF_guide_latents_keeps_itr: "keeps_itr (MMPF_guide_latents tr smp hp)"
  unfolding keeps_itr_def MMPF_guide_latents_def MMPF_guide_contexts_def MMPF_guide_user_def
    MMPF_guide_item_def plate_loop_def
  by (intro allI itr_intros)

lemma MMPF_guide_latents_grows: "grows (MMPF_guide_latents tr smp hp)"
  unfolding grows_def MMPF_guide_latents_def MMPF_guide_contexts_def MMPF_guide_user_def
    MMPF_guide_item_def plate_loop_def
  by (intro allI grows_intros)

lemma MMPF_guide_rating_grows: "grows (MMPF_guide_rating tr smp hp)"
  unfolding grows_def MMPF_guide_rating_def
  by (intro allI grows_intros)

lemma MMPF_guide_rating_empty:
  "itr w = [] \<Longrightarrow> MMPF_guide_rating tr smp hp w = (Inl StopIteration, w)"
  by (simp add: MMPF_guide_rating_def pbind_def py_next_def)

lemma MMPF_guide_rating_step:
  assumes "itr w = (u, i, r) # rest"
  shows "\<exists>w'. MMPF_guide_rating False smp hp w = (Inr (), w') \<and> itr w' = rest \<and>
           consumed w' = consumed w @ [(u, i, r)] \<and>
           names w' = names w @ [fmt2 ''user_context_'' u i, fmt2 ''item_context_'' u i]"
  using assms
  by (simp add: MMPF_guide_rating_def pbind_def py_next_def pyro_param_def pyro_sample_def
      ret_def Let_def names_def split: option.splits)

lemma MMPF_guide_rating_loop:
  "\<exists>r w'. for_each js (\<lambda>j _. MMPF_guide_rating False smp hp) () w = (r, w') \<and>
        r = (if length js \<le> length (itr w) then Inr () else Inl StopIteration) \<and>
        itr w' = drop (length js) (itr w) \<and>
        consumed w' = consumed w @ take (length js) (itr w) \<and>
        names w' = names w @ rating_site_names (take (length js) (itr w))"
proof (induction js arbitrary: w)
  case Nil
  show ?case by (simp add: rating_site_names_def)
next
  case (Cons j js)
  show ?case
  proof (cases "itr w")
    case Nil
    then show ?thesis by (simp add: MMPF_guide_rating_empty rating_site_names_def)
  next
    case (Cons x rest)
    obtain u i r where x: "x = (u, i, r)" by (cases x)
    from MMPF_guide_rating_step [of w u i r rest smp hp] Cons x
    obtain w1 where w1: "MMPF_guide_rating False smp hp w = (Inr (), w1)" "itr w1 = rest"
      "consumed w1 = consumed w @ [x]"
      "names w1 = names w @ [fmt2 ''user_context_'' u i, fmt2 ''item_context_'' u i]"
      by auto
    from Cons.IH [of w1] obtain r' w' where
      w': "for_each js (\<lambda>j _. MMPF_guide_rating False smp hp) () w1 = (r', w')"
        "r' = (if length js \<le> length (itr w1) then Inr () else Inl StopIteration)"
        "itr w' = drop (length js) (itr w1)"
        "consumed w' = consumed w1 @ take (length js) (itr w1)"
        "names w' = names w1 @ rating_site_names (take (length js) (itr w1))"
      by blast
    from w1 w' Cons x show ?thesis by (simp add: rating_site_names_def)
  qed
qed

text \<open>
  The plain run of the guide: what it returns, what it takes from the iterator, and the
  names it declares.
\<close>

lemma MMPF_guide_plain:
  assumes hp: "mmpf_hyperparams slf = Some hp"
    and pos: "0 < num_contexts hp" "0 < num_context_latents hp" "0 < num_users hp"
      "0 < num_items hp" "0 < num_latents hp"
  shows "\<exists>w1 r w'. MMPF_guide_latents False smp hp w = (Inr (), w1) \<and>
           MMPF_guide False smp slf ratings w = (r, w') \<and>
           r = (if num_nonmissing hp = 0 then Inl ZeroDivisionError
                else if num_nonmissing hp \<le> length ratings then Inr ()
                else Inl StopIteration) \<and>
           consumed w' = consumed w @ take (num_nonmissing hp) ratings \<and>
           (0 < num_nonmissing hp \<longrightarrow> itr w' = drop (num_nonmissing hp) ratings) \<and>
           names w' = names w @ MMPF_guide_latent_names hp @
             ''ratings'' # rating_site_names (take (num_nonmissing hp) ratings) \<and>
           (\<forall>k v. store w1 k = Some v \<longrightarrow> store w' k = Some v)"
proof -
  from MMPF_guide_latents_logs [OF pos, of smp]
  obtain x w1 where w1: "MMPF_guide_latents False smp hp w = (Inr x, w1)"
    "names w1 = names w @ MMPF_guide_latent_names hp"
    unfolding logs_def by blast
  note k1 = keeps_itr_step [OF MMPF_guide_latents_keeps_itr w1(1)]
  let ?w2 = "w1\<lparr>itr := ratings\<rparr>"
  let ?w3 = "?w2\<lparr>trace := trace ?w2 @ [Site ''ratings'' (Subsample (num_nonmissing hp))
      (Vector (map real [0..<num_nonmissing hp])) False]\<rparr>"
  have u: "MMPF_guide False smp slf ratings w =
      plate_loop False ''ratings'' (num_nonmissing hp) (\<lambda>j _. MMPF_guide_rating False smp hp) () ?w2"
    using hp w1(1)
    by (simp add: MMPF_guide_def pbind_lift_Inr subscriptable_def pbind_Inr py_iter_def
        pbind_def [of "py_iter _"])
  show ?thesis
  proof (cases "num_nonmissing hp = 0")
    case True
    with u w1 k1 show ?thesis by (simp add: plate_loop_zero names_def rating_site_names_def)
  next
    case False
    then have n: "0 < num_nonmissing hp" by simp
    from MMPF_guide_rating_loop [of "[0..<num_nonmissing hp]" smp hp ?w3]
    obtain r w' where l:
      "for_each [0..<num_nonmissing hp] (\<lambda>j _. MMPF_guide_rating False smp hp) () ?w3 = (r, w')"
      "r = (if num_nonmissing hp \<le> length ratings then Inr () else Inl StopIteration)"
      "itr w' = drop (num_nonmissing hp) ratings"
      "consumed w' = consumed ?w3 @ take (num_nonmissing hp) ratings"
      "names w' = names ?w3 @ rating_site_names (take (num_nonmissing hp) ratings)"
      by auto
    have g: "grows (for_each [0..<num_nonmissing hp] (\<lambda>j _. MMPF_guide_rating False smp hp) ())"
      unfolding grows_def MMPF_guide_rating_def by (intro allI grows_intros)
    from grows_step [OF g l(1)] have st: "\<forall>k v. store w1 k = Some v \<longrightarrow> store w' k = Some v"
      by simp
    from u n l(1) have "MMPF_guide False smp slf ratings w = (r, w')"
      by (simp add: plate_loop_plain)
    with w1 k1 l n st show ?thesis by (simp add: names_def)
  qed
qed

text \<open>The traced run of the guide from an empty trace, on pairwise distinct pairs.\<close>

lemma MMPF_guide_traced:
  assumes hp: "mmpf_hyperparams slf = Some hp"
    and pos: "0 < num_contexts hp" "0 < num_context_latents hp" "0 < num_users hp"
      "0 < num_items hp" "0 < num_latents hp"
    and fresh: "trace w = []"
    and pairs: "distinct (rating_pairs (take (num_nonmissing hp) ratings))"
  shows "MMPF_guide True smp slf ratings w = MMPF_guide False smp slf ratings w"
proof -
  from MMPF_guide_plain [OF hp pos, of smp w ratings]
  obtain r w' where p: "MMPF_guide False smp slf ratings w = (r, w')"
    "names w' = names w @ MMPF_guide_latent_names hp @
       ''ratings'' # rating_site_names (take (num_nonmissing hp) ratings)"
    by blast
  from fresh p(2) distinct_guide_names [OF pairs, of hp] have "distinct (names w')"
    by (simp add: names_def)
  from sim_step [OF MMPF_guide_sim p(1) this] p(1) show ?thesis by simp
qed

lemma MMPF_guide_latents_traced:
  assumes pos: "0 < num_contexts hp" "0 < num_context_latents hp" "0 < num_users hp"
      "0 < num_items hp" "0 < num_latents hp"
    and fresh: "trace w = []"
  shows "MMPF_guide_latents True smp hp w = MMPF_guide_latents False smp hp w"
proof -
  from MMPF_guide_latents_logs [OF pos, of smp]
  obtain x w1 where w1: "MMPF_guide_latents False smp hp w = (Inr x, w1)"
    "names w1 = names w @ MMPF_guide_latent_names hp"
    unfolding logs_def by blast
  from fresh w1(2) distinct_guide_latent_names [of hp] have "distinct (names w1)"
    by (simp add: names_def)
  from sim_step [OF MMPF_guide_latents_sim w1(1) this] w1(1) show ?thesis by simp
qed

section \<open>The model of MMPF\<close>

lemma scalar_latents_draw: "scalar_latents (draw g)"
  by (simp add: scalar_latents_def draw_def)

lemma context_latents_loop_logs:
  assumes "0 < num_contexts hp" and "0 < num_context_latents hp"
  shows "logs (context_latents_loop False smp outer prefix hp)
           (context_names outer prefix prefix (num_contexts hp) (num_context_latents hp))"
proof -
  have "logs (context_latents_loop False smp outer prefix hp)
      (outer # concat (map (\<lambda>c. fmt1 prefix c #
         concat (map (\<lambda>v. [fmt2 prefix c v]) [0..<num_context_latents hp]))
       [0..<num_contexts hp]))"
    unfolding context_latents_loop_def
    by (intro logs_intros assms)
  then show ?thesis by (simp add: context_names_def)
qed

lemma MMPF_model_users_logs:
  assumes "0 < num_users hp" and "0 < num_latents hp"
  shows "logs (MMPF_model_users False smp hp)
           (entity_names ''users_loop'' ''user_mean_'' ''user_latents_loop_'' ''user_latents_''
              (num_users hp) (num_latents hp))"
proof -
  have "logs (MMPF_model_users False smp hp)
      (''users_loop'' # concat (map (\<lambda>u. fmt1 ''user_mean_'' u # fmt1 ''user_latents_loop_'' u #
         concat (map (\<lambda>l. [fmt2 ''user_latents_'' u l]) [0..<num_latents hp]))
       [0..<num_users hp]))"
    unfolding MMPF_model_users_def
    by (intro logs_intros assms)
  then show ?thesis by (simp add: entity_names_def)
qed

lemma MMPF_model_items_logs:
  assumes "0 < num_items hp" and "0 < num_latents hp"
  shows "logs (MMPF_model_items False smp hp)
           (entity_names ''items_loop'' ''item_mean_'' ''item_latents_loop_'' ''item_latents_''
              (num_items hp) (num_latents hp))"
proof -
  have "logs (MMPF_model_items False smp hp)
      (''items_loop'' # concat (map (\<lambda>i. fmt1 ''item_mean_'' i # fmt1 ''item_latents_loop_'' i #
         concat (map (\<lambda>l. [fmt2 ''item_latents_'' i l]) [0..<num_latents hp]))
       [0..<num_items hp]))"
    unfolding MMPF_model_items_def
    by (intro logs_intros assms)
  then show ?thesis by (simp add: entity_names_def)
qed

lemma context_latents_loop_steady:
  "keeps_itr (context_latents_loop tr smp outer prefix hp)"
  "preserved unobserved (context_latents_loop tr smp outer prefix hp)"
  unfolding keeps_itr_def context_latents_loop_def plate_loop_def
  by (intro allI itr_intros, intro unobserved_intros)

lemma MMPF_model_users_steady:
  "keeps_itr (MMPF_model_users tr smp hp)" "preserved unobserved (MMPF_model_users tr smp hp)"
  unfolding keeps_itr_def MMPF_model_users_def plate_loop_def
  by (intro allI itr_intros, intro unobserved_intros)

lemma MMPF_model_items_steady:
  "keeps_itr (MMPF_model_items tr smp hp)" "preserved unobserved (MMPF_model_items tr smp hp)"
  unfolding keeps_itr_def MMPF_model_items_def plate_loop_def
  by (intro allI itr_intros, intro unobserved_intros)

text \<open>The variable a loop of draws leaves behind is unbound or of rank 0.\<close>

lemma for_each_invariant:
  assumes "\<And>i acc w r w'. P acc \<Longrightarrow> body i acc w = (Inr r, w') \<Longrightarrow> P r"
    and "P acc" and "for_each js body acc w = (Inr r, w')"
  shows "P r"
  using assms(2,3)
proof (induction js arbitrary: acc w)
  case Nil
  then show ?case by simp
next
  case (Cons j js)
  from Cons.prems(2) obtain a w1 where b: "body j acc w = (Inr a, w1)"
    and l: "for_each js body a w1 = (Inr r, w')"
    by (auto split: prod.splits sum.splits)
  from assms(1) [OF Cons.prems(1) b] have "P a" .
  from Cons.IH [OF this l] show ?case .
qed

lemma plate_loop_invariant:
  assumes "\<And>i acc w r w'. P acc \<Longrightarrow> body i acc w = (Inr r, w') \<Longrightarrow> P r"
    and "P acc" and "plate_loop tr nm n body acc w = (Inr r, w')"
  shows "P r"
proof -
  from assms(3) obtain w1 where l: "for_each [0..<n] body acc w1 = (Inr r, w')"
    by (auto simp add: plate_loop_def pbind_def pyro_plate_def Let_def split: if_splits)
  show ?thesis
    by (rule for_each_invariant [where P = P and body = body, OF assms(1) assms(2) l])
qed

lemma MMPF_model_users_scalar:
  assumes "scalar_latents smp" and "MMPF_model_users False smp hp w = (Inr r, w')"
  shows "unbound_or_scalar r"
proof (rule plate_loop_invariant [where P = unbound_or_scalar,
      OF _ _ assms(2) [unfolded MMPF_model_users_def]])
  show "unbound_or_scalar None" by (simp add: unbound_or_scalar_def)
next
  fix u :: nat and acc w1 r' w2
  assume acc: "unbound_or_scalar acc"
    and run: "pbind (pyro_sample False smp (fmt1 ''user_mean_'' u)
                (Gamma (Scalar (a_u hp)) (Scalar (b_u hp)))) (\<lambda>user_mean.
           plate_loop False (fmt1 ''user_latents_loop_'' u) (num_latents hp) (\<lambda>k _.
             pbind (pyro_sample False smp (fmt2 ''user_latents_'' u k)
                  (Gamma (Scalar (c_u hp)) user_mean)) (\<lambda>x.
             ret (Some x))) acc) w1 = (Inr r', w2)"
  from assms(1) obtain x where x: "smp (fmt1 ''user_mean_'' u) Dim0 = Scalar x"
    unfolding scalar_latents_def by blast
  from run x obtain w3 where
    l: "plate_loop False (fmt1 ''user_latents_loop_'' u) (num_latents hp) (\<lambda>k _.
             pbind (pyro_sample False smp (fmt2 ''user_latents_'' u k)
                  (Gamma (Scalar (c_u hp)) (Scalar x))) (\<lambda>x.
             ret (Some x))) acc w3 = (Inr r', w2)"
    by (simp add: pbind_pyro_sample)
  show "unbound_or_scalar r'"
  proof (rule plate_loop_invariant [where P = unbound_or_scalar, OF _ acc l])
    fix k :: nat and a :: "tensor option" and v r'' v'
    assume "pbind (pyro_sample False smp (fmt2 ''user_latents_'' u k)
                (Gamma (Scalar (c_u hp)) (Scalar x))) (\<lambda>x. ret (Some x)) v = (Inr r'', v')"
    moreover from assms(1) obtain y where "smp (fmt2 ''user_latents_'' u k) Dim0 = Scalar y"
      unfolding scalar_latents_def by blast
    ultimately show "unbound_or_scalar r''"
      by (auto simp add: pbind_pyro_sample ret_def unbound_or_scalar_def)
  qed
qed

lemma for_each_nonempty_Some:
  assumes "js \<noteq> []"
    and "\<And>i acc w. \<exists>x w'. body i acc w = (Inr (Some x), w')"
  shows "\<exists>x w'. for_each js body acc w = (Inr (Some x), w')"
  using assms(1)
proof (induction js arbitrary: acc w)
  case Nil
  then show ?case by simp
next
  case (Cons j js)
  from assms(2) [of j acc w] obtain x w1 where b: "body j acc w = (Inr (Some x), w1)" by blast
  show ?case
  proof (cases js)
    case Nil
    with b show ?thesis by simp
  next
    case (Cons a list)
    then have "js \<noteq> []" by simp
    from Cons.IH [OF this, of "Some x" w1] b show ?thesis by simp
  qed
qed

lemma plate_loop_Some:
  assumes "0 < n"
    and "\<And>i acc w. \<exists>x w'. body i acc w = (Inr (Some x), w')"
  shows "\<exists>x w'. plate_loop False nm n body acc w = (Inr (Some x), w')"
proof -
  from assms(1) have "[0..<n] \<noteq> []" by simp
  from for_each_nonempty_Some [of "[0..<n]" body, OF this assms(2)]
  show ?thesis by (simp add: plate_loop_plain [OF assms(1)])
qed

lemma MMPF_model_users_bound:
  assumes "0 < num_users hp" and "0 < num_latents hp"
  shows "\<exists>x w'. MMPF_model_users False smp hp w = (Inr (Some x), w')"
  unfolding MMPF_model_users_def
proof (rule plate_loop_Some [OF assms(1)])
  fix u :: nat and acc :: "tensor option" and v :: world
  let ?m = "smp (fmt1 ''user_mean_'' u) (sample_shape (Gamma (Scalar (a_u hp)) (Scalar (b_u hp))))"
  let ?v1 = "v\<lparr>trace := trace v @ [Site (fmt1 ''user_mean_'' u)
      (Gamma (Scalar (a_u hp)) (Scalar (b_u hp))) ?m False]\<rparr>"
  have "\<exists>x w'. plate_loop False (fmt1 ''user_latents_loop_'' u) (num_latents hp) (\<lambda>k _.
         pbind (pyro_sample False smp (fmt2 ''user_latents_'' u k) (Gamma (Scalar (c_u hp)) ?m))
           (\<lambda>x. ret (Some x))) acc ?v1 = (Inr (Some x), w')"
  proof (rule plate_loop_Some [OF assms(2)])
    fix k :: nat and a :: "tensor option" and z :: world
    show "\<exists>x w'. pbind (pyro_sample False smp (fmt2 ''user_latents_'' u k) (Gamma (Scalar (c_u hp)) ?m))
           (\<lambda>x. ret (Some x)) z = (Inr (Some x), w')"
      by (simp add: pbind_pyro_sample ret_def)
  qed
  then show "\<exists>x w'. pbind (pyro_sample False smp (fmt1 ''user_mean_'' u)
                (Gamma (Scalar (a_u hp)) (Scalar (b_u hp)))) (\<lambda>user_mean.
       plate_loop False (fmt1 ''user_latents_loop_'' u) (num_latents hp) (\<lambda>k _.
         pbind (pyro_sample False smp (fmt2 ''user_latents_'' u k)
                  (Gamma (Scalar (c_u hp)) user_mean)) (\<lambda>x.
         ret (Some x))) acc) v = (Inr (Some x), w')"
    by (simp add: pbind_pyro_sample)
qed

text \<open>The plain run of the model up to its loop over the ratings.\<close>

lemma MMPF_model_unfold:
  assumes hp: "mmpf_hyperparams slf = Some hp"
    and pos: "0 < num_contexts hp" "0 < num_context_latents hp" "0 < num_users hp"
      "0 < num_items hp" "0 < num_latents hp"
  shows "\<exists>ucp icp ul il ucl icl w5.
           consumed w5 = consumed w \<and>
           names w5 = names w @ MMPF_model_latent_names hp \<and>
           (unobserved w \<longrightarrow> unobserved w5) \<and>
           (scalar_latents smp \<longrightarrow> unbound_or_scalar ul) \<and> ul \<noteq> None \<and>
           MMPF_model False smp slf ratings w =
             plate_loop False ''ratings'' (num_nonmissing hp)
               (\<lambda>j _. MMPF_model_rating False smp ucp icp ul il ucl icl) () (w5\<lparr>itr := ratings\<rparr>)"
proof -
  let ?d = "Dirichlet (scale (context_conc hp) (ones (num_contexts hp)))"
  let ?ucp = "smp ''user_context_prob'' (sample_shape ?d)"
  let ?icp = "smp ''item_context_prob'' (sample_shape ?d)"
  let ?w2 = "w\<lparr>trace := trace w @ [Site ''user_context_prob'' ?d ?ucp False]\<rparr>
              \<lparr>trace := trace (w\<lparr>trace := trace w @ [Site ''user_context_prob'' ?d ?ucp False]\<rparr>)
                 @ [Site ''item_context_prob'' ?d ?icp False]\<rparr>"
  let ?k = "\<lambda>ucl icl ul il. pbind (py_iter ratings) (\<lambda>_.
     plate_loop False ''ratings'' (num_nonmissing hp) (\<lambda>j _.
       MMPF_model_rating False smp ?ucp ?icp ul il ucl icl) ())"
  let ?k3 = "\<lambda>ucl icl ul. pbind (MMPF_model_items False smp hp) (\<lambda>il. ?k ucl icl ul il)"
  let ?k2 = "\<lambda>ucl icl. pbind (MMPF_model_users False smp hp) (\<lambda>ul. ?k3 ucl icl ul)"
  let ?k1 = "\<lambda>ucl. pbind (context_latents_loop False smp ''item_contexts''
      ''item_context_latents_'' hp) (\<lambda>icl. ?k2 ucl icl)"
  from hp have e0: "MMPF_model False smp slf ratings w =
      pbind (context_latents_loop False smp ''user_contexts'' ''user_context_latents_'' hp) ?k1 ?w2"
    by (simp add: MMPF_model_def subscriptable_def pbind_lift_Inr pbind_pyro_sample)
  have n2: "names ?w2 = names w @ [''user_context_prob'', ''item_context_prob'']"
    and o2: "unobserved w \<longrightarrow> unobserved ?w2"
    by (simp_all add: names_def unobserved_def)
  from logs_run [OF context_latents_loop_logs [OF pos(1,2), of smp "''user_contexts''"
        "''user_context_latents_''"] context_latents_loop_steady, of ?w2 ?k1]
  obtain ucl w3 where s1: "consumed w3 = consumed ?w2"
    "names w3 = names ?w2 @ context_names ''user_contexts'' ''user_context_latents_''
       ''user_context_latents_'' (num_contexts hp) (num_context_latents hp)"
    "unobserved ?w2 \<longrightarrow> unobserved w3"
    "pbind (context_latents_loop False smp ''user_contexts'' ''user_context_latents_'' hp) ?k1 ?w2 =
       ?k1 ucl w3"
    by blast
  from logs_run [OF context_latents_loop_logs [OF pos(1,2), of smp "''item_contexts''"
        "''item_context_latents_''"] context_latents_loop_steady, of w3 "?k2 ucl"]
  obtain icl w4 where s2: "consumed w4 = consumed w3"
    "names w4 = names w3 @ context_names ''item_contexts'' ''item_context_latents_''
       ''item_context_latents_'' (num_contexts hp) (num_context_latents hp)"
    "unobserved w3 \<longrightarrow> unobserved w4"
    "?k1 ucl w3 = ?k2 ucl icl w4"
    by blast
  from logs_run [OF MMPF_model_users_logs [OF pos(3,5), of smp] MMPF_model_users_steady,
      of w4 "?k3 ucl icl"]
  obtain ul w5 where s3: "MMPF_model_users False smp hp w4 = (Inr ul, w5)"
    "consumed w5 = consumed w4"
    "names w5 = names w4 @ entity_names ''users_loop'' ''user_mean_'' ''user_latents_loop_''
       ''user_latents_'' (num_users hp) (num_latents hp)"
    "unobserved w4 \<longrightarrow> unobserved w5"
    "?k2 ucl icl w4 = ?k3 ucl icl ul w5"
    by blast
  from logs_run [OF MMPF_model_items_logs [OF pos(4,5), of smp] MMPF_model_items_steady,
      of w5 "?k ucl icl ul"]
  obtain il w6 where s4: "consumed w6 = consumed w5"
    "names w6 = names w5 @ entity_names ''items_loop'' ''item_mean_'' ''item_latents_loop_''
       ''item_latents_'' (num_items hp) (num_latents hp)"
    "unobserved w5 \<longrightarrow> unobserved w6"
    "?k3 ucl icl ul w5 = ?k ucl icl ul il w6"
    by blast
  have e5: "?k ucl icl ul il w6 = plate_loop False ''ratings'' (num_nonmissing hp)
      (\<lambda>j _. MMPF_model_rating False smp ?ucp ?icp ul il ucl icl) () (w6\<lparr>itr := ratings\<rparr>)"
    by (simp add: pbind_def [of "py_iter _"] py_iter_def)
  have "scalar_latents smp \<longrightarrow> unbound_or_scalar ul"
    using MMPF_model_users_scalar [OF _ s3(1)] by blast
  moreover have "ul \<noteq> None"
    using MMPF_model_users_bound [OF pos(3,5), of smp w4] s3(1) by auto
  moreover have "consumed w6 = consumed w" using s1 s2 s3 s4 by simp
  moreover have "names w6 = names w @ MMPF_model_latent_names hp"
    using n2 s1(2) s2(2) s3(3) s4(2) by (simp add: MMPF_model_latent_names_def)
  moreover have "unobserved w \<longrightarrow> unobserved w6"
    using o2 s1(3) s2(3) s3(4) s4(3) by blast
  moreover have "MMPF_model False smp slf ratings w = plate_loop False ''ratings'' (num_nonmissing hp)
      (\<lambda>j _. MMPF_model_rating False smp ?ucp ?icp ul il ucl icl) () (w6\<lparr>itr := ratings\<rparr>)"
    using e0 s1(4) s2(4) s3(5) s4(4) e5 by simp
  ultimately show ?thesis by blast
qed

section \<open>The rate of a rating raises\<close>

lemma MMPF_rate_raises:
  assumes "unbound_or_scalar ul"
  shows "MMPF_rate ul il ucl icl user item z_u z_i =
           Inl (if ul = None then UnboundLocalError else IndexError)"
proof (cases ul)
  case None
  then show ?thesis by (simp add: MMPF_rate_def ebind_def read_local_def)
next
  case (Some t)
  with assms obtain x where "t = Scalar x"
    by (cases t) (simp_all add: unbound_or_scalar_def)
  with Some show ?thesis by (simp add: MMPF_rate_def ebind_def read_local_def)
qed

lemma MMPF_model_rating_raises:
  assumes "unbound_or_scalar ul" and "ul \<noteq> None" and "itr w = (u, i, r) # rest"
  shows "\<exists>w'. MMPF_model_rating False smp ucp icp ul il ucl icl w = (Inl IndexError, w') \<and>
           consumed w' = consumed w @ [(u, i, r)] \<and>
           names w' = names w @ [fmt2 ''user_context_'' u i, fmt2 ''item_context_'' u i] \<and>
           (unobserved w \<longrightarrow> unobserved w')"
proof -
  let ?zu = "smp (fmt2 ''user_context_'' u i) (sample_shape (Categorical ucp))"
  let ?zi = "smp (fmt2 ''item_context_'' u i) (sample_shape (Categorical icp))"
  from MMPF_rate_raises [OF assms(1), of il ucl icl u i ?zu ?zi] assms(2,3)
  show ?thesis
    by (auto simp add: MMPF_model_rating_def pbind_def [of py_next] py_next_def
        pbind_pyro_sample pbind_def [of "lift _"] lift_def names_def unobserved_def)
qed

lemma MMPF_model_plain:
  assumes hp: "mmpf_hyperparams slf = Some hp"
    and pos: "0 < num_contexts hp" "0 < num_context_latents hp" "0 < num_users hp"
      "0 < num_items hp" "0 < num_latents hp"
    and n: "0 < num_nonmissing hp" and ne: "ratings \<noteq> []" and r: "scalar_latents smp"
  shows "\<exists>w'. MMPF_model False smp slf ratings w = (Inl IndexError, w') \<and>
           consumed w' = consumed w @ take 1 ratings \<and>
           names w' = names w @ MMPF_model_latent_names hp @
             ''ratings'' # rating_site_names (take 1 ratings) \<and>
           (unobserved w \<longrightarrow> unobserved w')"
proof -
  from MMPF_model_unfold [OF hp pos, of w smp ratings] r
  obtain ucp icp ul il ucl icl w5 where u: "consumed w5 = consumed w"
    "names w5 = names w @ MMPF_model_latent_names hp"
    "unobserved w \<longrightarrow> unobserved w5"
    "unbound_or_scalar ul" "ul \<noteq> None"
    "MMPF_model False smp slf ratings w =
       plate_loop False ''ratings'' (num_nonmissing hp)
         (\<lambda>j _. MMPF_model_rating False smp ucp icp ul il ucl icl) () (w5\<lparr>itr := ratings\<rparr>)"
    by blast
  let ?w6 = "w5\<lparr>itr := ratings\<rparr>"
  let ?w7 = "?w6\<lparr>trace := trace ?w6 @ [Site ''ratings'' (Subsample (num_nonmissing hp))
      (Vector (map real [0..<num_nonmissing hp])) False]\<rparr>"
  from ne obtain x rest where rs: "ratings = x # rest" by (cases ratings) auto
  obtain a b c where x: "x = (a, b, c)" by (cases x)
  from n have upt: "[0..<num_nonmissing hp] = 0 # [1..<num_nonmissing hp]"
    by (simp add: upt_conv_Cons)
  from rs x have i7: "itr ?w7 = (a, b, c) # rest" by simp
  from MMPF_model_rating_raises [OF u(4,5) i7, of smp ucp icp il ucl icl]
  obtain w' where w': "MMPF_model_rating False smp ucp icp ul il ucl icl ?w7 = (Inl IndexError, w')"
    "consumed w' = consumed ?w7 @ [(a, b, c)]"
    "names w' = names ?w7 @ [fmt2 ''user_context_'' a b, fmt2 ''item_context_'' a b]"
    "unobserved ?w7 \<longrightarrow> unobserved w'"
    by blast
  from u(6) n upt w'(1) have "MMPF_model False smp slf ratings w = (Inl IndexError, w')"
    by (simp add: plate_loop_plain)
  moreover from u(3) have "unobserved w \<longrightarrow> unobserved ?w7" by (simp add: unobserved_def)
  ultimately show ?thesis
    using u(1,2) w'(2,3,4) rs x by (simp add: names_def rating_site_names_def)
qed

lemma MMPF_model_traced:
  assumes hp: "mmpf_hyperparams slf = Some hp"
    and pos: "0 < num_contexts hp" "0 < num_context_latents hp" "0 < num_users hp"
      "0 < num_items hp" "0 < num_latents hp"
    and n: "0 < num_nonmissing hp" and ne: "ratings \<noteq> []" and r: "scalar_latents smp"
    and fresh: "trace w = []"
  shows "MMPF_model True smp slf ratings w = MMPF_model False smp slf ratings w"
proof -
  from MMPF_model_plain [OF hp pos n ne r, of w]
  obtain w' where p: "MMPF_model False smp slf ratings w = (Inl IndexError, w')"
    "names w' = names w @ MMPF_model_latent_names hp @
       ''ratings'' # rating_site_names (take 1 ratings)"
    by blast
  have "distinct (rating_pairs (take 1 ratings))"
    by (cases ratings) (simp_all add: rating_pairs_def)
  from fresh p(2) distinct_model_names [OF this, of hp] have "distinct (names w')"
    by (simp add: names_def)
  from sim_step [OF MMPF_model_sim p(1) this] p(1) show ?thesis by simp
qed

section \<open>Ranks along a step of MMPF\<close>

lemma scalar_py_next: "preserved scalar_state py_next"
  by (simp add: preserved_def py_next_def scalar_state_def split: list.splits)

lemma scalar_py_iter: "preserved scalar_state (py_iter rs)"
  by (simp add: preserved_def py_iter_def scalar_state_def)

lemma scalar_pyro_param:
  assumes "scalar_param k \<longrightarrow> shape_of init = Dim0"
  shows "preserved scalar_state (pyro_param k init)"
  using assms
  by (auto simp add: preserved_def pyro_param_def scalar_state_def split: option.splits)

lemma scalar_pyro_sample:
  assumes "\<not> latent_site nm"
  shows "preserved scalar_state (pyro_sample tr smp nm d)"
  using assms
  by (auto simp add: preserved_def pyro_sample_def scalar_state_def Let_def)

lemma scalar_pyro_plate:
  assumes "\<not> latent_site nm"
  shows "preserved scalar_state (pyro_plate tr nm n)"
  using assms
  by (auto simp add: preserved_def pyro_plate_def scalar_state_def Let_def)

lemma scalar_gamma_site:
  assumes k1: "scalar_param k1" and k2: "scalar_param k2"
    and F: "\<And>x. preserved scalar_state (F x)"
  shows "preserved scalar_state
           (pbind (pyro_param k1 (Scalar a)) (\<lambda>q1.
            pbind (pyro_param k2 (Scalar b)) (\<lambda>q2.
            pbind (pyro_sample tr (draw g) nm (Gamma q1 q2)) F)))"
proof -
  have step: "scalar_state (snd (pbind (pyro_sample tr (draw g) nm (Gamma q1 q2)) F w))"
    if "scalar_state w" "shape_of q1 = Dim0" "shape_of q2 = Dim0" for w q1 q2
  proof (cases "taken tr nm w")
    case True
    with that(1) show ?thesis by (simp add: pbind_def pyro_sample_def)
  next
    case False
    let ?v = "draw g nm (sample_shape (Gamma q1 q2))"
    let ?w1 = "w\<lparr>trace := trace w @ [Site nm (Gamma q1 q2) ?v False]\<rparr>"
    from that(2,3) have "shape_of ?v = Dim0" by (simp add: draw_def)
    with that(1) have "scalar_state ?w1" by (auto simp add: scalar_state_def)
    with F [of ?v] have "scalar_state (snd (F ?v ?w1))" unfolding preserved_def by blast
    with False show ?thesis by (simp add: pbind_pyro_sample)
  qed
  have p: "\<exists>q w1. pyro_param k (Scalar c) w = (Inr q, w1) \<and> shape_of q = Dim0 \<and> scalar_state w1"
    if "scalar_state w" "scalar_param k" for w k c
    using that
    by (cases "store w k") (auto simp add: pyro_param_def scalar_state_def)
  have "scalar_state (snd (pbind (pyro_param k1 (Scalar a)) (\<lambda>q1.
            pbind (pyro_param k2 (Scalar b)) (\<lambda>q2.
            pbind (pyro_sample tr (draw g) nm (Gamma q1 q2)) F)) w))"
    if w: "scalar_state w" for w
  proof -
    from p [OF w k1, of a] obtain q1 w1 where q1: "pyro_param k1 (Scalar a) w = (Inr q1, w1)"
      "shape_of q1 = Dim0" "scalar_state w1"
      by blast
    from p [OF q1(3) k2, of b] obtain q2 w2 where q2: "pyro_param k2 (Scalar b) w1 = (Inr q2, w2)"
      "shape_of q2 = Dim0" "scalar_state w2"
      by blast
    from step [OF q2(3) q1(2) q2(2)] q1(1) q2(1) show ?thesis
      by (simp add: pbind_def [of "pyro_param _ _"])
  qed
  then show ?thesis by (simp add: preserved_def)
qed

lemmas scalar_intros = scalar_gamma_site preserved_intros scalar_py_next scalar_py_iter
  scalar_pyro_param scalar_pyro_sample scalar_pyro_plate

lemma latent_site_simps:
  "digit_free p \<Longrightarrow> latent_site (fmt1 p a) = (p = ''user_mean_'' \<or> p = ''user_latents_'')"
  "digit_free p \<Longrightarrow> latent_site (fmt2 p a b) = (p = ''user_mean_'' \<or> p = ''user_latents_'')"
  "digit_free p \<Longrightarrow> latent_site p = (p = ''user_mean_'' \<or> p = ''user_latents_'')"
  by (simp_all add: latent_site_def skeleton_fmt1 skeleton_fmt2 skeleton_literal)

lemma MMPF_guide_preserves_scalar:
  "preserved scalar_state (MMPF_guide tr (draw g) slf ratings)"
  unfolding MMPF_guide_def MMPF_guide_latents_def MMPF_guide_contexts_def MMPF_guide_user_def
    MMPF_guide_item_def MMPF_guide_rating_def plate_loop_def
  apply (intro scalar_intros)
                      apply (simp_all add: latent_site_simps digit_free_def is_digit_def)
           apply (simp_all add: scalar_param_def fmt1_def fmt2_def)
  done

lemma replay_scalar_latents:
  assumes "scalar_state w1"
  shows "scalar_latents (replay (trace w1) (draw g))"
proof -
  have "\<exists>x. replay (trace w1) (draw g) nm Dim0 = Scalar x" if "latent_site nm" for nm
  proof (cases "find (\<lambda>s. site_name s = nm) (trace w1)")
    case None
    then show ?thesis by (simp add: replay_def draw_def)
  next
    case (Some s)
    then have "s \<in> set (trace w1)" "site_name s = nm"
      by (auto simp add: find_Some_iff)
    with assms that have "shape_of (site_value s) = Dim0"
      unfolding scalar_state_def by blast
    then obtain x where "site_value s = Scalar x" by (cases "site_value s") simp_all
    with Some show ?thesis by (simp add: replay_def)
  qed
  moreover have "latent_site (fmt1 ''user_mean_'' u)" "latent_site (fmt2 ''user_latents_'' u k)"
    for u k
    by (simp_all add: latent_site_simps digit_free_def is_digit_def)
  ultimately show ?thesis unfolding scalar_latents_def by blast
qed

section \<open>One step of training, and the training loop\<close>

text \<open>
  A step of \<^verbatim>\<open>MMPF\<close> on enough ratings with pairwise distinct pairs, from an empty
  parameter store: the guide returns after it has taken \<^verbatim>\<open>num_nonmissing\<close> entries, and
  the model raises at the first entry.
\<close>

lemma MMPF_svi_step_enough:
  assumes hp: "mmpf_hyperparams slf = Some hp"
    and pos: "0 < num_contexts hp" "0 < num_context_latents hp" "0 < num_users hp"
      "0 < num_items hp" "0 < num_latents hp"
    and fresh: "\<forall>k. store w k = None"
    and n: "0 < num_nonmissing hp" "num_nonmissing hp \<le> length ratings"
    and pairs: "distinct (rating_pairs (take (num_nonmissing hp) ratings))"
  shows "\<exists>w1 w2.
           MMPF_guide True (draw (rng sub s)) slf ratings (w\<lparr>trace := []\<rparr>) = (Inr (), w1) \<and>
           consumed w1 = consumed w @ take (num_nonmissing hp) ratings \<and>
           itr w1 = drop (num_nonmissing hp) ratings \<and>
           names w1 = MMPF_guide_latent_names hp @
             ''ratings'' # rating_site_names (take (num_nonmissing hp) ratings) \<and>
           MMPF_model True (replay (trace w1) (draw (rng sub s))) slf ratings
             (w1\<lparr>trace := []\<rparr>) = (Inl IndexError, w2) \<and>
           consumed w2 = consumed w1 @ take 1 ratings \<and>
           names w2 = MMPF_model_latent_names hp @
             ''ratings'' # rating_site_names (take 1 ratings) \<and>
           unobserved w2 \<and>
           svi_step sub s (MMPF_model_call slf) (MMPF_guide_call slf) (Args1 ratings) w =
             (Inl IndexError, w2)"
proof -
  let ?g = "draw (rng sub s)"
  let ?w0 = "w\<lparr>trace := []\<rparr>"
  from fresh have s0: "scalar_state ?w0" by (simp add: scalar_state_def)
  from MMPF_guide_plain [OF hp pos, of ?g ?w0 ratings] n
  obtain w1 where p: "MMPF_guide False ?g slf ratings ?w0 = (Inr (), w1)"
    "consumed w1 = consumed ?w0 @ take (num_nonmissing hp) ratings"
    "itr w1 = drop (num_nonmissing hp) ratings"
    "names w1 = names ?w0 @ MMPF_guide_latent_names hp @
       ''ratings'' # rating_site_names (take (num_nonmissing hp) ratings)"
    by auto
  from MMPF_guide_traced [OF hp pos _ pairs, of ?w0 ?g] p(1)
  have t: "MMPF_guide True ?g slf ratings ?w0 = (Inr (), w1)" by simp
  from preserved_step [OF MMPF_guide_preserves_scalar s0 t] have s1: "scalar_state w1" .
  have s3: "scalar_latents (replay (trace w1) ?g)"
    by (rule replay_scalar_latents [OF s1])
  let ?w1 = "w1\<lparr>trace := []\<rparr>"
  from n have ne: "ratings \<noteq> []" by auto
  from MMPF_model_plain [OF hp pos n(1) ne s3, of ?w1]
  obtain w2 where m: "MMPF_model False (replay (trace w1) ?g) slf ratings ?w1 = (Inl IndexError, w2)"
    "consumed w2 = consumed ?w1 @ take 1 ratings"
    "names w2 = names ?w1 @ MMPF_model_latent_names hp @
       ''ratings'' # rating_site_names (take 1 ratings)"
    "unobserved ?w1 \<longrightarrow> unobserved w2"
    by blast
  from MMPF_model_traced [OF hp pos n(1) ne s3, of ?w1] m(1)
  have tm: "MMPF_model True (replay (trace w1) ?g) slf ratings ?w1 = (Inl IndexError, w2)"
    by simp
  from t tm have "svi_step sub s (MMPF_model_call slf) (MMPF_guide_call slf) (Args1 ratings) w =
      (Inl IndexError, w2)"
    by (simp add: svi_step_def MMPF_guide_call_def MMPF_model_call_def leaving_generator_def)
  with t tm p m show ?thesis by (simp add: names_def unobserved_def)
qed

text \<open>
  A step of \<^verbatim>\<open>MMPF\<close> on fewer ratings than \<^verbatim>\<open>num_nonmissing\<close>: the guide raises
  \<^verbatim>\<open>StopIteration\<close> after it has taken every entry, and the step ends there.
\<close>

lemma MMPF_svi_step_short:
  assumes hp: "mmpf_hyperparams slf = Some hp"
    and pos: "0 < num_contexts hp" "0 < num_context_latents hp" "0 < num_users hp"
      "0 < num_items hp" "0 < num_latents hp"
    and len: "length ratings < num_nonmissing hp"
    and pairs: "distinct (rating_pairs ratings)"
  shows "\<exists>w1 w'.
           MMPF_guide_latents True (draw (rng sub s)) hp (w\<lparr>trace := []\<rparr>) = (Inr (), w1) \<and>
           (\<forall>k v. store w1 k = Some v \<longrightarrow> store w' k = Some v) \<and>
           MMPF_guide True (draw (rng sub s)) slf ratings (w\<lparr>trace := []\<rparr>) =
             (Inl StopIteration, w') \<and>
           consumed w' = consumed w @ ratings \<and>
           svi_step sub s (MMPF_model_call slf) (MMPF_guide_call slf) (Args1 ratings) w =
             (Inl RuntimeError, w')"
proof -
  let ?g = "draw (rng sub s)"
  let ?w0 = "w\<lparr>trace := []\<rparr>"
  from len have t: "take (num_nonmissing hp) ratings = ratings" by simp
  from MMPF_guide_plain [OF hp pos, of ?g ?w0 ratings] len
  obtain w1 w' where p: "MMPF_guide_latents False ?g hp ?w0 = (Inr (), w1)"
    "MMPF_guide False ?g slf ratings ?w0 = (Inl StopIteration, w')"
    "consumed w' = consumed ?w0 @ take (num_nonmissing hp) ratings"
    "\<forall>k v. store w1 k = Some v \<longrightarrow> store w' k = Some v"
    by auto
  from pairs t have "distinct (rating_pairs (take (num_nonmissing hp) ratings))" by simp
  from MMPF_guide_traced [OF hp pos _ this, of ?w0 ?g] p(2)
  have g: "MMPF_guide True ?g slf ratings ?w0 = (Inl StopIteration, w')" by simp
  from MMPF_guide_latents_traced [OF pos, of ?w0 ?g] p(1)
  have l: "MMPF_guide_latents True ?g hp ?w0 = (Inr (), w1)" by simp
  from g have "svi_step sub s (MMPF_model_call slf) (MMPF_guide_call slf) (Args1 ratings) w =
      (Inl RuntimeError, w')"
    by (simp add: svi_step_def MMPF_guide_call_def leaving_generator_def)
  with g l p t show ?thesis by simp
qed

lemma training_loop_first:
  assumes "0 < num_steps" and "step 0 w = (Inl e, w')"
  shows "training_loop step [0..<num_steps] [] w = (Inl e, w')"
proof -
  from assms(1) have "[0..<num_steps] = 0 # [1..<num_steps]" by (simp add: upt_conv_Cons)
  with assms(2) show ?thesis by simp
qed

lemma MMPF_fit_zero: "MMPF_fit sub slf ratings 0 w = (Inr [], w)"
  by (simp add: MMPF_fit_def)

section \<open>What the guides leave in the store\<close>

lemma MMPF_guide_after_latents:
  assumes hp: "mmpf_hyperparams slf = Some hp"
  shows "(\<forall>k v. store (snd (MMPF_guide_latents tr smp hp w)) k = Some v \<longrightarrow>
            store (snd (MMPF_guide tr smp slf ratings w)) k = Some v) \<and>
         (\<exists>ys. trace (snd (MMPF_guide tr smp slf ratings w)) =
            trace (snd (MMPF_guide_latents tr smp hp w)) @ ys)"
proof (cases "MMPF_guide_latents tr smp hp w")
  case (Pair r w1)
  let ?K = "pbind (py_iter ratings) (\<lambda>_.
     plate_loop tr ''ratings'' (num_nonmissing hp) (\<lambda>j _. MMPF_guide_rating tr smp hp) ())"
  show ?thesis
  proof (cases r)
    case (Inl e)
    with Pair hp have "MMPF_guide tr smp slf ratings w = (Inl e, w1)"
      by (simp add: MMPF_guide_def subscriptable_def pbind_lift_Inr
          pbind_def [of "MMPF_guide_latents _ _ _"])
    with Pair show ?thesis by simp
  next
    case (Inr x)
    with Pair hp have e: "MMPF_guide tr smp slf ratings w = ?K w1"
      by (simp add: MMPF_guide_def subscriptable_def pbind_lift_Inr
          pbind_def [of "MMPF_guide_latents _ _ _"])
    have g: "grows ?K"
      unfolding grows_def MMPF_guide_rating_def plate_loop_def by (intro allI grows_intros)
    obtain r2 w2 where k: "?K w1 = (r2, w2)" by (cases "?K w1")
    from grows_step [OF g k] e k Pair show ?thesis by simp
  qed
qed

lemma MMPF_guide_factors_grows:
  "grows (pbind (MMPF_guide_contexts tr smp ''user_contexts_loop'' ''user_context_latents_loop_''
              ''q_aucv_'' ''q_bucv_'' ''user_context_latents_'' hp) (\<lambda>_.
     pbind (MMPF_guide_contexts tr smp ''item_contexts_loop'' ''item_context_latents_loop_''
              ''q_aicv_'' ''q_bicv_'' ''item_context_latents_'' hp) (\<lambda>_.
     pbind (plate_loop tr ''users_loop'' (num_users hp)
              (\<lambda>u _. MMPF_guide_user tr smp hp u) ()) (\<lambda>_.
     plate_loop tr ''items_loop'' (num_items hp) (\<lambda>i _. MMPF_guide_item tr smp hp i) ()))))"
  unfolding grows_def MMPF_guide_contexts_def MMPF_guide_user_def MMPF_guide_item_def
    plate_loop_def
  by (intro allI grows_intros)

lemma first_site_free:
  assumes "tr \<longrightarrow> trace w = []"
  shows "\<not> taken tr ''user_context_prob'' (w\<lparr>store := st\<rparr>)"
  using assms by (cases tr) (simp_all add: taken_def names_def)

lemma second_site_free:
  assumes "tr \<longrightarrow> trace w = []"
  shows "\<not> taken tr ''item_context_prob''
           (w\<lparr>store := st, trace := trace w @ [Site ''user_context_prob'' d v False]\<rparr>)"
  using assms by (cases tr) (simp_all add: taken_def names_def)

lemma MMPF_guide_latents_conc:
  assumes "store w ''q_user_context_conc'' = None" and "store w ''q_item_context_conc'' = None"
    and fresh: "tr \<longrightarrow> trace w = []"
  shows "\<exists>v1 v2 rest.
     store (snd (MMPF_guide_latents tr smp hp w)) ''q_user_context_conc'' =
       Some (ones (num_context_latents hp)) \<and>
     store (snd (MMPF_guide_latents tr smp hp w)) ''q_item_context_conc'' =
       Some (ones (num_context_latents hp)) \<and>
     trace (snd (MMPF_guide_latents tr smp hp w)) = trace w @
       Site ''user_context_prob'' (Dirichlet (ones (num_context_latents hp))) v1 False #
       Site ''item_context_prob'' (Dirichlet (ones (num_context_latents hp))) v2 False # rest"
proof -
  let ?c = "ones (num_context_latents hp)"
  let ?v1 = "smp ''user_context_prob'' (sample_shape (Dirichlet ?c))"
  let ?v2 = "smp ''item_context_prob'' (sample_shape (Dirichlet ?c))"
  let ?st = "(store w)(''q_user_context_conc'' \<mapsto> ?c, ''q_item_context_conc'' \<mapsto> ?c)"
  let ?w3 = "w\<lparr>store := ?st,
               trace := trace w @ [Site ''user_context_prob'' (Dirichlet ?c) ?v1 False]\<rparr>"
  let ?w4 = "w\<lparr>store := ?st,
               trace := trace w @ [Site ''user_context_prob'' (Dirichlet ?c) ?v1 False,
                                   Site ''item_context_prob'' (Dirichlet ?c) ?v2 False]\<rparr>"
  let ?rest = "pbind (MMPF_guide_contexts tr smp ''user_contexts_loop''
              ''user_context_latents_loop_'' ''q_aucv_'' ''q_bucv_'' ''user_context_latents_'' hp) (\<lambda>_.
     pbind (MMPF_guide_contexts tr smp ''item_contexts_loop'' ''item_context_latents_loop_''
              ''q_aicv_'' ''q_bicv_'' ''item_context_latents_'' hp) (\<lambda>_.
     pbind (plate_loop tr ''users_loop'' (num_users hp)
              (\<lambda>u _. MMPF_guide_user tr smp hp u) ()) (\<lambda>_.
     plate_loop tr ''items_loop'' (num_items hp) (\<lambda>i _. MMPF_guide_item tr smp hp i) ())))"
  note free = first_site_free [OF fresh, of ?st]
    second_site_free [OF fresh, where st = ?st and d = "Dirichlet ?c" and v = ?v1]
  from assms(1,2) free have eq: "MMPF_guide_latents tr smp hp w = ?rest ?w4"
    by (simp add: MMPF_guide_latents_def pbind_pyro_param pbind_pyro_sample)
  obtain r w' where r: "?rest ?w4 = (r, w')" by (cases "?rest ?w4")
  from grows_step [OF MMPF_guide_factors_grows r]
  have "store w' ''q_user_context_conc'' = Some ?c" "store w' ''q_item_context_conc'' = Some ?c"
    and "\<exists>ys. trace w' = trace ?w4 @ ys"
    by simp_all
  with eq r show ?thesis by auto
qed

lemma MMPF_guide_context_probs:
  assumes hp: "mmpf_hyperparams slf = Some hp"
    and "store w ''q_user_context_conc'' = None" and "store w ''q_item_context_conc'' = None"
    and fresh: "tr \<longrightarrow> trace w = []"
  shows "\<exists>v1 v2 rest.
     store (snd (MMPF_guide tr smp slf ratings w)) ''q_user_context_conc'' =
       Some (ones (num_context_latents hp)) \<and>
     store (snd (MMPF_guide tr smp slf ratings w)) ''q_item_context_conc'' =
       Some (ones (num_context_latents hp)) \<and>
     trace (snd (MMPF_guide tr smp slf ratings w)) = trace w @
       Site ''user_context_prob'' (Dirichlet (ones (num_context_latents hp))) v1 False #
       Site ''item_context_prob'' (Dirichlet (ones (num_context_latents hp))) v2 False # rest"
proof -
  from MMPF_guide_latents_conc [OF assms(2,3) fresh, of smp hp]
  obtain v1 v2 rest where c:
    "store (snd (MMPF_guide_latents tr smp hp w)) ''q_user_context_conc'' =
       Some (ones (num_context_latents hp))"
    "store (snd (MMPF_guide_latents tr smp hp w)) ''q_item_context_conc'' =
       Some (ones (num_context_latents hp))"
    "trace (snd (MMPF_guide_latents tr smp hp w)) = trace w @
       Site ''user_context_prob'' (Dirichlet (ones (num_context_latents hp))) v1 False #
       Site ''item_context_prob'' (Dirichlet (ones (num_context_latents hp))) v2 False # rest"
    by blast
  from MMPF_guide_after_latents [OF hp, of tr smp w ratings] c
  obtain ys where "store (snd (MMPF_guide tr smp slf ratings w)) ''q_user_context_conc'' =
       Some (ones (num_context_latents hp))"
    "store (snd (MMPF_guide tr smp slf ratings w)) ''q_item_context_conc'' =
       Some (ones (num_context_latents hp))"
    "trace (snd (MMPF_guide tr smp slf ratings w)) =
       trace (snd (MMPF_guide_latents tr smp hp w)) @ ys"
    by blast
  with c(3) show ?thesis by simp
qed

lemma MMPF_model_tail_grows:
  "grows (pbind (context_latents_loop tr smp ''user_contexts'' ''user_context_latents_'' hp)
       (\<lambda>user_context_latents.
     pbind (context_latents_loop tr smp ''item_contexts'' ''item_context_latents_'' hp)
       (\<lambda>item_context_latents.
     pbind (MMPF_model_users tr smp hp) (\<lambda>user_latents.
     pbind (MMPF_model_items tr smp hp) (\<lambda>item_latents.
     pbind (py_iter ratings) (\<lambda>_.
     plate_loop tr ''ratings'' (num_nonmissing hp) (\<lambda>j _.
       MMPF_model_rating tr smp ucp icp
         user_latents item_latents user_context_latents item_context_latents) ()))))))"
  unfolding grows_def context_latents_loop_def MMPF_model_users_def MMPF_model_items_def
    MMPF_model_rating_def plate_loop_def
  by (intro allI grows_intros)

lemma MMPF_model_context_probs:
  assumes hp: "mmpf_hyperparams slf = Some hp" and fresh: "tr \<longrightarrow> trace w = []"
  shows "\<exists>v1 v2 rest.
     trace (snd (MMPF_model tr smp slf ratings w)) = trace w @
       Site ''user_context_prob''
         (Dirichlet (scale (context_conc hp) (ones (num_contexts hp)))) v1 False #
       Site ''item_context_prob''
         (Dirichlet (scale (context_conc hp) (ones (num_contexts hp)))) v2 False # rest"
proof -
  let ?d = "Dirichlet (scale (context_conc hp) (ones (num_contexts hp)))"
  let ?ucp = "smp ''user_context_prob'' (sample_shape ?d)"
  let ?icp = "smp ''item_context_prob'' (sample_shape ?d)"
  let ?w2 = "w\<lparr>store := store w, trace := trace w @ [Site ''user_context_prob'' ?d ?ucp False,
      Site ''item_context_prob'' ?d ?icp False]\<rparr>"
  let ?tail = "pbind (context_latents_loop tr smp ''user_contexts'' ''user_context_latents_'' hp)
       (\<lambda>user_context_latents.
     pbind (context_latents_loop tr smp ''item_contexts'' ''item_context_latents_'' hp)
       (\<lambda>item_context_latents.
     pbind (MMPF_model_users tr smp hp) (\<lambda>user_latents.
     pbind (MMPF_model_items tr smp hp) (\<lambda>item_latents.
     pbind (py_iter ratings) (\<lambda>_.
     plate_loop tr ''ratings'' (num_nonmissing hp) (\<lambda>j _.
       MMPF_model_rating tr smp ?ucp ?icp
         user_latents item_latents user_context_latents item_context_latents) ())))))"
  from first_site_free [OF fresh, of "store w"] second_site_free [OF fresh, where st = "store w" and d = ?d and v = ?ucp]
  have free: "\<not> taken tr ''user_context_prob'' w"
    "\<not> taken tr ''item_context_prob''
       (w\<lparr>trace := trace w @ [Site ''user_context_prob'' ?d ?ucp False]\<rparr>)"
    by simp_all
  from hp free have e0: "MMPF_model tr smp slf ratings w = ?tail ?w2"
    by (simp add: MMPF_model_def subscriptable_def pbind_lift_Inr pbind_pyro_sample)
  obtain r w' where r: "?tail ?w2 = (r, w')" by (cases "?tail ?w2")
  from grows_step [OF MMPF_model_tail_grows r] obtain ys where "trace w' = trace ?w2 @ ys"
    by blast
  with e0 r show ?thesis by simp
qed

text \<open>Parameters that a plain run creates.\<close>

lemma pyro_param_creates:
  "\<exists>v w1. pyro_param nm init w = (Inr v, w1) \<and> store w1 nm \<noteq> None"
  by (simp add: pyro_param_def split: option.splits)

lemma creates_pyro_param:
  assumes "\<And>x. grows (f x)"
  shows "creates k (pbind (pyro_param k init) f)"
proof -
  have "store (snd (pbind (pyro_param k init) f w)) k \<noteq> None" for w
  proof -
    from pyro_param_creates [of k init w] obtain v w1 where
      p: "pyro_param k init w = (Inr v, w1)" "store w1 k \<noteq> None"
      by blast
    obtain r w2 where r: "f v w1 = (r, w2)" by (cases "f v w1")
    from grows_step [OF assms r] p(2) have "store w2 k \<noteq> None" by auto
    with p(1) r show ?thesis by (simp add: pbind_def)
  qed
  then show ?thesis by (simp add: creates_def)
qed

lemma creates_pbind_later:
  assumes "succeeds m" and "\<And>x. creates k (f x)"
  shows "creates k (pbind m f)"
proof -
  have "store (snd (pbind m f w)) k \<noteq> None" for w
  proof -
    from assms(1) obtain x w1 where "m w = (Inr x, w1)" unfolding succeeds_def by blast
    with assms(2) [of x] show ?thesis by (simp add: pbind_def creates_def)
  qed
  then show ?thesis by (simp add: creates_def)
qed

lemma creates_for_each:
  assumes "i \<in> set js" and "\<And>j acc. succeeds (body j acc)" and "\<And>j acc. grows (body j acc)"
    and "\<And>acc. creates k (body i acc)"
  shows "creates k (for_each js body acc)"
proof -
  have g: "grows (for_each js' body a)" for js' a
    using assms(3) unfolding grows_def by (intro allI preserved_for_each) blast
  have "store (snd (for_each js body acc w)) k \<noteq> None" for w
    using assms(1)
  proof (induction js arbitrary: acc w)
    case Nil
    then show ?case by simp
  next
    case (Cons j js)
    from assms(2) [of j acc] obtain a w1 where b: "body j acc w = (Inr a, w1)"
      unfolding succeeds_def by blast
    show ?case
    proof (cases "i = j")
      case True
      from assms(4) [of acc] have "store (snd (body i acc w)) k \<noteq> None"
        unfolding creates_def by blast
      with True b have "store w1 k \<noteq> None" by simp
      moreover obtain r w2 where r: "for_each js body a w1 = (r, w2)"
        by (cases "for_each js body a w1")
      moreover note grows_step [OF g r]
      ultimately show ?thesis using b by auto
    next
      case False
      with Cons.prems have "i \<in> set js" by simp
      from Cons.IH [OF this, of a w1] b show ?thesis by simp
    qed
  qed
  then show ?thesis by (simp add: creates_def)
qed

lemma creates_plate_loop:
  assumes "i < n" and "\<And>j acc. succeeds (body j acc)" and "\<And>j acc. grows (body j acc)"
    and "\<And>acc. creates k (body i acc)"
  shows "creates k (plate_loop False nm n body acc)"
proof -
  from assms(1) have n: "0 < n" and i: "i \<in> set [0..<n]" by simp_all
  from creates_for_each [of i "[0..<n]" body k acc, OF i assms(2,3,4)]
  show ?thesis by (simp add: creates_def plate_loop_plain [OF n])
qed

lemma grows_plate_loop:
  assumes "\<And>j acc. grows (body j acc)"
  shows "grows (plate_loop tr nm n body acc)"
  using assms unfolding grows_def plate_loop_def
  by (intro allI preserved_pbind preserved_for_each extends_pyro_plate) blast

lemma succeeds_plate_loop:
  assumes "0 < n" and "\<And>j acc. succeeds (body j acc)"
  shows "succeeds (plate_loop False nm n body acc)"
  unfolding plate_loop_def
  by (intro succeeds_pbind succeeds_pyro_plate succeeds_for_each assms)

lemma latent_draw_grows:
  "grows (pbind (pyro_param k1 i1) (\<lambda>q1. pbind (pyro_param k2 i2) (\<lambda>q2.
     pbind (pyro_sample tr smp nm (Gamma q1 q2)) (\<lambda>x. ret ()))))"
  unfolding grows_def by (intro allI grows_intros)

lemma latent_draw_succeeds:
  "succeeds (pbind (pyro_param k1 i1) (\<lambda>q1. pbind (pyro_param k2 i2) (\<lambda>q2.
     pbind (pyro_sample False smp nm (Gamma q1 q2)) (\<lambda>x. ret ()))))"
  by (intro succeeds_intros)

lemma MMPF_guide_item_creates:
  assumes "l < num_latents hp"
  shows "creates (fmt2 ''q_li1_'' i l) (MMPF_guide_item False smp hp i)"
  unfolding MMPF_guide_item_def
  apply (rule creates_pbind_later, rule succeeds_pyro_param)
  apply (rule creates_pbind_later, rule succeeds_pyro_param)
  apply (rule creates_pbind_later, rule succeeds_pyro_sample)
  apply (rule creates_plate_loop [where i = l])
     apply (rule assms)
    apply (rule latent_draw_succeeds)
   apply (rule latent_draw_grows)
  apply (rule creates_pyro_param)
  unfolding grows_def
  apply (intro allI grows_intros)
  done

lemma MMPF_guide_item_grows: "grows (MMPF_guide_item tr smp hp i)"
  unfolding grows_def MMPF_guide_item_def plate_loop_def
  by (intro allI grows_intros)

lemma MMPF_guide_item_succeeds:
  assumes "0 < num_latents hp"
  shows "succeeds (MMPF_guide_item False smp hp i)"
  unfolding MMPF_guide_item_def
  by (intro succeeds_pbind succeeds_plate_loop latent_draw_succeeds succeeds_pyro_param
      succeeds_pyro_sample assms)

lemma MMPF_guide_latents_creates_item_shape:
  assumes pos: "0 < num_contexts hp" "0 < num_context_latents hp" "0 < num_users hp"
    and "i < num_items hp" and "l < num_latents hp"
  shows "creates (fmt2 ''q_li1_'' i l) (MMPF_guide_latents False smp hp)"
proof -
  from assms(5) have k: "0 < num_latents hp" by simp
  from assms(4) have n: "0 < num_items hp" by simp
  show ?thesis
    unfolding MMPF_guide_latents_def
    apply (rule creates_pbind_later, rule succeeds_pyro_param)
    apply (rule creates_pbind_later, rule succeeds_pyro_param)
    apply (rule creates_pbind_later, rule succeeds_pyro_sample)
    apply (rule creates_pbind_later, rule succeeds_pyro_sample)
    apply (rule creates_pbind_later)
     apply (rule logs_succeeds [OF MMPF_guide_contexts_logs [OF pos(1,2)]])
    apply (rule creates_pbind_later)
     apply (rule logs_succeeds [OF MMPF_guide_contexts_logs [OF pos(1,2)]])
    apply (rule creates_pbind_later)
     apply (rule logs_succeeds [OF MMPF_guide_users_logs [OF pos(3) k]])
    apply (rule creates_plate_loop [where i = i])
       apply (rule assms(4))
      apply (rule MMPF_guide_item_succeeds [OF k])
     apply (rule MMPF_guide_item_grows)
    apply (rule MMPF_guide_item_creates [OF assms(5)])
    done
qed

text \<open>The value of the parameters named \<^verbatim>\<open>q_li1_...\<close>.\<close>

lemma item_shapes_pyro_param:
  assumes "take 6 k = ''q_li1_'' \<longrightarrow> init = Scalar c"
  shows "preserved (item_shapes c) (pyro_param k init)"
  using assms
  by (auto simp add: preserved_def pyro_param_def item_shapes_def split: option.splits)

lemma item_shapes_pyro_sample: "preserved (item_shapes c) (pyro_sample tr smp nm d)"
  by (simp add: preserved_def pyro_sample_def item_shapes_def Let_def)

lemma item_shapes_pyro_plate: "preserved (item_shapes c) (pyro_plate tr nm n)"
  by (simp add: preserved_def pyro_plate_def item_shapes_def Let_def)

lemmas item_shape_intros = preserved_intros item_shapes_pyro_param item_shapes_pyro_sample
  item_shapes_pyro_plate

lemma MMPF_guide_latents_keeps_item_shapes:
  "preserved (item_shapes (c_u hp)) (MMPF_guide_latents tr smp hp)"
  unfolding MMPF_guide_latents_def MMPF_guide_contexts_def MMPF_guide_user_def
    MMPF_guide_item_def plate_loop_def
  by (intro item_shape_intros) (simp_all add: fmt1_def fmt2_def)

lemma created_with_shape:
  assumes "creates k m" and "preserved (item_shapes c) m" and "item_shapes c w"
    and "take 6 k = ''q_li1_''"
  shows "store (snd (m w)) k = Some (Scalar c)"
proof -
  from assms(1) obtain t where t: "store (snd (m w)) k = Some t"
    unfolding creates_def by blast
  from assms(2,3) have "item_shapes c (snd (m w))" unfolding preserved_def by blast
  with t assms(4) show ?thesis unfolding item_shapes_def by blast
qed

section \<open>BPF: the guide and the model\<close>

lemma BPF_model_unbound: "BPF_model tr smp slf ratings w = (Inl UnboundLocalError, w)"
  by (simp add: BPF_model_def pbind_def lift_def read_local_def)

lemma BPF_svi_step_raises:
  "\<exists>e w'. svi_step sub s (BPF_model_call slf) (BPF_guide_call slf) (Args2 ratings hp) w = (Inl e, w')"
proof (cases "BPF_guide_call slf True (draw (rng sub s)) (Args2 ratings hp) (w\<lparr>trace := []\<rparr>)")
  case (Pair r w1)
  then show ?thesis
    by (cases r) (simp_all add: svi_step_def BPF_model_call_def raise_def)
qed

text \<open>
  The traced run of the guide: the plate of line 59 and the site of line 65 have one
  name, so the first pass through line 65 raises.
\<close>

lemma BPF_latent_draw_taken:
  assumes "''user_latents'' \<in> set (names w)"
  shows "\<exists>w'. pbind (pyro_param k1 i1) (\<lambda>q1. pbind (pyro_param k2 i2) (\<lambda>q2.
           pbind (pyro_sample True smp ''user_latents'' (Gamma q1 q2)) F)) w =
         (Inl RuntimeError, w')"
  using assms
  by (auto simp add: pbind_def pyro_param_def pyro_sample_def taken_def names_def
      split: option.splits)

lemma BPF_user_latents_plate:
  assumes "''user_latents'' \<notin> set (names w)"
  shows "\<exists>w'. plate_loop True ''user_latents'' n (\<lambda>l _.
           pbind (pyro_param (k1 l) i1) (\<lambda>q1. pbind (pyro_param (k2 l) i2) (\<lambda>q2.
           pbind (pyro_sample True smp ''user_latents'' (Gamma q1 q2)) F))) () w =
         (Inl (if 0 < n then RuntimeError else ZeroDivisionError), w')"
proof (cases "0 < n")
  case True
  let ?w1 = "w\<lparr>trace := trace w @
      [Site ''user_latents'' (Subsample n) (Vector (map real [0..<n])) False]\<rparr>"
  have "''user_latents'' \<in> set (names ?w1)" by (simp add: names_def)
  from BPF_latent_draw_taken [OF this, of "k1 0" i1 "k2 0" i2 smp F]
  obtain w' where "pbind (pyro_param (k1 0) i1) (\<lambda>q1. pbind (pyro_param (k2 0) i2) (\<lambda>q2.
           pbind (pyro_sample True smp ''user_latents'' (Gamma q1 q2)) F)) ?w1 =
         (Inl RuntimeError, w')"
    by blast
  with True assms show ?thesis
    by (simp add: plate_loop_def pbind_def [of "pyro_plate _ _ _"] pyro_plate_def taken_def
        Let_def upt_conv_Cons)
next
  case False
  with assms show ?thesis
    by (simp add: plate_loop_def pbind_def pyro_plate_def taken_def Let_def)
qed

lemma BPF_guide_user_traced:
  assumes "''user_mean'' \<notin> set (names w)" and "''user_latents'' \<notin> set (names w)"
  shows "\<exists>w'. BPF_guide_user True smp hp u w =
           (Inl (if 0 < num_latents hp then RuntimeError else ZeroDivisionError), w')"
proof -
  obtain q1 w1 where p1: "pyro_param (fmt1 ''q_au_'' u) (Scalar (a_u hp)) w = (Inr q1, w1)"
    "names w1 = names w"
    by (cases "store w (fmt1 ''q_au_'' u)") (simp_all add: pyro_param_def names_def)
  obtain q2 w2 where p2: "pyro_param (fmt1 ''q_bu_'' u) (Scalar (b_u hp)) w1 = (Inr q2, w2)"
    "names w2 = names w1"
    by (cases "store w1 (fmt1 ''q_bu_'' u)") (simp_all add: pyro_param_def names_def)
  let ?v = "smp ''user_mean'' (sample_shape (Gamma q1 q2))"
  let ?w3 = "w2\<lparr>trace := trace w2 @ [Site ''user_mean'' (Gamma q1 q2) ?v False]\<rparr>"
  from assms p1(2) p2(2) have f: "\<not> taken True ''user_mean'' w2"
    and n3: "''user_latents'' \<notin> set (names ?w3)"
    by (simp_all add: taken_def names_def)
  from BPF_user_latents_plate [OF n3, of "num_latents hp" "\<lambda>l. fmt2 ''q_lu1_'' u l"
      "Scalar (c_u hp)" "\<lambda>l. fmt2 ''q_lu2_'' u l" "Scalar 1" smp "\<lambda>x. ret ()"]
  obtain w' where "plate_loop True ''user_latents'' (num_latents hp) (\<lambda>l _.
       pbind (pyro_param (fmt2 ''q_lu1_'' u l) (Scalar (c_u hp))) (\<lambda>q_lu1.
       pbind (pyro_param (fmt2 ''q_lu2_'' u l) (Scalar 1)) (\<lambda>q_lu2.
       pbind (pyro_sample True smp ''user_latents'' (Gamma q_lu1 q_lu2)) (\<lambda>user_latents.
       ret ())))) () ?w3 =
     (Inl (if 0 < num_latents hp then RuntimeError else ZeroDivisionError), w')"
    by blast
  with p1(1) p2(1) f show ?thesis
    by (simp add: BPF_guide_user_def pbind_Inr pbind_pyro_sample)
qed

lemma BPF_guide_traced:
  assumes hp: "(if h = None then bpf_hyperparams slf else h) = Some hp" and fresh: "trace w = []"
  shows "\<exists>w'. BPF_guide True smp slf ratings h w =
           (Inl (if 0 < num_users hp \<and> 0 < num_latents hp then RuntimeError
                 else ZeroDivisionError), w') \<and>
         plate_loop True ''users_loop'' (num_users hp) (\<lambda>u _. BPF_guide_user True smp hp u) () w =
           (Inl (if 0 < num_users hp \<and> 0 < num_latents hp then RuntimeError
                 else ZeroDivisionError), w')"
proof -
  let ?users = "plate_loop True ''users_loop'' (num_users hp)
      (\<lambda>u _. BPF_guide_user True smp hp u) ()"
  let ?w1 = "w\<lparr>trace := trace w @ [Site ''users_loop'' (Subsample (num_users hp))
      (Vector (map real [0..<num_users hp])) False]\<rparr>"
  have "\<exists>w'. ?users w = (Inl (if 0 < num_users hp \<and> 0 < num_latents hp then RuntimeError
                 else ZeroDivisionError), w')"
  proof (cases "0 < num_users hp")
    case True
    from fresh have "''user_mean'' \<notin> set (names ?w1)" "''user_latents'' \<notin> set (names ?w1)"
      by (simp_all add: names_def)
    from BPF_guide_user_traced [OF this, of smp hp 0]
    obtain w' where "BPF_guide_user True smp hp 0 ?w1 =
        (Inl (if 0 < num_latents hp then RuntimeError else ZeroDivisionError), w')"
      by blast
    with True fresh show ?thesis
      by (simp add: plate_loop_def pbind_def [of "pyro_plate _ _ _"] pyro_plate_def Let_def
          upt_conv_Cons)
  next
    case False
    with fresh show ?thesis
      by (simp add: plate_loop_def pbind_def pyro_plate_def Let_def)
  qed
  then obtain w' where u: "?users w = (Inl (if 0 < num_users hp \<and> 0 < num_latents hp
      then RuntimeError else ZeroDivisionError), w')"
    by blast
  with hp have "BPF_guide True smp slf ratings h w =
      (Inl (if 0 < num_users hp \<and> 0 < num_latents hp then RuntimeError
            else ZeroDivisionError), w')"
    by (simp add: BPF_guide_def subscriptable_def pbind_lift_Inr pbind_Inl)
  with u show ?thesis by blast
qed

text \<open>The loop over users creates no parameter of the items.\<close>

lemma lacks_pyro_param: "k' \<noteq> k \<Longrightarrow> preserved (lacks k) (pyro_param k' init)"
  by (simp add: preserved_def lacks_def pyro_param_def split: option.splits)

lemma lacks_pyro_sample: "preserved (lacks k) (pyro_sample tr smp nm d)"
  by (simp add: preserved_def lacks_def pyro_sample_def Let_def)

lemma lacks_pyro_plate: "preserved (lacks k) (pyro_plate tr nm n)"
  by (simp add: preserved_def lacks_def pyro_plate_def Let_def)

lemma BPF_users_loop_lacks:
  "preserved (lacks (fmt2 ''q_li1_'' i l))
     (plate_loop tr ''users_loop'' (num_users hp) (\<lambda>u _. BPF_guide_user tr smp hp u) ())"
  unfolding BPF_guide_user_def plate_loop_def
  by (intro preserved_intros lacks_pyro_param lacks_pyro_sample lacks_pyro_plate)
    (simp_all add: fmt1_def fmt2_def)

text \<open>The plain run of the guide.\<close>

lemma BPF_guide_user_succeeds:
  assumes "0 < num_latents hp"
  shows "succeeds (BPF_guide_user False smp hp u)"
  unfolding BPF_guide_user_def
  by (intro succeeds_pbind succeeds_plate_loop latent_draw_succeeds succeeds_pyro_param
      succeeds_pyro_sample assms)

lemma BPF_guide_item_succeeds:
  assumes "0 < num_latents hp"
  shows "succeeds (BPF_guide_item False smp hp u)"
  unfolding BPF_guide_item_def
  by (intro succeeds_pbind succeeds_plate_loop latent_draw_succeeds succeeds_pyro_param
      succeeds_pyro_sample assms)

lemma BPF_guide_item_grows: "grows (BPF_guide_item tr smp hp i)"
  unfolding grows_def BPF_guide_item_def plate_loop_def
  by (intro allI grows_intros)

lemma BPF_guide_item_creates:
  assumes "l < num_latents hp"
  shows "creates (fmt2 ''q_li1_'' i l) (BPF_guide_item False smp hp i)"
  unfolding BPF_guide_item_def
  apply (rule creates_pbind_later, rule succeeds_pyro_param)
  apply (rule creates_pbind_later, rule succeeds_pyro_param)
  apply (rule creates_pbind_later, rule succeeds_pyro_sample)
  apply (rule creates_plate_loop [where i = l])
     apply (rule assms)
    apply (rule latent_draw_succeeds)
   apply (rule latent_draw_grows)
  apply (rule creates_pyro_param)
  unfolding grows_def
  apply (intro allI grows_intros)
  done

lemma BPF_guide_loops_create_item_shape:
  assumes "0 < num_users hp" and "i < num_items hp" and "l < num_latents hp"
  shows "creates (fmt2 ''q_li1_'' i l)
     (pbind (plate_loop False ''users_loop'' (num_users hp)
               (\<lambda>u _. BPF_guide_user False smp hp u) ()) (\<lambda>_.
      plate_loop False ''items_loop'' (num_items hp) (\<lambda>i _. BPF_guide_item False smp hp i) ()))"
proof -
  from assms(3) have k: "0 < num_latents hp" by simp
  show ?thesis
    apply (rule creates_pbind_later)
     apply (rule succeeds_plate_loop [OF assms(1)])
     apply (rule BPF_guide_user_succeeds [OF k])
    apply (rule creates_plate_loop [where i = i])
       apply (rule assms(2))
      apply (rule BPF_guide_item_succeeds [OF k])
     apply (rule BPF_guide_item_grows)
    apply (rule BPF_guide_item_creates [OF assms(3)])
    done
qed

lemma BPF_guide_loops_keep_item_shapes:
  "preserved (item_shapes (c_i hp))
     (pbind (plate_loop tr ''users_loop'' (num_users hp)
               (\<lambda>u _. BPF_guide_user tr smp hp u) ()) (\<lambda>_.
      plate_loop tr ''items_loop'' (num_items hp) (\<lambda>i _. BPF_guide_item tr smp hp i) ()))"
  unfolding BPF_guide_user_def BPF_guide_item_def plate_loop_def
  by (intro item_shape_intros) (simp_all add: fmt1_def fmt2_def)

section \<open>BPF: training never completes a step\<close>

text \<open>
  Claim C5. Whenever \<^verbatim>\<open>BPF.fit\<close> is called with a step budget of at least one, it
  raises and returns no loss: the call raises before training, or the first call of
  \<^verbatim>\<open>svi.step(ratings, hyperparams)\<close> raises. No step can complete, because the step
  calls \<^verbatim>\<open>_model\<close> with two positional arguments where the signature takes one (a
  \<^verbatim>\<open>TypeError\<close>), and the body of \<^verbatim>\<open>_model\<close> in turn reads its local
  \<^verbatim>\<open>hyperparams\<close> before any assignment (an \<^verbatim>\<open>UnboundLocalError\<close>).
\<close>

theorem BPF_fit_first_step_raises:
  assumes "0 < num_steps"
  shows "(\<exists>e. fst (fst (BPF_fit sub slf ratings hyperparams_arg num_steps w)) = Inl e) \<and>
         (\<exists>e. fst (svi_step sub 0 (BPF_model_call slf) (BPF_guide_call slf)
                  (Args2 ratings hyperparams_arg) w) = Inl e) \<and>
         BPF_model_call slf tr smp (Args2 ratings hyperparams_arg) w = (Inl TypeError, w) \<and>
         BPF_model tr smp slf ratings w = (Inl UnboundLocalError, w)"
proof -
  have fit: "\<exists>e. fst (fst (BPF_fit sub slf ratings hyperparams_arg num_steps w)) = Inl e"
  proof (cases "BPF_fit_prologue slf hyperparams_arg")
    case (Inl e)
    then show ?thesis by (simp add: BPF_fit_def)
  next
    case (Inr p)
    obtain slf' hp where p: "p = (slf', hp)" by (cases p)
    from BPF_svi_step_raises [of sub 0 slf' ratings hp w]
    obtain e w' where
      "svi_step sub 0 (BPF_model_call slf') (BPF_guide_call slf') (Args2 ratings hp) w = (Inl e, w')"
      by blast
    from training_loop_first [OF assms, of "\<lambda>s. svi_step sub s (BPF_model_call slf')
        (BPF_guide_call slf') (Args2 ratings hp)", OF this] Inr p
    show ?thesis by (simp add: BPF_fit_def)
  qed
  from BPF_svi_step_raises [of sub 0 slf ratings hyperparams_arg w]
  have step: "\<exists>e. fst (svi_step sub 0 (BPF_model_call slf) (BPF_guide_call slf)
                  (Args2 ratings hyperparams_arg) w) = Inl e"
    by auto
  have call: "BPF_model_call slf tr smp (Args2 ratings hyperparams_arg) w = (Inl TypeError, w)"
    by (simp add: BPF_model_call_def raise_def)
  from fit step call BPF_model_unbound show ?thesis by blast
qed

theorem BPF_fit_first_step_raises_witness:
  "(0::nat) < 1 \<and>
   (\<exists>e. fst (fst (BPF_fit example_substrate \<lparr>bpf_hyperparams = Some example_hyperparams\<rparr>
             example_ratings (Some example_hyperparams) 1 fresh_world)) = Inl e)"
  using BPF_fit_first_step_raises [of 1 example_substrate
      "\<lparr>bpf_hyperparams = Some example_hyperparams\<rparr>" example_ratings
      "Some example_hyperparams" fresh_world]
  by simp

section \<open>BPF: the hyperparameters argument of fit\<close>

text \<open>
  Claim C9. A \<^verbatim>\<open>hyperparams\<close> argument of \<^verbatim>\<open>BPF.fit\<close> that is not \<^verbatim>\<open>None\<close> is
  discarded: training runs on \<^verbatim>\<open>self.hyperparams\<close>, whatever the argument was. When the
  argument is \<^verbatim>\<open>None\<close> and \<^verbatim>\<open>self.hyperparams\<close> is not, \<^verbatim>\<open>fit\<close> sets
  \<^verbatim>\<open>self.hyperparams\<close> to \<^verbatim>\<open>None\<close> before training, and trains on \<^verbatim>\<open>None\<close>.
\<close>

theorem BPF_fit_hyperparams_argument:
  "BPF_fit sub slf ratings (Some h) num_steps w =
     (training_loop
        (\<lambda>s. svi_step sub s (BPF_model_call slf) (BPF_guide_call slf)
               (Args2 ratings (bpf_hyperparams slf)))
        [0..<num_steps] [] w, slf) \<and>
   (bpf_hyperparams slf \<noteq> None \<longrightarrow>
      BPF_fit sub slf ratings None num_steps w =
        (training_loop
           (\<lambda>s. svi_step sub s (BPF_model_call (slf\<lparr>bpf_hyperparams := None\<rparr>))
                  (BPF_guide_call (slf\<lparr>bpf_hyperparams := None\<rparr>)) (Args2 ratings None))
           [0..<num_steps] [] w, slf\<lparr>bpf_hyperparams := None\<rparr>))"
  by (simp add: BPF_fit_def BPF_fit_prologue_def)

theorem BPF_fit_hyperparams_argument_witness:
  "bpf_hyperparams \<lparr>bpf_hyperparams = Some example_hyperparams\<rparr> \<noteq> None \<and>
   bpf_hyperparams (snd (BPF_fit example_substrate \<lparr>bpf_hyperparams = Some example_hyperparams\<rparr>
      example_ratings None 1 fresh_world)) = None"
  using BPF_fit_hyperparams_argument [of example_substrate
      "\<lparr>bpf_hyperparams = Some example_hyperparams\<rparr>" example_ratings undefined 1 fresh_world]
  by simp

section \<open>MMPF: a ratings sequence shorter than num_nonmissing\<close>

lemma MMPF_guide_latents_fresh_store:
  assumes pos: "0 < num_contexts hp" "0 < num_context_latents hp" "0 < num_users hp"
      "0 < num_items hp" "0 < num_latents hp"
    and fresh: "\<forall>k. store w k = None" and empty: "trace w = []"
    and run: "MMPF_guide_latents True smp hp w = (Inr (), w1)"
  shows "store w1 ''q_user_context_conc'' = Some (ones (num_context_latents hp)) \<and>
         store w1 ''q_item_context_conc'' = Some (ones (num_context_latents hp)) \<and>
         (\<forall>i<num_items hp. \<forall>l<num_latents hp.
            store w1 (fmt2 ''q_li1_'' i l) = Some (Scalar (c_u hp)))"
proof -
  from fresh empty have "store w ''q_user_context_conc'' = None"
    "store w ''q_item_context_conc'' = None" "True \<longrightarrow> trace w = []"
    by simp_all
  from MMPF_guide_latents_conc [OF this, of smp hp] run
  have c: "store w1 ''q_user_context_conc'' = Some (ones (num_context_latents hp))"
    "store w1 ''q_item_context_conc'' = Some (ones (num_context_latents hp))"
    by auto
  from fresh have sh: "item_shapes (c_u hp) w" by (simp add: item_shapes_def)
  have "store w1 (fmt2 ''q_li1_'' i l) = Some (Scalar (c_u hp))"
    if "i < num_items hp" "l < num_latents hp" for i l
  proof -
    have k: "take 6 (fmt2 ''q_li1_'' i l) = ''q_li1_''" by (simp add: fmt2_def)
    from MMPF_guide_latents_traced [OF pos empty, of smp] run
    have "MMPF_guide_latents False smp hp w = (Inr (), w1)" by simp
    with created_with_shape [OF MMPF_guide_latents_creates_item_shape [OF pos(1,2,3) that, of smp]
        MMPF_guide_latents_keeps_item_shapes [of hp False smp] sh k]
    show ?thesis by simp
  qed
  with c show ?thesis by blast
qed

lemma MMPF_fit_short:
  assumes hp: "mmpf_hyperparams slf = Some hp"
    and len: "length ratings < num_nonmissing hp"
    and pos: "0 < num_contexts hp" "0 < num_context_latents hp" "0 < num_users hp"
      "0 < num_items hp" "0 < num_latents hp"
    and pairs: "distinct (rating_pairs ratings)"
    and fresh: "\<forall>k. store w k = None"
    and n: "0 < num_steps"
  shows "\<exists>w'. MMPF_fit sub slf ratings num_steps w = (Inl RuntimeError, w') \<and>
           MMPF_guide True (draw (rng sub 0)) slf ratings (w\<lparr>trace := []\<rparr>) =
             (Inl StopIteration, w') \<and>
           consumed w' = consumed w @ ratings \<and>
           store w' ''q_user_context_conc'' = Some (ones (num_context_latents hp)) \<and>
           store w' ''q_item_context_conc'' = Some (ones (num_context_latents hp)) \<and>
           (\<forall>i<num_items hp. \<forall>l<num_latents hp.
              store w' (fmt2 ''q_li1_'' i l) = Some (Scalar (c_u hp)))"
proof -
  let ?w0 = "w\<lparr>trace := []\<rparr>"
  from MMPF_svi_step_short [OF hp pos len pairs, of sub 0 w]
  obtain w1 w' where s:
    "MMPF_guide_latents True (draw (rng sub 0)) hp ?w0 = (Inr (), w1)"
    "\<forall>k v. store w1 k = Some v \<longrightarrow> store w' k = Some v"
    "MMPF_guide True (draw (rng sub 0)) slf ratings ?w0 = (Inl StopIteration, w')"
    "consumed w' = consumed w @ ratings"
    "svi_step sub 0 (MMPF_model_call slf) (MMPF_guide_call slf) (Args1 ratings) w =
       (Inl RuntimeError, w')"
    by blast
  from fresh have "\<forall>k. store ?w0 k = None" "trace ?w0 = []" by simp_all
  from MMPF_guide_latents_fresh_store [OF pos this s(1)] s(2)
  have st: "store w' ''q_user_context_conc'' = Some (ones (num_context_latents hp))"
    "store w' ''q_item_context_conc'' = Some (ones (num_context_latents hp))"
    "\<forall>i<num_items hp. \<forall>l<num_latents hp.
       store w' (fmt2 ''q_li1_'' i l) = Some (Scalar (c_u hp))"
    by blast+
  from training_loop_first [OF n, of "\<lambda>s. svi_step sub s (MMPF_model_call slf)
      (MMPF_guide_call slf) (Args1 ratings)", OF s(5)]
  have "MMPF_fit sub slf ratings num_steps w = (Inl RuntimeError, w')"
    by (simp add: MMPF_fit_def)
  with s(3,4) st show ?thesis by blast
qed

text \<open>
  Claim C6, as the code has it. When the ratings sequence is strictly shorter than
  \<^verbatim>\<open>num_nonmissing\<close> (with pairwise distinct pairs, positive counts and an empty
  parameter store), \<^verbatim>\<open>MMPF.fit\<close> with a step budget of at least one raises
  \<^verbatim>\<open>RuntimeError\<close> during the first step: the guide raises the \<^verbatim>\<open>StopIteration\<close> of
  \<^verbatim>\<open>next(ratings_itr)\<close> after it has taken every entry, and the exception leaves the
  step as \<^verbatim>\<open>RuntimeError\<close>. The state \<^verbatim>\<open>fit\<close> ends in is the state the guide ended
  in, so no loss is recorded and no optimizer update applied; in its store the guide has
  created the two concentration vectors and the parameter \<^verbatim>\<open>q_li1\<close> of every item
  latent. With a step budget of zero \<^verbatim>\<open>fit\<close> raises nothing and returns the empty list.
\<close>

theorem MMPF_fit_short_ratings:
  assumes "mmpf_hyperparams slf = Some hp" and "length ratings < num_nonmissing hp"
    and "0 < num_contexts hp" and "0 < num_context_latents hp" and "0 < num_users hp"
    and "0 < num_items hp" and "0 < num_latents hp"
    and "distinct (rating_pairs ratings)" and "\<forall>k. store w k = None"
  shows "(0 < num_steps \<longrightarrow>
            (\<exists>w'. MMPF_fit sub slf ratings num_steps w = (Inl RuntimeError, w') \<and>
               MMPF_guide True (draw (rng sub 0)) slf ratings (w\<lparr>trace := []\<rparr>) =
                 (Inl StopIteration, w') \<and>
               consumed w' = consumed w @ ratings \<and>
               store w' ''q_user_context_conc'' = Some (ones (num_context_latents hp)) \<and>
               store w' ''q_item_context_conc'' = Some (ones (num_context_latents hp)) \<and>
               (\<forall>i<num_items hp. \<forall>l<num_latents hp.
                  store w' (fmt2 ''q_li1_'' i l) = Some (Scalar (c_u hp))))) \<and>
         MMPF_fit sub slf ratings 0 w = (Inr [], w)"
  using MMPF_fit_short [OF assms, of num_steps sub] MMPF_fit_zero [of sub slf ratings w]
  by blast

theorem MMPF_fit_short_ratings_witness:
  "mmpf_hyperparams example_mmpf = Some example_hyperparams \<and>
   length [(0, 0, 1) :: rating] < num_nonmissing example_hyperparams \<and>
   distinct (rating_pairs [(0, 0, 1)]) \<and> (\<forall>k. store fresh_world k = None) \<and>
   fst (MMPF_fit example_substrate example_mmpf [(0, 0, 1)] 1 fresh_world) = Inl RuntimeError \<and>
   consumed (snd (MMPF_fit example_substrate example_mmpf [(0, 0, 1)] 1 fresh_world)) =
     [(0, 0, 1)]"
  using MMPF_fit_short_ratings [of example_mmpf example_hyperparams "[(0, 0, 1)]" fresh_world 1
      example_substrate]
  by (auto simp add: example_mmpf_def example_hyperparams_def fresh_world_def rating_pairs_def)

text \<open>
  Against claim C6 as stated: with one rating where \<^verbatim>\<open>num_nonmissing\<close> is 2, \<^verbatim>\<open>fit\<close>
  raises \<^verbatim>\<open>RuntimeError\<close>, not an error of the data's shape, and the parameter
  \<^verbatim>\<open>q_user_context_conc\<close>, absent before the call, is in the store after it.
\<close>

theorem short_ratings_counterexample:
  "length [(0, 0, 1) :: rating] < num_nonmissing example_hyperparams \<and>
   fst (MMPF_fit example_substrate example_mmpf [(0, 0, 1)] 1 fresh_world) = Inl RuntimeError \<and>
   store fresh_world ''q_user_context_conc'' = None \<and>
   store (snd (MMPF_fit example_substrate example_mmpf [(0, 0, 1)] 1 fresh_world))
     ''q_user_context_conc'' = Some (Vector [1, 1])"
  using MMPF_fit_short [of example_mmpf example_hyperparams "[(0, 0, 1)]" fresh_world 1
      example_substrate]
  by (auto simp add: example_mmpf_def example_hyperparams_def fresh_world_def rating_pairs_def
      ones_def numeral_2_eq_2)

section \<open>MMPF: the rating loops of guide and model\<close>

text \<open>
  Claim C4 fails on the code of the model. In a step of training on at least
  \<^verbatim>\<open>num_nonmissing\<close> ratings (pairwise distinct pairs, positive counts, an empty
  parameter store) the guide of \<^verbatim>\<open>MMPF\<close> returns after it has taken exactly the first
  \<^verbatim>\<open>num_nonmissing\<close> entries, in order, and declared the two context sites of each;
  the model, run next on the same sequence, takes the first entry only, declares the two
  context sites of that entry and raises \<^verbatim>\<open>IndexError\<close> at line 146, so its trace has
  no observed site: no likelihood term exists, for the first triple or any later one.
  The model of \<^verbatim>\<open>BPF\<close> raises at line 21 and takes no entry at all.
\<close>

theorem MMPF_rating_loops_in_step:
  assumes "mmpf_hyperparams slf = Some hp"
    and "0 < num_contexts hp" and "0 < num_context_latents hp" and "0 < num_users hp"
    and "0 < num_items hp" and "0 < num_latents hp"
    and "\<forall>k. store w k = None"
    and "0 < num_nonmissing hp" and "num_nonmissing hp \<le> length ratings"
    and "distinct (rating_pairs (take (num_nonmissing hp) ratings))"
  shows "(\<exists>w1 w2.
            MMPF_guide True (draw (rng (sub :: substrate) s)) slf ratings (w\<lparr>trace := []\<rparr>) =
              (Inr (), w1) \<and>
            consumed w1 = consumed w @ take (num_nonmissing hp) ratings \<and>
            itr w1 = drop (num_nonmissing hp) ratings \<and>
            names w1 = MMPF_guide_latent_names hp @
              ''ratings'' # rating_site_names (take (num_nonmissing hp) ratings) \<and>
            MMPF_model True (replay (trace w1) (draw (rng sub s))) slf ratings
              (w1\<lparr>trace := []\<rparr>) = (Inl IndexError, w2) \<and>
            consumed w2 = consumed w1 @ take 1 ratings \<and>
            names w2 = MMPF_model_latent_names hp @
              ''ratings'' # rating_site_names (take 1 ratings) \<and>
            unobserved w2) \<and>
         BPF_model tr smp bpf ratings w = (Inl UnboundLocalError, w)"
proof -
  from MMPF_svi_step_enough [OF assms, of sub s]
  have "\<exists>w1 w2.
            MMPF_guide True (draw (rng sub s)) slf ratings (w\<lparr>trace := []\<rparr>) = (Inr (), w1) \<and>
            consumed w1 = consumed w @ take (num_nonmissing hp) ratings \<and>
            itr w1 = drop (num_nonmissing hp) ratings \<and>
            names w1 = MMPF_guide_latent_names hp @
              ''ratings'' # rating_site_names (take (num_nonmissing hp) ratings) \<and>
            MMPF_model True (replay (trace w1) (draw (rng sub s))) slf ratings
              (w1\<lparr>trace := []\<rparr>) = (Inl IndexError, w2) \<and>
            consumed w2 = consumed w1 @ take 1 ratings \<and>
            names w2 = MMPF_model_latent_names hp @
              ''ratings'' # rating_site_names (take 1 ratings) \<and>
            unobserved w2"
    by blast
  with BPF_model_unbound show ?thesis by blast
qed

theorem MMPF_rating_loops_in_step_witness:
  "mmpf_hyperparams example_mmpf = Some example_hyperparams \<and>
   (\<forall>k. store fresh_world k = None) \<and>
   num_nonmissing example_hyperparams = length example_ratings \<and>
   distinct (rating_pairs example_ratings) \<and>
   consumed (snd (MMPF_guide True (draw (rng example_substrate 0)) example_mmpf example_ratings
     (fresh_world\<lparr>trace := []\<rparr>))) = example_ratings \<and>
   (\<exists>w1 w2. MMPF_guide True (draw (rng example_substrate 0)) example_mmpf example_ratings
        (fresh_world\<lparr>trace := []\<rparr>) = (Inr (), w1) \<and>
      MMPF_model True (replay (trace w1) (draw (rng example_substrate 0))) example_mmpf
        example_ratings (w1\<lparr>trace := []\<rparr>) = (Inl IndexError, w2) \<and>
      consumed w2 = example_ratings @ [(0, 0, 1)])"
  using MMPF_rating_loops_in_step [of example_mmpf example_hyperparams fresh_world example_ratings
      example_substrate 0 True example_sampler example_bpf]
  by (auto simp add: example_mmpf_def example_hyperparams_def fresh_world_def rating_pairs_def
      example_ratings_def)

section \<open>MMPF: the rate of a rating\<close>

text \<open>
  Claim C2 fails on the code. With at least one user, one latent factor and one rating
  (and positive counts for the other plates), \<^verbatim>\<open>MMPF._model\<close> never computes the rate:
  the variable \<^verbatim>\<open>user_latents\<close> holds the last draw of the loop of lines 129 to 133, a
  tensor of rank 0, and \<^verbatim>\<open>user_latents[:, user]\<close> at line 146 raises \<^verbatim>\<open>IndexError\<close>.
  This holds for a plain call of the model and for a traced one from an empty trace,
  whenever the sampler gives rank 0 at the sites of the users, and in particular in a
  step of training from an empty parameter store.
\<close>

theorem MMPF_model_raises_IndexError:
  assumes "mmpf_hyperparams slf = Some hp" and "0 < num_nonmissing hp" and "ratings \<noteq> []"
    and "0 < num_users hp" and "0 < num_latents hp"
    and "0 < num_contexts hp" and "0 < num_context_latents hp" and "0 < num_items hp"
  shows "(scalar_latents smp \<and> (tr \<longrightarrow> trace w = []) \<longrightarrow>
            fst (MMPF_model tr smp slf ratings w) = Inl IndexError) \<and>
         ((\<forall>k. store w k = None) \<and> num_nonmissing hp \<le> length ratings \<and>
          distinct (rating_pairs (take (num_nonmissing hp) ratings)) \<longrightarrow>
            fst (svi_step sub s (MMPF_model_call slf) (MMPF_guide_call slf) (Args1 ratings) w) =
              Inl IndexError)"
proof -
  note pos = assms(6,7,4,8,5)
  have a: "fst (MMPF_model tr smp slf ratings w) = Inl IndexError"
    if r: "scalar_latents smp" and f: "tr \<longrightarrow> trace w = []"
  proof -
    from MMPF_model_plain [OF assms(1) pos assms(2,3) r, of w]
    have p: "fst (MMPF_model False smp slf ratings w) = Inl IndexError" by auto
    show ?thesis
    proof (cases tr)
      case True
      with f have "trace w = []" by simp
      from MMPF_model_traced [OF assms(1) pos assms(2,3) r this] p True show ?thesis by simp
    next
      case False
      with p show ?thesis by simp
    qed
  qed
  have b: "fst (svi_step sub s (MMPF_model_call slf) (MMPF_guide_call slf) (Args1 ratings) w) =
      Inl IndexError"
    if "\<forall>k. store w k = None" "num_nonmissing hp \<le> length ratings"
      "distinct (rating_pairs (take (num_nonmissing hp) ratings))"
    using MMPF_svi_step_enough [OF assms(1) pos that(1) assms(2) that(2,3), of sub s] by auto
  from a b show ?thesis by blast
qed

theorem MMPF_model_raises_IndexError_witness:
  "mmpf_hyperparams example_mmpf = Some example_hyperparams \<and>
   0 < num_nonmissing example_hyperparams \<and> example_ratings \<noteq> [] \<and>
   scalar_latents example_sampler \<and>
   fst (MMPF_model False example_sampler example_mmpf example_ratings fresh_world) =
     Inl IndexError \<and>
   fst (svi_step example_substrate 0 (MMPF_model_call example_mmpf)
          (MMPF_guide_call example_mmpf) (Args1 example_ratings) fresh_world) = Inl IndexError"
  using MMPF_model_raises_IndexError [of example_mmpf example_hyperparams example_ratings
      example_sampler False fresh_world example_substrate 0]
    scalar_latents_draw [of "\<lambda>nm k. 1"]
  by (simp add: example_mmpf_def example_hyperparams_def example_ratings_def fresh_world_def
      example_sampler_def rating_pairs_def)

section \<open>fit: the length of the loss sequence\<close>

lemma BPF_fit_raises:
  assumes n: "0 < num_steps" and hp: "bpf_hyperparams bpf = Some hp"
  shows "fst (fst (BPF_fit sub bpf ratings (Some h) num_steps w)) =
           Inl (if 0 < num_users hp \<and> 0 < num_latents hp then RuntimeError
                else ZeroDivisionError)"
proof -
  let ?e = "if 0 < num_users hp \<and> 0 < num_latents hp then RuntimeError else ZeroDivisionError"
  have "(if Some hp = None then bpf_hyperparams bpf else Some hp) = Some hp" by simp
  from BPF_guide_traced [OF this, of "w\<lparr>trace := []\<rparr>" "draw (rng sub 0)" ratings]
  obtain w' where "BPF_guide True (draw (rng sub 0)) bpf ratings (Some hp) (w\<lparr>trace := []\<rparr>) =
      (Inl ?e, w')"
    by auto
  then have "svi_step sub 0 (BPF_model_call bpf) (BPF_guide_call bpf) (Args2 ratings (Some hp)) w =
      (Inl ?e, w')"
    by (simp add: svi_step_def BPF_guide_call_def leaving_generator_def)
  from training_loop_first [OF n, of "\<lambda>s. svi_step sub s (BPF_model_call bpf)
      (BPF_guide_call bpf) (Args2 ratings (Some hp))", OF this] hp
  show ?thesis by (simp add: BPF_fit_def BPF_fit_prologue_def)
qed

lemma BPF_fit_default_raises:
  assumes n: "0 < num_steps" and hp: "bpf_hyperparams bpf = Some hp"
  shows "fst (fst (BPF_fit sub bpf ratings None num_steps w)) = Inl TypeError"
proof -
  let ?slf = "bpf\<lparr>bpf_hyperparams := None\<rparr>"
  have "svi_step sub 0 (BPF_model_call ?slf) (BPF_guide_call ?slf) (Args2 ratings None) w =
      (Inl TypeError, w\<lparr>trace := []\<rparr>)"
    by (simp add: svi_step_def BPF_guide_call_def BPF_guide_def subscriptable_def pbind_def
        lift_def leaving_generator_def)
  from training_loop_first [OF n, of "\<lambda>s. svi_step sub s (BPF_model_call ?slf)
      (BPF_guide_call ?slf) (Args2 ratings None)", OF this] hp
  show ?thesis by (simp add: BPF_fit_def BPF_fit_prologue_def)
qed

lemma MMPF_fit_raises:
  assumes n: "0 < num_steps" and hp: "mmpf_hyperparams slf = Some hp"
    and pos: "0 < num_contexts hp" "0 < num_context_latents hp" "0 < num_users hp"
      "0 < num_items hp" "0 < num_latents hp"
    and fresh: "\<forall>k. store w k = None"
    and len: "0 < num_nonmissing hp" "num_nonmissing hp \<le> length ratings"
    and pairs: "distinct (rating_pairs (take (num_nonmissing hp) ratings))"
  shows "fst (MMPF_fit sub slf ratings num_steps w) = Inl IndexError"
proof -
  from MMPF_svi_step_enough [OF hp pos fresh len pairs, of sub 0]
  obtain w2 where "svi_step sub 0 (MMPF_model_call slf) (MMPF_guide_call slf) (Args1 ratings) w =
      (Inl IndexError, w2)"
    by blast
  from training_loop_first [OF n, of "\<lambda>s. svi_step sub s (MMPF_model_call slf)
      (MMPF_guide_call slf) (Args1 ratings)", OF this]
  show ?thesis by (simp add: MMPF_fit_def)
qed

text \<open>
  Claim C1 fails on the code: with a step budget of at least one, \<^verbatim>\<open>fit\<close> returns no
  loss sequence. \<^verbatim>\<open>BPF.fit\<close> raises at its first step: called with hyperparameters,
  its guide raises \<^verbatim>\<open>RuntimeError\<close> at line 65, where the site \<^verbatim>\<open>user_latents\<close> has
  the name of the plate of line 59 (or \<^verbatim>\<open>ZeroDivisionError\<close> at a plate of size 0);
  called without, it has set \<^verbatim>\<open>self.hyperparams\<close> to \<^verbatim>\<open>None\<close> and the guide raises
  \<^verbatim>\<open>TypeError\<close> at line 49. \<^verbatim>\<open>MMPF.fit\<close>, from an empty parameter store, with positive
  counts and at least \<^verbatim>\<open>num_nonmissing\<close> ratings of pairwise distinct pairs, raises
  \<^verbatim>\<open>IndexError\<close> at its first step.
\<close>

theorem fit_raises_at_the_first_step:
  assumes "0 < num_steps"
  shows "(bpf_hyperparams bpf = Some hp \<longrightarrow>
            fst (fst (BPF_fit sub bpf ratings (Some h) num_steps w)) =
              Inl (if 0 < num_users hp \<and> 0 < num_latents hp then RuntimeError
                   else ZeroDivisionError) \<and>
            fst (fst (BPF_fit sub bpf ratings None num_steps w)) = Inl TypeError) \<and>
         (mmpf_hyperparams mmpf = Some hp \<and> (\<forall>k. store w k = None) \<and>
          0 < num_contexts hp \<and> 0 < num_context_latents hp \<and> 0 < num_users hp \<and>
          0 < num_items hp \<and> 0 < num_latents hp \<and>
          0 < num_nonmissing hp \<and> num_nonmissing hp \<le> length ratings \<and>
          distinct (rating_pairs (take (num_nonmissing hp) ratings)) \<longrightarrow>
            fst (MMPF_fit sub mmpf ratings num_steps w) = Inl IndexError)"
  using BPF_fit_raises [OF assms, of bpf hp sub ratings h w]
    BPF_fit_default_raises [OF assms, of bpf hp sub ratings w]
    MMPF_fit_raises [OF assms, of mmpf hp w ratings sub]
  by blast

theorem fit_raises_at_the_first_step_witness:
  "(0::nat) < 1 \<and> bpf_hyperparams example_bpf = Some example_hyperparams \<and>
   mmpf_hyperparams example_mmpf = Some example_hyperparams \<and>
   fst (fst (BPF_fit example_substrate example_bpf example_ratings (Some example_hyperparams) 1
     fresh_world)) = Inl RuntimeError \<and>
   fst (MMPF_fit example_substrate example_mmpf example_ratings 1 fresh_world) = Inl IndexError"
  using fit_raises_at_the_first_step [of 1 example_bpf example_hyperparams example_substrate
      example_ratings example_hyperparams fresh_world example_mmpf]
  by (simp add: example_bpf_def example_mmpf_def example_hyperparams_def example_ratings_def
      fresh_world_def rating_pairs_def)

section \<open>MMPF: the dimensions of the context probabilities\<close>

text \<open>
  Claim C10. When the store does not hold them yet, the guide of MMPF creates
  \<^verbatim>\<open>q_user_context_conc\<close> and \<^verbatim>\<open>q_item_context_conc\<close> as vectors of
  \<^verbatim>\<open>num_context_latents\<close> ones and declares \<^verbatim>\<open>user_context_prob\<close> and
  \<^verbatim>\<open>item_context_prob\<close> as Dirichlet over them, whereas the model declares the same two
  sites as Dirichlet over a vector of length \<^verbatim>\<open>num_contexts\<close>. The two dimensions agree
  exactly when \<^verbatim>\<open>num_context_latents = num_contexts\<close>. This holds of a plain call and
  of a traced run that starts from an empty trace.
\<close>

theorem context_prob_dimensions:
  assumes "mmpf_hyperparams slf = Some hp"
    and "store w ''q_user_context_conc'' = None" and "store w ''q_item_context_conc'' = None"
    and "tr \<longrightarrow> trace w = []"
  shows "\<exists>g1 g2 grest m1 m2 mrest.
     store (snd (MMPF_guide tr smp slf ratings w)) ''q_user_context_conc'' =
       Some (ones (num_context_latents hp)) \<and>
     store (snd (MMPF_guide tr smp slf ratings w)) ''q_item_context_conc'' =
       Some (ones (num_context_latents hp)) \<and>
     shape_of (ones (num_context_latents hp)) = Dim1 (num_context_latents hp) \<and>
     trace (snd (MMPF_guide tr smp slf ratings w)) = trace w @
       Site ''user_context_prob'' (Dirichlet (ones (num_context_latents hp))) g1 False #
       Site ''item_context_prob'' (Dirichlet (ones (num_context_latents hp))) g2 False # grest \<and>
     trace (snd (MMPF_model tr smp' slf ratings w)) = trace w @
       Site ''user_context_prob''
         (Dirichlet (scale (context_conc hp) (ones (num_contexts hp)))) m1 False #
       Site ''item_context_prob''
         (Dirichlet (scale (context_conc hp) (ones (num_contexts hp)))) m2 False # mrest \<and>
     sample_shape (Dirichlet (ones (num_context_latents hp))) = Dim1 (num_context_latents hp) \<and>
     sample_shape (Dirichlet (scale (context_conc hp) (ones (num_contexts hp)))) =
       Dim1 (num_contexts hp) \<and>
     (sample_shape (Dirichlet (ones (num_context_latents hp))) =
        sample_shape (Dirichlet (scale (context_conc hp) (ones (num_contexts hp)))) \<longleftrightarrow>
      num_context_latents hp = num_contexts hp)"
proof -
  have s: "sample_shape (Dirichlet (ones (num_context_latents hp))) = Dim1 (num_context_latents hp)"
    "sample_shape (Dirichlet (scale (context_conc hp) (ones (num_contexts hp)))) =
       Dim1 (num_contexts hp)"
    "shape_of (ones (num_context_latents hp)) = Dim1 (num_context_latents hp)"
    by (simp_all add: ones_def)
  from MMPF_guide_context_probs [OF assms, of smp ratings]
    MMPF_model_context_probs [OF assms(1,4), of smp' ratings] s
  show ?thesis by (simp only: shape.inject) blast
qed

theorem context_prob_dimensions_witness:
  "mmpf_hyperparams example_mmpf = Some example_hyperparams \<and>
   store fresh_world ''q_user_context_conc'' = None \<and>
   store fresh_world ''q_item_context_conc'' = None \<and> trace fresh_world = [] \<and>
   store (snd (MMPF_guide True example_sampler example_mmpf example_ratings fresh_world))
     ''q_user_context_conc'' = Some (Vector [1, 1]) \<and>
   num_contexts example_hyperparams = 1"
  using context_prob_dimensions [of example_mmpf example_hyperparams fresh_world True
      example_sampler example_ratings example_sampler]
  by (auto simp add: example_mmpf_def example_hyperparams_def fresh_world_def ones_def
      numeral_2_eq_2)

section \<open>The initial value of q_li1\<close>

text \<open>
  Claim C8 fails on the code of MMPF. From an empty parameter store, with positive
  counts, for every item i and latent l within the counts, the guide of MMPF (called
  plainly, or traced from an empty trace) leaves \<^verbatim>\<open>q_li1_{i},{l}\<close> with the value of
  \<^verbatim>\<open>c_u\<close> (line 204), where the prior of the item latents has the shape \<^verbatim>\<open>c_i\<close>
  (line 137). The guide of BPF, called plainly, leaves it with the value of \<^verbatim>\<open>c_i\<close>
  (line 78), as the claim says; traced from an empty trace it raises at line 65 and
  never creates the parameter.
\<close>

theorem item_latent_shape_initial_value:
  assumes "i < num_items hp" and "l < num_latents hp"
    and "0 < num_contexts hp" and "0 < num_context_latents hp" and "0 < num_users hp"
    and "\<forall>k. store w k = None" and "tr \<longrightarrow> trace w = []"
  shows "(mmpf_hyperparams mmpf = Some hp \<longrightarrow>
            store (snd (MMPF_guide tr smp mmpf ratings w)) (fmt2 ''q_li1_'' i l) =
              Some (Scalar (c_u hp))) \<and>
         (bpf_hyperparams bpf = Some hp \<longrightarrow>
            store (snd (BPF_guide False smp bpf ratings None w)) (fmt2 ''q_li1_'' i l) =
              Some (Scalar (c_i hp)) \<and>
            (trace w = [] \<longrightarrow>
               fst (BPF_guide True smp bpf ratings None w) = Inl RuntimeError \<and>
               store (snd (BPF_guide True smp bpf ratings None w)) (fmt2 ''q_li1_'' i l) = None))"
proof -
  have k: "take 6 (fmt2 ''q_li1_'' i l) = ''q_li1_''" by (simp add: fmt2_def)
  from assms(6) have w: "item_shapes c w" for c by (simp add: item_shapes_def)
  from assms(1,2) have pos: "0 < num_contexts hp" "0 < num_context_latents hp" "0 < num_users hp"
    "0 < num_items hp" "0 < num_latents hp"
    using assms(3,4,5) by simp_all
  have a: "store (snd (MMPF_guide tr smp mmpf ratings w)) (fmt2 ''q_li1_'' i l) =
      Some (Scalar (c_u hp))"
    if hp: "mmpf_hyperparams mmpf = Some hp"
  proof -
    note p = created_with_shape [OF MMPF_guide_latents_creates_item_shape
        [OF pos(1,2,3) assms(1,2), of smp] MMPF_guide_latents_keeps_item_shapes [of hp False smp]
        w k]
    have "MMPF_guide_latents tr smp hp w = MMPF_guide_latents False smp hp w"
    proof (cases tr)
      case True
      with assms(7) have "trace w = []" by simp
      from MMPF_guide_latents_traced [OF pos this, of smp] True show ?thesis by simp
    next
      case False
      then show ?thesis by simp
    qed
    with p have "store (snd (MMPF_guide_latents tr smp hp w)) (fmt2 ''q_li1_'' i l) =
        Some (Scalar (c_u hp))"
      by simp
    with MMPF_guide_after_latents [OF hp, of tr smp w ratings] show ?thesis by blast
  qed
  have b: "store (snd (BPF_guide False smp bpf ratings None w)) (fmt2 ''q_li1_'' i l) =
      Some (Scalar (c_i hp))"
    if hp: "bpf_hyperparams bpf = Some hp"
  proof -
    let ?loops = "pbind (plate_loop False ''users_loop'' (num_users hp)
               (\<lambda>u _. BPF_guide_user False smp hp u) ()) (\<lambda>_.
      plate_loop False ''items_loop'' (num_items hp) (\<lambda>i _. BPF_guide_item False smp hp i) ())"
    from hp have "BPF_guide False smp bpf ratings None w = ?loops w"
      by (simp add: BPF_guide_def subscriptable_def pbind_lift_Inr)
    with created_with_shape [OF BPF_guide_loops_create_item_shape [OF pos(3) assms(1,2), of smp]
        BPF_guide_loops_keep_item_shapes [of hp False smp] w k]
    show ?thesis by simp
  qed
  have c: "fst (BPF_guide True smp bpf ratings None w) = Inl RuntimeError \<and>
      store (snd (BPF_guide True smp bpf ratings None w)) (fmt2 ''q_li1_'' i l) = None"
    if hp: "bpf_hyperparams bpf = Some hp" and e: "trace w = []"
  proof -
    from hp have "(if (None :: hyperparams option) = None then bpf_hyperparams bpf else None) =
        Some hp"
      by simp
    from BPF_guide_traced [OF this e, of smp ratings] pos
    obtain w' where g: "BPF_guide True smp bpf ratings None w = (Inl RuntimeError, w')"
      "plate_loop True ''users_loop'' (num_users hp) (\<lambda>u _. BPF_guide_user True smp hp u) () w =
         (Inl RuntimeError, w')"
      by auto
    from assms(6) have "lacks (fmt2 ''q_li1_'' i l) w" by (simp add: lacks_def)
    from preserved_step [OF BPF_users_loop_lacks this g(2)] g(1) show ?thesis
      by (simp add: lacks_def)
  qed
  from a b c show ?thesis by blast
qed

theorem item_latent_shape_initial_value_witness:
  "(0::nat) < num_items example_hyperparams \<and> (0::nat) < num_latents example_hyperparams \<and>
   (\<forall>k. store fresh_world k = None) \<and> trace fresh_world = [] \<and>
   mmpf_hyperparams example_mmpf = Some example_hyperparams \<and>
   bpf_hyperparams example_bpf = Some example_hyperparams \<and>
   c_i example_hyperparams = 3 \<and>
   store (snd (MMPF_guide True example_sampler example_mmpf example_ratings fresh_world))
     ''q_li1_0,0'' = Some (Scalar 2) \<and>
   store (snd (BPF_guide False example_sampler example_bpf example_ratings None fresh_world))
     ''q_li1_0,0'' = Some (Scalar 3) \<and>
   fst (BPF_guide True example_sampler example_bpf example_ratings None fresh_world) =
     Inl RuntimeError"
  using item_latent_shape_initial_value [of 0 example_hyperparams 0 fresh_world True example_mmpf
      example_sampler example_ratings example_bpf]
  by (simp add: example_hyperparams_def example_mmpf_def example_bpf_def fresh_world_def
      fmt2_def str.simps digit_def)

end
